(* ===== verification/Kafka_Prelude.thy ===== *)
theory Kafka_Prelude
  imports Main "HOL-Library.Word" "HOL-Library.Sublist"
begin

text \<open>
  The shared vocabulary of the development: the fixed-width integers of
  \<^verbatim>\<open>primitives.h\<close> as words, \<^verbatim>\<open>std::string\<close> and \<^verbatim>\<open>std::vector<Byte>\<close> as lists of
  bytes, the object representation of an integer in the memory of a little-endian host,
  and the generic list, option and word lemmas that the component theories use.
\<close>

unbundle bit_operations_syntax

named_theorems wire_simps \<open>equations that evaluate the writers and the readers\<close>
named_theorems wire_append \<open>a writer only appends to its stream\<close>
named_theorems wire_size \<open>the announced size of a value is the number of bytes written\<close>

section \<open>Types\<close>

type_synonym Int8 = "8 word"
type_synonym Int16 = "16 word"
type_synonym Int32 = "32 word"
type_synonym Int64 = "64 word"
type_synonym Byte = "8 word"
type_synonym String = "Byte list"
type_synonym Bytes = "Byte list option"

text \<open>Literals of the source are written as HOL strings and converted to bytes.\<close>

definition str :: "string \<Rightarrow> String" where
  "str s = map (\<lambda>c. of_char c) s"

lemma length_str [simp]: "length (str s) = length s"
  by (simp add: str_def)

lemma str_Nil [simp]: "str [] = []"
  by (simp add: str_def)

section \<open>Object representation of integers on a little-endian host\<close>

fun mem_store :: "nat \<Rightarrow> 'a::len word \<Rightarrow> Byte list" where
  "mem_store 0 w = []"
| "mem_store (Suc n) w = ucast w # mem_store n (drop_bit 8 w)"

fun mem_load :: "Byte list \<Rightarrow> 'a::len word" where
  "mem_load [] = 0"
| "mem_load (b # bs) = ucast b OR push_bit 8 (mem_load bs)"

lemma length_mem_store [simp]: "length (mem_store n w) = n"
  by (induction n arbitrary: w) auto

lemma mem_load_store: "mem_load (mem_store n w) = take_bit (8 * n) w"
proof (induction n arbitrary: w)
  case 0
  then show ?case by simp
next
  case (Suc n)
  have "ucast (ucast w :: Byte) OR push_bit 8 (take_bit (8 * n) (drop_bit 8 w)) =
      take_bit (8 * Suc n) w"
    by (rule bit_word_eqI) (auto simp: bit_simps)
  with Suc show ?case by simp
qed

lemma mem_load_store_full:
  "8 * n = LENGTH('a::len) \<Longrightarrow> mem_load (mem_store n w) = (w :: 'a word)"
  by (simp add: mem_load_store)

lemma bit_mem_load_beyond: "8 * length bs \<le> i \<Longrightarrow> \<not> bit (mem_load bs) i"
proof (induction bs arbitrary: i)
  case (Cons c cs)
  have "\<not> bit c i" using Cons.prems by (intro notI) (drule bit_imp_le_length, simp)
  with Cons show ?case by (auto simp: bit_simps)
qed simp

lemma mem_store_load:
  "8 * length bs \<le> LENGTH('a::len) \<Longrightarrow> mem_store (length bs) (mem_load bs :: 'a word) = bs"
proof (induction bs)
  case (Cons b bs)
  let ?m = "mem_load bs :: 'a word"
  have l: "8 \<le> LENGTH('a)" "8 * length bs \<le> LENGTH('a) - 8" using Cons.prems by auto
  have u: "ucast (ucast b OR push_bit 8 ?m) = b"
    using l by (intro bit_word_eqI) (auto simp: bit_simps)
  have d: "drop_bit 8 (ucast b OR push_bit 8 ?m) = ?m"
  proof (rule bit_word_eqI)
    fix n assume n: "n < LENGTH('a)"
    have "\<not> bit b (8 + n)" by (intro notI) (drule bit_imp_le_length, simp)
    moreover have "bit ?m n \<Longrightarrow> 8 + n < LENGTH('a)"
      using bit_mem_load_beyond [of bs n, where ?'a = 'a] l by (cases "8 * length bs \<le> n") auto
    ultimately show "bit (drop_bit 8 (ucast b OR push_bit 8 ?m)) n = bit ?m n"
      using n by (auto simp: bit_simps)
  qed
  from Cons show ?case by (simp only: mem_load.simps mem_store.simps length_Cons u d) simp
qed simp

lemma mem_store_add: "mem_store (m + n) w = mem_store m w @ mem_store n (drop_bit (8 * m) w)"
  by (induction m arbitrary: w) (simp_all add: add.commute)

lemma nth_mem_store: "i < n \<Longrightarrow> mem_store n w ! i = ucast (drop_bit (8 * i) w)"
proof (induction n arbitrary: w i)
  case (Suc n)
  then show ?case by (cases i) (simp_all add: add.commute)
qed simp

lemma mem_store_ucast:
  assumes "8 * n \<le> LENGTH('b::len)"
  shows "mem_store n (ucast (w :: 'a::len word) :: 'b word) = mem_store n w"
proof (rule nth_equalityI)
  fix i assume "i < length (mem_store n (ucast w :: 'b word))"
  then have i: "i < n" by simp
  have "ucast (drop_bit (8 * i) (ucast w :: 'b word)) = (ucast (drop_bit (8 * i) w) :: Byte)"
    using i assms by (intro bit_word_eqI) (auto simp: bit_simps)
  with i show "mem_store n (ucast w :: 'b word) ! i = mem_store n w ! i"
    by (simp add: nth_mem_store)
qed simp

lemma mem_load_append: "mem_load (xs @ ys) = mem_load xs OR push_bit (8 * length xs) (mem_load ys)"
  by (induction xs) (simp_all add: or.assoc)

lemma ucast_mem_load:
  assumes "8 * length bs \<le> LENGTH('b::len)"
  shows "ucast (mem_load bs :: 'b word) = (mem_load bs :: 'a::len word)"
  using assms
proof (induction bs)
  case (Cons b bs)
  let ?m = "mem_load bs :: 'b word"
  have "ucast (ucast b OR push_bit 8 ?m :: 'b word) = (ucast b OR push_bit 8 (ucast ?m) :: 'a word)"
  proof (rule bit_word_eqI)
    fix n assume n: "n < LENGTH('a)"
    have "bit b n \<Longrightarrow> n < LENGTH('b)" using Cons.prems by (auto dest!: bit_imp_le_length)
    moreover have "8 \<le> n \<Longrightarrow> bit ?m (n - 8) \<Longrightarrow> n < LENGTH('b)"
      using bit_mem_load_beyond [of bs "n - 8", where ?'a = 'b] Cons.prems
      by (cases "8 * length bs \<le> n - 8") auto
    ultimately show "bit (ucast (ucast b OR push_bit 8 ?m :: 'b word) :: 'a word) n =
      bit (ucast b OR push_bit 8 (ucast ?m) :: 'a word) n"
      using n by (auto simp: bit_simps)
  qed
  with Cons show ?case by simp
qed simp

section \<open>Words and lists\<close>

lemma unat_of_nat_less: "n < 2 ^ LENGTH('a::len) \<Longrightarrow> unat (of_nat n :: 'a word) = n"
  by (simp add: unat_of_nat take_bit_nat_eq_self)

lemma sint_of_nat_less:
  assumes "n < 2 ^ (LENGTH('a::len) - 1)"
  shows "sint (of_nat n :: 'a word) = int n"
proof -
  have "int n < 2 ^ (LENGTH('a) - 1)"
    using assms by (metis of_nat_less_iff of_nat_numeral of_nat_power)
  then show ?thesis
    by (simp add: signed_of_nat signed_take_bit_int_eq_self order.trans [of _ 0])
qed

lemma ucast_down_minus:
  assumes "LENGTH('b::len) \<le> LENGTH('a::len)"
  shows "(ucast (x - y :: 'a word) :: 'b word) = ucast x - ucast y"
proof -
  have "take_bit LENGTH('b) (take_bit LENGTH('a) k - take_bit LENGTH('a) l) =
      take_bit LENGTH('b) (take_bit LENGTH('a) (k - l))" for k l :: int
  proof -
    have "take_bit LENGTH('b) (take_bit LENGTH('a) k - take_bit LENGTH('a) l) =
        take_bit LENGTH('b) (take_bit LENGTH('b) (take_bit LENGTH('a) k) -
          take_bit LENGTH('b) (take_bit LENGTH('a) l))"
      by (simp only: take_bit_diff)
    also have "\<dots> = take_bit LENGTH('b) (k - l)"
      using assms by (simp only: take_bit_take_bit min_absorb1 take_bit_diff)
    finally show ?thesis using assms by (simp only: take_bit_take_bit min_absorb1)
  qed
  then show ?thesis by transfer (rule sym)
qed

lemma ucast_down_add:
  assumes "LENGTH('b::len) \<le> LENGTH('a::len)"
  shows "(ucast (x + y :: 'a word) :: 'b word) = ucast x + ucast y"
  using ucast_down_minus [OF assms, of "x + y" y] by simp

lemma prefix_drop_append: "prefix xs ys \<Longrightarrow> ys = xs @ drop (length xs) ys"
  by (auto elim: prefixE)

lemma concat_map_append: "concat (map f (xs @ ys)) = concat (map f xs) @ concat (map f ys)"
  by simp

end
