(* ===== verification/Endian.thy ===== *)
theory Endian
  imports Kafka_Prelude
begin

text \<open>
  Byte order: the POSIX conversions \<^verbatim>\<open>htons\<close> / \<^verbatim>\<open>htonl\<close> on a little-endian host
  (the case \<^verbatim>\<open>BOOST_LITTLE_ENDIAN\<close> of \<^verbatim>\<open>detail/endian.h\<close>) and the hand-written 64-bit
  conversion \<^verbatim>\<open>be_to_host_64\<close> with its shifts and casts.
\<close>

definition htons :: "Int16 \<Rightarrow> Int16" where
  "htons w = mem_load (rev (mem_store 2 w))"

definition htonl :: "Int32 \<Rightarrow> Int32" where
  "htonl w = mem_load (rev (mem_store 4 w))"

definition ntohs :: "Int16 \<Rightarrow> Int16" where
  "ntohs w = mem_load (rev (mem_store 2 w))"

definition ntohl :: "Int32 \<Rightarrow> Int32" where
  "ntohl w = mem_load (rev (mem_store 4 w))"

definition be_to_host_64 :: "Int64 \<Rightarrow> Int64" where
  "be_to_host_64 ll =
     push_bit 32 (ucast (htonl (ucast (signed_drop_bit 32 (push_bit 32 ll))))) OR
     ucast (htonl (ucast (signed_drop_bit 32 ll)))"

definition host_to_be_64 :: "Int64 \<Rightarrow> Int64" where
  "host_to_be_64 ll = be_to_host_64 ll"

text \<open>The reference definition: reverse the bytes of the object representation.\<close>

definition byte_swap :: "nat \<Rightarrow> 'a::len word \<Rightarrow> 'a word" where
  "byte_swap n w = mem_load (rev (mem_store n w))"

lemma byte_swap_involutive:
  assumes "8 * n = LENGTH('a::len)"
  shows "byte_swap n (byte_swap n w) = (w :: 'a word)"
proof -
  have "mem_store n (mem_load (rev (mem_store n w)) :: 'a word) = rev (mem_store n w)"
    using mem_store_load [of "rev (mem_store n w)", where ?'a = 'a] assms by simp
  with assms show ?thesis by (simp add: byte_swap_def mem_load_store_full)
qed

lemma mem_store_byte_swap:
  assumes "8 * n \<le> LENGTH('a::len)"
  shows "mem_store n (byte_swap n (w :: 'a word)) = rev (mem_store n w)"
  using mem_store_load [of "rev (mem_store n w)", where ?'a = 'a] assms
  by (simp add: byte_swap_def)

lemma be_to_host_64_byte_swap: "be_to_host_64 w = byte_swap 8 w"
proof -
  have lo: "ucast (signed_drop_bit 32 (push_bit 32 w)) = (ucast w :: 32 word)"
    by (rule bit_word_eqI) (auto simp: bit_simps)
  have hi: "ucast (signed_drop_bit 32 w) = (ucast (drop_bit 32 w) :: 32 word)"
    by (rule bit_word_eqI) (auto simp: bit_simps)
  have "mem_load (rev (mem_store (4 + 4) w)) =
      (mem_load (rev (mem_store 4 (ucast (drop_bit 32 w) :: 32 word))) OR
       push_bit 32 (mem_load (rev (mem_store 4 (ucast w :: 32 word)))) :: 64 word)"
    by (simp only: mem_store_add rev_append mem_load_append) (simp add: mem_store_ucast)
  then show ?thesis
    by (simp add: be_to_host_64_def byte_swap_def lo hi htonl_def ucast_mem_load or.commute)
qed

lemma ntohs_byte_swap: "ntohs w = byte_swap 2 w"
  by (simp add: ntohs_def byte_swap_def)

lemma ntohl_byte_swap: "ntohl w = byte_swap 4 w"
  by (simp add: ntohl_def byte_swap_def)

lemma htons_byte_swap: "htons w = byte_swap 2 w"
  by (simp add: htons_def byte_swap_def)

lemma htonl_byte_swap: "htonl w = byte_swap 4 w"
  by (simp add: htonl_def byte_swap_def)

lemma host_to_be_64_byte_swap: "host_to_be_64 w = byte_swap 8 w"
  by (simp add: host_to_be_64_def be_to_host_64_byte_swap)

lemmas byte_swaps =
  ntohs_byte_swap ntohl_byte_swap htons_byte_swap htonl_byte_swap
  be_to_host_64_byte_swap host_to_be_64_byte_swap

text \<open>
  The 64-bit conversion, written in the source with two 32-bit conversions, shifts of a
  signed value and casts, is the reversal of the eight bytes of its argument, and converting
  twice gives the argument back (so \<^verbatim>\<open>host_to_be_64\<close> may be defined by \<^verbatim>\<open>be_to_host_64\<close>).
\<close>

theorem be_to_host_64_correct:
  "be_to_host_64 w = byte_swap 8 w \<and> be_to_host_64 (host_to_be_64 w) = w"
  by (simp add: byte_swaps byte_swap_involutive)

end
