(* ===== verification/Wire_Stream.thy ===== *)
theory Wire_Stream
  imports Kafka_Prelude
begin

text \<open>
  The two uses the library makes of \<^verbatim>\<open>std::stringstream\<close>. An output stream is the list of
  the bytes written so far. An input stream is the buffer, the get position and the fail
  state: \<^verbatim>\<open>read\<close> past the end stores the bytes there are and fails, and a failed stream
  stores nothing (every failing operation used here sets \<^verbatim>\<open>failbit\<close>, so one flag is enough).
  The loops of the readers over a resized vector are here too, with the exception of
  \<^verbatim>\<open>std::vector::resize\<close> and the early \<^verbatim>\<open>return\<close> of the response readers as values.
  The locales state what a writer, a writer with an announced size and a writer/reader pair
  promise; the list versions are proved once inside them.
\<close>

section \<open>Output streams\<close>

definition os_write :: "Byte list \<Rightarrow> Byte list \<Rightarrow> Byte list" where
  "os_write bs os = os @ bs"

section \<open>Input streams\<close>

record istream =
  is_data :: "Byte list"
  is_pos :: nat
  is_fail :: bool

definition open_istream :: "Byte list \<Rightarrow> istream" where
  "open_istream bs = \<lparr>is_data = bs, is_pos = 0, is_fail = False\<rparr>"

definition is_read :: "nat \<Rightarrow> istream \<Rightarrow> Byte list \<times> istream" where
  "is_read n is =
     (if is_fail is then ([], is)
      else let avail = drop (is_pos is) (is_data is) in
        if n \<le> length avail
        then (take n avail, is\<lparr>is_pos := is_pos is + n\<rparr>)
        else (avail, is\<lparr>is_pos := length (is_data is), is_fail := True\<rparr>))"

definition is_seek_cur :: "int \<Rightarrow> istream \<Rightarrow> istream" where
  "is_seek_cur off is =
     (if is_fail is then is
      else let p = int (is_pos is) + off in
        if 0 \<le> p \<and> p \<le> int (length (is_data is))
        then is\<lparr>is_pos := nat p\<rparr>
        else is\<lparr>is_fail := True\<rparr>)"

text \<open>The bytes read are stored over a zeroed buffer of the requested length.\<close>

definition fill :: "nat \<Rightarrow> Byte list \<Rightarrow> Byte list" where
  "fill n bs = bs @ replicate (n - length bs) 0"

definition remaining :: "istream \<Rightarrow> Byte list" where
  "remaining is = drop (is_pos is) (is_data is)"

definition is_advance :: "nat \<Rightarrow> istream \<Rightarrow> istream" where
  "is_advance n is = is\<lparr>is_pos := is_pos is + n\<rparr>"

lemma remaining_open [simp]: "remaining (open_istream bs) = bs"
  by (simp add: remaining_def open_istream_def)

lemma is_fail_open [simp]: "\<not> is_fail (open_istream bs)"
  by (simp add: open_istream_def)

lemma remaining_advance [simp]: "remaining (is_advance n is) = drop n (remaining is)"
  by (simp add: remaining_def is_advance_def add.commute)

lemma is_fail_advance [simp]: "is_fail (is_advance n is) = is_fail is"
  by (simp add: is_advance_def)

lemma is_data_advance [simp]: "is_data (is_advance n is) = is_data is"
  by (simp add: is_advance_def)

lemma is_advance_0 [simp]: "is_advance 0 is = is"
  by (simp add: is_advance_def)

lemma is_advance_advance [simp]: "is_advance m (is_advance n is) = is_advance (n + m) is"
  by (simp add: is_advance_def)

lemma fill_full [simp]: "length bs = n \<Longrightarrow> fill n bs = bs"
  by (simp add: fill_def)

lemma length_fill [simp]: "length bs \<le> n \<Longrightarrow> length (fill n bs) = n"
  by (simp add: fill_def)

lemma is_read_ok:
  "\<not> is_fail is \<Longrightarrow> n \<le> length (remaining is) \<Longrightarrow>
   is_read n is = (take n (remaining is), is_advance n is)"
  by (simp add: is_read_def remaining_def is_advance_def Let_def)

lemma is_read_prefix:
  "\<not> is_fail is \<Longrightarrow> prefix bs (remaining is) \<Longrightarrow>
   is_read (length bs) is = (bs, is_advance (length bs) is)"
  by (auto simp: is_read_ok prefix_def)

lemma is_read_failed: "is_fail is \<Longrightarrow> is_read n is = ([], is)"
  by (simp add: is_read_def)

lemma is_read_short:
  "\<not> is_fail is \<Longrightarrow> length (remaining is) < n \<Longrightarrow>
   is_read n is = (remaining is, is\<lparr>is_pos := length (is_data is), is_fail := True\<rparr>)"
  by (simp add: is_read_def remaining_def Let_def)

lemma length_is_read: "length (fst (is_read n is)) \<le> n"
  by (simp add: is_read_def Let_def)

lemma is_data_read [simp]: "is_data (snd (is_read n is)) = is_data is"
  by (simp add: is_read_def Let_def)

section \<open>Progress of a reader\<close>

text \<open>
  What every reader does to its stream: the buffer stays, a failed stream stays as it is, and
  a stream that has not failed moves forward by at least \<open>k\<close> bytes inside the buffer.
\<close>

definition forward :: "nat \<Rightarrow> istream \<Rightarrow> istream \<Rightarrow> bool" where
  "forward k is is' \<longleftrightarrow>
     is_data is' = is_data is \<and>
     (is_fail is \<longrightarrow> is' = is) \<and>
     (\<not> is_fail is' \<longrightarrow> is_pos is + k \<le> is_pos is' \<and>
        (is_pos is' = is_pos is \<or> is_pos is' \<le> length (is_data is)))"

lemma forward_refl [simp, intro]: "forward 0 is is"
  by (simp add: forward_def)

lemma forward_trans: "forward k is is' \<Longrightarrow> forward l is' is'' \<Longrightarrow> forward (k + l) is is''"
  by (auto simp: forward_def)

lemma forward_mono: "forward k is is' \<Longrightarrow> l \<le> k \<Longrightarrow> forward l is is'"
  by (auto simp: forward_def)

lemma forward_is_read: "forward n is (snd (is_read n is))"
  by (auto simp: forward_def is_read_def Let_def)

section \<open>Exceptions and loops of the readers\<close>

datatype cpp_exn = Length_error | Invalid_argument | Out_of_range

definition vector_resize :: "Int32 \<Rightarrow> cpp_exn + nat" where
  "vector_resize n = (if sint n < 0 then Inl Length_error else Inr (nat (sint n)))"

fun read_n :: "(istream \<Rightarrow> 'a \<times> istream) \<Rightarrow> nat \<Rightarrow> istream \<Rightarrow> 'a list \<times> istream" where
  "read_n rd 0 is = ([], is)"
| "read_n rd (Suc n) is =
     (let (x, is1) = rd is; (xs, is2) = read_n rd n is1 in (x # xs, is2))"

type_synonym ('a, 'e) elem_reader = "istream \<Rightarrow> cpp_exn + ('a \<times> 'e option \<times> istream)"

fun foreach_resized ::
  "'a \<Rightarrow> ('a, 'e) elem_reader \<Rightarrow> nat \<Rightarrow> ('a list, 'e) elem_reader" where
  "foreach_resized dflt rd 0 is = Inr ([], None, is)"
| "foreach_resized dflt rd (Suc n) is =
     (case rd is of
        Inl e \<Rightarrow> Inl e
      | Inr (x, Some ec, is1) \<Rightarrow> Inr (x # replicate n dflt, Some ec, is1)
      | Inr (x, None, is1) \<Rightarrow>
          (case foreach_resized dflt rd n is1 of
             Inl e \<Rightarrow> Inl e
           | Inr (xs, ec, is2) \<Rightarrow> Inr (x # xs, ec, is2)))"

section \<open>Interfaces\<close>

locale appender =
  fixes wr :: "'a \<Rightarrow> Byte list \<Rightarrow> Byte list"
  assumes wr_append: "wr x os = os @ wr x []"
begin

lemma fold_append: "fold wr xs os = os @ fold wr xs []"
proof (induction xs arbitrary: os)
  case (Cons x xs)
  have "fold wr xs (wr x os) = (os @ wr x []) @ fold wr xs []"
    using Cons.IH [of "wr x os"] by (simp add: wr_append [of x os])
  also have "\<dots> = os @ fold wr xs (wr x [])"
    using Cons.IH [of "wr x []"] by simp
  finally show ?case by simp
qed simp

lemma fold_Cons: "fold wr xs (wr x []) = wr x [] @ fold wr xs []"
  by (rule fold_append)

lemma fold_concat: "fold wr xs [] = concat (map (\<lambda>x. wr x []) xs)"
proof (induction xs)
  case (Cons x xs)
  then show ?case by (simp add: fold_Cons)
qed simp

lemma length_fold_fixed:
  "(\<And>x. length (wr x []) = k) \<Longrightarrow> length (fold wr xs []) = length xs * k"
  by (induction xs) (simp_all add: fold_Cons)

end

locale sized_appender = appender wr
  for wr :: "'a \<Rightarrow> Byte list \<Rightarrow> Byte list" +
  fixes sz :: "'a \<Rightarrow> Int32"
  assumes sz_length: "sz x = of_nat (length (wr x []))"
begin

lemma fold_size: "fold (\<lambda>x n. n + sz x) xs n = n + of_nat (length (fold wr xs []))"
proof (induction xs arbitrary: n)
  case (Cons x xs)
  then show ?case by (simp add: fold_Cons sz_length algebra_simps)
qed simp

end

locale codec = appender wr
  for wr :: "'a \<Rightarrow> Byte list \<Rightarrow> Byte list" +
  fixes rd :: "istream \<Rightarrow> 'a \<times> istream" and ok :: "'a \<Rightarrow> bool"
  assumes rd_wr: "ok x \<Longrightarrow> \<not> is_fail is \<Longrightarrow> prefix (wr x []) (remaining is) \<Longrightarrow>
    rd is = (x, is_advance (length (wr x [])) is)"
begin

lemma rd_front:
  "ok x \<Longrightarrow> \<not> is_fail is \<Longrightarrow> remaining is = wr x [] @ rest \<Longrightarrow>
   rd is = (x, is_advance (length (wr x [])) is)"
  by (rule rd_wr) auto

lemma read_n_front:
  "list_all ok xs \<Longrightarrow> \<not> is_fail is \<Longrightarrow> remaining is = fold wr xs [] @ rest \<Longrightarrow>
   read_n rd (length xs) is = (xs, is_advance (length (fold wr xs [])) is)"
proof (induction xs arbitrary: "is")
  case (Cons x xs)
  have step: "rd is = (x, is_advance (length (wr x [])) is)"
    using Cons.prems by (intro rd_front [where rest = "fold wr xs [] @ rest"]) (auto simp: fold_Cons)
  have "read_n rd (length xs) (is_advance (length (wr x [])) is) =
      (xs, is_advance (length (fold wr xs [])) (is_advance (length (wr x [])) is))"
    using Cons.prems by (intro Cons.IH) (auto simp: fold_Cons)
  then show ?case by (simp add: step fold_Cons)
qed simp

end

end
