(* ===== verification/Wire_Primitives.thy ===== *)
theory Wire_Primitives
  imports Endian Wire_Stream
begin

text \<open>
  The primitive writers of \<^verbatim>\<open>detail/impl/request_write.h\<close> (\<^verbatim>\<open>WriteInt8\<close> .. \<^verbatim>\<open>WriteBytes\<close>
  and the wire sizes) and the primitive readers of \<^verbatim>\<open>detail/impl/response_read.h\<close>
  (\<^verbatim>\<open>ReadInt8\<close> .. \<^verbatim>\<open>ReadBytes\<close>), and the interpretations of the writer/reader interfaces on
  them: what is written is read back, on every branch of the readers.
\<close>

section \<open>Writers\<close>

definition WriteInt8 :: "Int8 \<Rightarrow> Byte list \<Rightarrow> Byte list" where
  "WriteInt8 value os = os_write (mem_store 1 value) os"

definition WriteInt16 :: "Int16 \<Rightarrow> Byte list \<Rightarrow> Byte list" where
  "WriteInt16 value os = os_write (mem_store 2 (htons value)) os"

definition WriteInt32 :: "Int32 \<Rightarrow> Byte list \<Rightarrow> Byte list" where
  "WriteInt32 value os = os_write (mem_store 4 (htonl value)) os"

definition WriteInt64 :: "Int64 \<Rightarrow> Byte list \<Rightarrow> Byte list" where
  "WriteInt64 value os = os_write (mem_store 8 (host_to_be_64 value)) os"

definition WriteString :: "String \<Rightarrow> Byte list \<Rightarrow> Byte list" where
  "WriteString value os = os_write value (WriteInt16 (of_nat (length value)) os)"

definition WriteBytes :: "Bytes \<Rightarrow> Byte list \<Rightarrow> Byte list" where
  "WriteBytes value os =
     (case value of
        None \<Rightarrow> WriteInt32 (- 1) os
      | Some bs \<Rightarrow> os_write bs (WriteInt32 (of_nat (length bs)) os))"

definition StringWireSize :: "String \<Rightarrow> Int32" where
  "StringWireSize s = of_nat (2 + length s)"

definition BytesWireSize :: "Bytes \<Rightarrow> Int32" where
  "BytesWireSize bytes = (case bytes of None \<Rightarrow> 4 | Some bs \<Rightarrow> 4 + of_nat (length bs))"

section \<open>Readers\<close>

definition ReadInt8 :: "istream \<Rightarrow> Int8 \<times> istream" where
  "ReadInt8 is = (let (bs, is1) = is_read 1 is in (mem_load (fill 1 bs), is1))"

definition ReadInt16 :: "istream \<Rightarrow> Int16 \<times> istream" where
  "ReadInt16 is = (let (bs, is1) = is_read 2 is in (ntohs (mem_load (fill 2 bs)), is1))"

definition ReadInt32 :: "istream \<Rightarrow> Int32 \<times> istream" where
  "ReadInt32 is = (let (bs, is1) = is_read 4 is in (ntohl (mem_load (fill 4 bs)), is1))"

definition ReadInt64 :: "istream \<Rightarrow> Int64 \<times> istream" where
  "ReadInt64 is = (let (bs, is1) = is_read 8 is in (be_to_host_64 (mem_load (fill 8 bs)), is1))"

definition ReadString :: "istream \<Rightarrow> String \<times> istream" where
  "ReadString is =
     (let (len, is1) = ReadInt16 is in
      if 0 < sint len
      then let n = nat (sint len); (bs, is2) = is_read n is1 in (fill n bs, is2)
      else ([], is1))"

definition ReadBytes :: "Bytes \<Rightarrow> istream \<Rightarrow> Bytes \<times> istream" where
  "ReadBytes bytes is =
     (let (len, is1) = ReadInt32 is in
      if 0 < sint len
      then let n = nat (sint len); (bs, is2) = is_read n is1 in (Some (fill n bs), is2)
      else (bytes, is1))"

section \<open>Written bytes\<close>

text \<open>The reference encoding of an integer: its bytes, most significant first.\<close>

definition be_bytes :: "nat \<Rightarrow> 'a::len word \<Rightarrow> Byte list" where
  "be_bytes n w = rev (mem_store n w)"

lemma length_be_bytes [simp]: "length (be_bytes n w) = n"
  by (simp add: be_bytes_def)

lemma WriteInt8_eq [wire_simps]: "WriteInt8 v os = os @ be_bytes 1 v"
  by (simp add: WriteInt8_def os_write_def be_bytes_def)

lemma WriteInt16_eq [wire_simps]: "WriteInt16 v os = os @ be_bytes 2 v"
  by (simp add: WriteInt16_def os_write_def be_bytes_def byte_swaps mem_store_byte_swap)

lemma WriteInt32_eq [wire_simps]: "WriteInt32 v os = os @ be_bytes 4 v"
  by (simp add: WriteInt32_def os_write_def be_bytes_def byte_swaps mem_store_byte_swap)

lemma WriteInt64_eq [wire_simps]: "WriteInt64 v os = os @ be_bytes 8 v"
  by (simp add: WriteInt64_def os_write_def be_bytes_def byte_swaps mem_store_byte_swap)

lemma WriteString_eq [wire_simps]:
  "WriteString s os = os @ be_bytes 2 (of_nat (length s) :: Int16) @ s"
  by (simp add: WriteString_def os_write_def wire_simps)

lemma WriteBytes_eq [wire_simps]:
  "WriteBytes b os = os @ (case b of None \<Rightarrow> be_bytes 4 (- 1 :: Int32)
     | Some bs \<Rightarrow> be_bytes 4 (of_nat (length bs) :: Int32) @ bs)"
  by (simp add: WriteBytes_def os_write_def wire_simps split: option.splits)

section \<open>Reading back\<close>

lemma byte_swap_be_bytes:
  "8 * n = LENGTH('a::len) \<Longrightarrow> byte_swap n (mem_load (be_bytes n (w :: 'a word))) = w"
  using byte_swap_involutive [of n w] by (simp add: be_bytes_def byte_swap_def)

lemma be_bytes_inj: "8 * n = LENGTH('a::len) \<Longrightarrow> be_bytes n (v :: 'a word) = be_bytes n w \<longleftrightarrow> v = w"
  by (metis byte_swap_be_bytes)

lemma is_read_fill:
  "\<not> is_fail is \<Longrightarrow> prefix bs (remaining is) \<Longrightarrow> length bs = n \<Longrightarrow>
   is_read n is = (bs, is_advance n is)"
  using is_read_prefix [of "is" bs] by simp

interpretation int8: codec WriteInt8 ReadInt8 "\<lambda>_. True"
proof
  fix x :: Int8 and "is"
  assume "\<not> is_fail is" and "prefix (WriteInt8 x []) (remaining is)"
  then have "is_read 1 is = (be_bytes 1 x, is_advance 1 is)"
    by (intro is_read_fill) (simp_all add: wire_simps)
  moreover have "mem_load (be_bytes 1 x) = x"
    by (simp add: be_bytes_def mem_load_store_full)
  ultimately show "ReadInt8 is = (x, is_advance (length (WriteInt8 x [])) is)"
    by (simp add: ReadInt8_def wire_simps)
qed (simp add: wire_simps)

interpretation int16: codec WriteInt16 ReadInt16 "\<lambda>_. True"
proof
  fix x :: Int16 and "is"
  assume "\<not> is_fail is" and "prefix (WriteInt16 x []) (remaining is)"
  then have "is_read 2 is = (be_bytes 2 x, is_advance 2 is)"
    by (intro is_read_fill) (simp_all add: wire_simps)
  then show "ReadInt16 is = (x, is_advance (length (WriteInt16 x [])) is)"
    by (simp add: ReadInt16_def wire_simps byte_swaps byte_swap_be_bytes)
qed (simp add: wire_simps)

interpretation int32: codec WriteInt32 ReadInt32 "\<lambda>_. True"
proof
  fix x :: Int32 and "is"
  assume "\<not> is_fail is" and "prefix (WriteInt32 x []) (remaining is)"
  then have "is_read 4 is = (be_bytes 4 x, is_advance 4 is)"
    by (intro is_read_fill) (simp_all add: wire_simps)
  then show "ReadInt32 is = (x, is_advance (length (WriteInt32 x [])) is)"
    by (simp add: ReadInt32_def wire_simps byte_swaps byte_swap_be_bytes)
qed (simp add: wire_simps)

interpretation int64: codec WriteInt64 ReadInt64 "\<lambda>_. True"
proof
  fix x :: Int64 and "is"
  assume "\<not> is_fail is" and "prefix (WriteInt64 x []) (remaining is)"
  then have "is_read 8 is = (be_bytes 8 x, is_advance 8 is)"
    by (intro is_read_fill) (simp_all add: wire_simps)
  then show "ReadInt64 is = (x, is_advance (length (WriteInt64 x [])) is)"
    by (simp add: ReadInt64_def wire_simps byte_swaps byte_swap_be_bytes)
qed (simp add: wire_simps)

text \<open>A string survives the wire when its length fits the 16-bit signed length field.\<close>

definition short_string :: "String \<Rightarrow> bool" where
  "short_string s \<longleftrightarrow> length s < 2 ^ 15"

lemma ReadInt16_front:
  "\<not> is_fail is \<Longrightarrow> remaining is = be_bytes 2 (x :: Int16) @ rest \<Longrightarrow>
   ReadInt16 is = (x, is_advance 2 is)"
  using int16.rd_front [where x = x and rest = rest] by (simp add: wire_simps)

lemma ReadInt32_front:
  "\<not> is_fail is \<Longrightarrow> remaining is = be_bytes 4 (x :: Int32) @ rest \<Longrightarrow>
   ReadInt32 is = (x, is_advance 4 is)"
  using int32.rd_front [where x = x and rest = rest] by (simp add: wire_simps)

lemma ReadInt64_front:
  "\<not> is_fail is \<Longrightarrow> remaining is = be_bytes 8 (x :: Int64) @ rest \<Longrightarrow>
   ReadInt64 is = (x, is_advance 8 is)"
  using int64.rd_front [where x = x and rest = rest] by (simp add: wire_simps)

lemma ReadInt8_front:
  "\<not> is_fail is \<Longrightarrow> remaining is = be_bytes 1 (x :: Int8) @ rest \<Longrightarrow>
   ReadInt8 is = (x, is_advance 1 is)"
  using int8.rd_front [where x = x and rest = rest] by (simp add: wire_simps)

interpretation wstring: codec WriteString ReadString short_string
proof
  fix s :: String and "is"
  assume s: "short_string s" and f: "\<not> is_fail is"
    and p: "prefix (WriteString s []) (remaining is)"
  from p obtain rest where r: "remaining is = be_bytes 2 (of_nat (length s) :: Int16) @ s @ rest"
    by (auto simp: wire_simps prefix_def)
  have len: "ReadInt16 is = (of_nat (length s), is_advance 2 is)"
    using f r by (rule ReadInt16_front)
  have sint: "sint (of_nat (length s) :: Int16) = int (length s)"
    using s by (intro sint_of_nat_less) (simp add: short_string_def)
  have "is_read (length s) (is_advance 2 is) = (s, is_advance (length s) (is_advance 2 is))"
    using f r by (intro is_read_prefix) auto
  then show "ReadString is = (s, is_advance (length (WriteString s [])) is)"
    by (cases "s = []") (simp_all add: ReadString_def len sint wire_simps numeral_2_eq_2)
qed (simp add: wire_simps)

lemma ReadString_front:
  "short_string s \<Longrightarrow> \<not> is_fail is \<Longrightarrow>
   remaining is = be_bytes 2 (of_nat (length s) :: Int16) @ s @ rest \<Longrightarrow>
   ReadString is = (s, is_advance (2 + length s) is)"
  using wstring.rd_front [of s "is" rest] by (simp add: wire_simps)

text \<open>
  A byte array survives when it is null or not empty and fits the 32-bit signed length; an
  empty array is read back as null, since the reader allocates only for a positive length.
\<close>

definition plain_bytes :: "Bytes \<Rightarrow> bool" where
  "plain_bytes b \<longleftrightarrow> (case b of None \<Rightarrow> True | Some bs \<Rightarrow> bs \<noteq> [] \<and> length bs < 2 ^ 31)"

definition read_back :: "Bytes \<Rightarrow> Bytes" where
  "read_back b = (case b of None \<Rightarrow> None | Some bs \<Rightarrow> if bs = [] then None else Some bs)"

definition small_bytes :: "Bytes \<Rightarrow> bool" where
  "small_bytes b \<longleftrightarrow> (case b of None \<Rightarrow> True | Some bs \<Rightarrow> length bs < 2 ^ 31)"

lemma ReadBytes_front:
  assumes s: "small_bytes b" and f: "\<not> is_fail is" and r: "remaining is = WriteBytes b [] @ rest"
  shows "ReadBytes None is = (read_back b, is_advance (length (WriteBytes b [])) is)"
proof (cases b)
  case None
  with f r have "ReadInt32 is = (- 1, is_advance 4 is)"
    by (intro ReadInt32_front) (auto simp: wire_simps)
  with None show ?thesis by (simp add: ReadBytes_def read_back_def wire_simps)
next
  case (Some bs)
  have r': "remaining is = be_bytes 4 (of_nat (length bs) :: Int32) @ bs @ rest"
    using Some r by (simp add: wire_simps)
  have len: "ReadInt32 is = (of_nat (length bs), is_advance 4 is)"
    using f r' by (rule ReadInt32_front)
  have sint: "sint (of_nat (length bs) :: Int32) = int (length bs)"
    using s Some by (intro sint_of_nat_less) (simp add: small_bytes_def)
  have "is_read (length bs) (is_advance 4 is) = (bs, is_advance (length bs) (is_advance 4 is))"
    using f r' by (intro is_read_prefix) auto
  with Some show ?thesis
    by (auto simp: ReadBytes_def len sint wire_simps read_back_def)
qed

interpretation wbytes: codec WriteBytes "ReadBytes None" plain_bytes
proof
  fix b :: Bytes and "is"
  assume b: "plain_bytes b" and f: "\<not> is_fail is"
    and p: "prefix (WriteBytes b []) (remaining is)"
  from p obtain rest where "remaining is = WriteBytes b [] @ rest"
    by (auto simp: prefix_def)
  moreover have "small_bytes b" and "read_back b = b"
    using b by (auto simp: plain_bytes_def small_bytes_def read_back_def split: option.splits)
  ultimately show "ReadBytes None is = (b, is_advance (length (WriteBytes b [])) is)"
    using f ReadBytes_front [of b "is" rest] by simp
qed (simp add: wire_simps)

interpretation string_size: sized_appender WriteString StringWireSize
  by unfold_locales (simp_all add: wire_simps StringWireSize_def)

interpretation bytes_size: sized_appender WriteBytes BytesWireSize
  by unfold_locales (simp_all add: wire_simps BytesWireSize_def split: option.splits)

section \<open>Progress of the primitive readers\<close>

lemma forward_ReadInt8: "forward 1 is (snd (ReadInt8 is))"
  using forward_is_read [of 1 "is"] by (simp add: ReadInt8_def case_prod_beta)

lemma forward_ReadInt16: "forward 2 is (snd (ReadInt16 is))"
  using forward_is_read [of 2 "is"] by (simp add: ReadInt16_def case_prod_beta)

lemma forward_ReadInt32: "forward 4 is (snd (ReadInt32 is))"
  using forward_is_read [of 4 "is"] by (simp add: ReadInt32_def case_prod_beta)

lemma forward_ReadInt64: "forward 8 is (snd (ReadInt64 is))"
  using forward_is_read [of 8 "is"] by (simp add: ReadInt64_def case_prod_beta)

lemma forward_ReadBytes: "forward 4 is (snd (ReadBytes b is))"
proof -
  have "forward (4 + n) is (snd (is_read n (snd (ReadInt32 is))))" for n
    by (rule forward_trans [OF forward_ReadInt32 forward_is_read])
  then have "forward 4 is (snd (is_read n (snd (ReadInt32 is))))" for n
    by (rule forward_mono) simp
  with forward_ReadInt32 [of "is"] show ?thesis
    by (simp add: ReadBytes_def Let_def case_prod_beta)
qed

text \<open>A failed stream gives zeros.\<close>

lemma mem_load_zeros [simp]: "mem_load (replicate n 0) = 0"
  by (induction n) simp_all

lemma mem_store_zero: "mem_store n (0 :: 'a::len word) = replicate n 0"
  by (induction n) simp_all

lemma byte_swap_zero [simp]: "byte_swap n 0 = 0"
  by (simp add: byte_swap_def mem_store_zero)

lemma fill_Nil [simp]: "fill n [] = replicate n 0"
  by (simp add: fill_def)

lemma failed_reads:
  assumes "is_fail is"
  shows "ReadInt8 is = (0, is)" "ReadInt16 is = (0, is)" "ReadInt32 is = (0, is)"
    "ReadInt64 is = (0, is)" "ReadString is = ([], is)" "ReadBytes b is = (b, is)"
  using assms
  by (simp_all only: ReadInt8_def ReadInt16_def ReadInt32_def ReadInt64_def ReadString_def
      ReadBytes_def is_read_failed fill_Nil byte_swaps mem_load_zeros byte_swap_zero Let_def prod.case) simp_all

end
