(* ===== verification/Messages.thy ===== *)
theory Messages
  imports Wire_Primitives
begin

text \<open>
  \<^verbatim>\<open>message.h\<close>: the \<^verbatim>\<open>Message\<close> class, \<^verbatim>\<open>MessageAndOffset\<close> derived from it and
  \<^verbatim>\<open>SetCompression\<close>; the writers \<^verbatim>\<open>WriteMessage\<close> and \<^verbatim>\<open>WriteMessageSet\<close> with their wire sizes
  and the readers \<^verbatim>\<open>ReadMessage\<close> and \<^verbatim>\<open>ReadMessageSet\<close>, whose loop is shown to end on every
  input. \<^verbatim>\<open>boost::crc_32_type\<close> is the parameter \<open>crc32\<close> of the writers.
\<close>

section \<open>The classes\<close>

record Message =
  msg_attributes :: Int8
  msg_key :: Bytes
  msg_value :: Bytes

record MessageAndOffset = Message +
  msg_offset :: Int64

type_synonym MessageSet = "MessageAndOffset list"

definition Message_new :: Message where
  "Message_new = \<lparr>msg_attributes = 0, msg_key = None, msg_value = None\<rparr>"

text \<open>The copying constructor; the two cases differ in the sharing of the arrays only.\<close>

definition Message_copy :: "'a Message_scheme \<Rightarrow> bool \<Rightarrow> Message" where
  "Message_copy orig deep =
     (if deep
      then let m = \<lparr>msg_attributes = msg_attributes orig, msg_key = None, msg_value = None\<rparr>;
               m = (case msg_key orig of None \<Rightarrow> m | Some k \<Rightarrow> m\<lparr>msg_key := Some k\<rparr>)
           in (case msg_value orig of None \<Rightarrow> m | Some v \<Rightarrow> m\<lparr>msg_value := Some v\<rparr>)
      else \<lparr>msg_attributes = msg_attributes orig, msg_key = msg_key orig, msg_value = msg_value orig\<rparr>)"

definition Message_assign :: "'a Message_scheme \<Rightarrow> 'b Message_scheme \<Rightarrow> 'a Message_scheme" where
  "Message_assign this rhs =
     this\<lparr>msg_attributes := msg_attributes rhs, msg_key := msg_key rhs, msg_value := msg_value rhs\<rparr>"

definition magic_byte :: "'a Message_scheme \<Rightarrow> Int8" where
  "magic_byte m = 0"

datatype Compression = kCompressionNone | kCompressionGZIP | kCompressionSnappy

fun compression_value :: "Compression \<Rightarrow> Int8" where
  "compression_value kCompressionNone = 0"
| "compression_value kCompressionGZIP = 1"
| "compression_value kCompressionSnappy = 2"

definition SetCompression :: "Compression \<Rightarrow> 'a Message_scheme \<Rightarrow> 'a Message_scheme" where
  "SetCompression compression_type m =
     (let m = m\<lparr>msg_attributes := msg_attributes m AND 0xfc\<rparr> in
      case compression_type of
        kCompressionNone \<Rightarrow> m\<lparr>msg_attributes := msg_attributes m OR (compression_value compression_type AND 2)\<rparr>
      | kCompressionGZIP \<Rightarrow> m\<lparr>msg_attributes := msg_attributes m OR (compression_value compression_type AND 2)\<rparr>
      | kCompressionSnappy \<Rightarrow> m\<lparr>msg_attributes := msg_attributes m OR (compression_value compression_type AND 2)\<rparr>)"

definition MessageAndOffset_new :: MessageAndOffset where
  "MessageAndOffset_new = \<lparr>msg_attributes = 0, msg_key = None, msg_value = None, msg_offset = 0\<rparr>"

definition MessageAndOffset_of :: "'a Message_scheme \<Rightarrow> Int64 \<Rightarrow> MessageAndOffset" where
  "MessageAndOffset_of m off =
     (let c = Message_copy m False in
      \<lparr>msg_attributes = msg_attributes c, msg_key = msg_key c, msg_value = msg_value c, msg_offset = off\<rparr>)"

definition set_offset :: "Int64 \<Rightarrow> MessageAndOffset \<Rightarrow> MessageAndOffset" where
  "set_offset off m = m\<lparr>msg_offset := off\<rparr>"

section \<open>Writers\<close>

definition MessageWireSize :: "'a Message_scheme \<Rightarrow> Int32" where
  "MessageWireSize m = 4 + 1 + 1 + BytesWireSize (msg_key m) + BytesWireSize (msg_value m)"

definition MessageSetWireSize :: "MessageSet \<Rightarrow> Int32" where
  "MessageSetWireSize ms = fold (\<lambda>m size. size + (8 + 4 + MessageWireSize m)) ms 0"

definition WriteMessage ::
  "(Byte list \<Rightarrow> Int32) \<Rightarrow> 'a Message_scheme \<Rightarrow> Byte list \<Rightarrow> Byte list" where
  "WriteMessage crc32 value os =
     (let intermediate_os = WriteInt8 (magic_byte value) [];
          intermediate_os = WriteInt8 (msg_attributes value) intermediate_os;
          intermediate_os = WriteBytes (msg_key value) intermediate_os;
          intermediate_os = WriteBytes (msg_value value) intermediate_os;
          crc = crc32 intermediate_os;
          os = WriteInt32 crc os
      in os_write intermediate_os os)"

definition WriteMessageSet ::
  "(Byte list \<Rightarrow> Int32) \<Rightarrow> MessageSet \<Rightarrow> Byte list \<Rightarrow> Byte list" where
  "WriteMessageSet crc32 value os =
     fold (\<lambda>m os. let os = WriteInt64 (msg_offset m) os;
                      os = WriteInt32 (MessageWireSize m) os
                  in WriteMessage crc32 m os) value os"

section \<open>Readers\<close>

definition ReadMessage :: "istream \<Rightarrow> 'a Message_scheme \<Rightarrow> 'a Message_scheme \<times> istream" where
  "ReadMessage is message =
     (let (crc, is) = ReadInt32 is;
          (magic_byte, is) = ReadInt8 is;
          (attributes, is) = ReadInt8 is;
          (k, is) = ReadBytes (msg_key message) is;
          message = message\<lparr>msg_key := k\<rparr>;
          (v, is) = ReadBytes (msg_value message) is;
          message = message\<lparr>msg_value := v\<rparr>
      in (message, is))"

lemma forward_ReadMessage: "forward 14 is (snd (ReadMessage is m))"
proof -
  define is1 where "is1 = snd (ReadInt32 is)"
  define is2 where "is2 = snd (ReadInt8 is1)"
  define is3 where "is3 = snd (ReadInt8 is2)"
  define is4 where "is4 = snd (ReadBytes (msg_key m) is3)"
  define is5 where "is5 = snd (ReadBytes (msg_value m) is4)"
  have "forward (4 + 1 + 1 + 4 + 4) is is5"
    unfolding is5_def is4_def is3_def is2_def is1_def
    by (rule forward_trans [OF forward_trans [OF forward_trans [OF forward_trans
          [OF forward_ReadInt32 forward_ReadInt8] forward_ReadInt8] forward_ReadBytes]
          forward_ReadBytes])
  moreover have "snd (ReadMessage is m) = is5"
    by (simp add: ReadMessage_def case_prod_beta is1_def is2_def is3_def is4_def is5_def)
  ultimately show ?thesis by simp
qed

lemma ReadMessage_failed: "is_fail is \<Longrightarrow> ReadMessage is m = (m, is)"
  by (simp add: ReadMessage_def failed_reads)

text \<open>
  The loop of \<^verbatim>\<open>ReadMessageSet\<close>: \<open>size\<close> and \<open>read_count\<close> are \<^verbatim>\<open>size_t\<close>, the comparison with the
  message size is made in 32 bits, and setting \<open>read_count\<close> to \<open>size\<close> ends the loop.
\<close>

function ReadMessageSet_loop ::
  "64 word \<Rightarrow> 64 word \<Rightarrow> MessageSet \<Rightarrow> istream \<Rightarrow> MessageSet \<times> istream" where
  "ReadMessageSet_loop set_size read_count message_set is =
     (if read_count < set_size
      then let (off, is1) = ReadInt64 is;
               message = set_offset off MessageAndOffset_new;
               (message_size, is2) = ReadInt32 is1
           in if sint (ucast (set_size - read_count) :: Int32) < sint message_size
              then (message_set, is_seek_cur (sint (set_size - read_count)) is2)
              else let (message, is3) = ReadMessage is2 message
                   in ReadMessageSet_loop set_size (read_count + (8 + 4 + scast message_size))
                        (message_set @ [message]) is3
      else (message_set, is))"
  by pat_completeness auto

text \<open>
  A good stream moves forward by at least 26 bytes per message; on a failed one every message
  has set_size 0, and the 32-bit distance to the end shrinks by 12 until it is negative.
\<close>

definition stream_left :: "istream \<Rightarrow> nat" where
  "stream_left is = (if is_fail is then 0 else Suc (length (is_data is) - is_pos is))"

definition count_left :: "Int32 \<Rightarrow> nat" where
  "count_left d = (if sint d < 0 then 0 else Suc (unat d))"

lemma stream_left_forward:
  "forward k is is' \<Longrightarrow> 0 < k \<Longrightarrow> \<not> is_fail is \<Longrightarrow> stream_left is' < stream_left is"
  by (auto simp: forward_def stream_left_def)

lemma count_left_step:
  assumes "\<not> sint d < 0"
  shows "count_left (d - 12) < count_left d"
proof (cases "12 \<le> unat d")
  case True
  then have "unat (d - 12) = unat d - 12"
    by (subst unat_sub) (simp_all add: word_le_nat_alt)
  with True assms show ?thesis by (simp add: count_left_def)
next
  case False
  have "uint d = int (unat d)" by simp
  with False have u: "uint d < 12" by linarith
  have "0 \<le> uint d" by simp
  have "sint (d - 12) = sint (word_of_int (uint d - 12) :: Int32)"
    by simp
  also have "\<dots> = signed_take_bit 31 (uint d - 12)"
    by (simp only: signed_of_int) simp
  also have "\<dots> = uint d - 12"
    using u \<open>0 \<le> uint d\<close> by (intro signed_take_bit_int_eq_self) simp_all
  finally have "sint (d - 12) < 0" using u by linarith
  with assms show ?thesis by (simp add: count_left_def)
qed

termination ReadMessageSet_loop
proof (relation "measures [\<lambda>(set_size, rc, ms, is). stream_left is,
    \<lambda>(set_size, rc, ms, is). count_left (ucast (set_size - rc))]", goal_cases)
  case 1
  then show ?case by simp
next
  case (2 set_size rc ms "is" x off is1 message y msz is2 z m is3)
  then have "is1 = snd (ReadInt64 is)" "is2 = snd (ReadInt32 is1)"
      "is3 = snd (ReadMessage is2 message)"
    by (metis snd_conv)+
  then have f: "forward (8 + 4 + 14) is is3"
    using forward_trans [OF forward_trans [OF forward_ReadInt64 forward_ReadInt32]
        forward_ReadMessage] by simp
  show ?case
  proof (cases "is_fail is")
    case False
    with f show ?thesis by (simp add: stream_left_forward)
  next
    case True
    with 2 have eq: "msz = 0" "is3 = is"
      by (auto simp: failed_reads ReadMessage_failed)
    have "ucast (set_size - (rc + 12)) = (ucast (set_size - rc) - 12 :: Int32)"
      by (simp add: ucast_down_minus ucast_down_add)
    with 2 eq show ?thesis by (simp add: count_left_step)
  qed
qed

declare ReadMessageSet_loop.simps [simp del]

definition ReadMessageSet :: "istream \<Rightarrow> MessageSet \<Rightarrow> 64 word \<Rightarrow> MessageSet \<times> istream" where
  "ReadMessageSet is message_set set_size = ReadMessageSet_loop set_size 0 message_set is"

section \<open>Announced sizes\<close>

lemma WriteMessage_eq [wire_simps]:
  "WriteMessage crc32 m os = os @
     (let body = be_bytes 1 (magic_byte m) @ be_bytes 1 (msg_attributes m) @
            WriteBytes (msg_key m) [] @ WriteBytes (msg_value m) []
      in be_bytes 4 (crc32 body) @ body)"
  by (simp add: WriteMessage_def os_write_def Let_def wire_simps)

interpretation message_size: sized_appender "WriteMessage crc32" MessageWireSize
  for crc32 :: "Byte list \<Rightarrow> Int32"
  by unfold_locales
    (simp_all add: wire_simps Let_def MessageWireSize_def BytesWireSize_def split: option.splits)

lemma MessageWireSize_length: "MessageWireSize m = of_nat (length (WriteMessage crc32 m []))"
  by (rule message_size.sz_length)

text \<open>One entry of a message set: offset, message size, message.\<close>

definition message_entry :: "(Byte list \<Rightarrow> Int32) \<Rightarrow> MessageAndOffset \<Rightarrow> Byte list \<Rightarrow> Byte list" where
  "message_entry crc32 m os =
     WriteMessage crc32 m (WriteInt32 (MessageWireSize m) (WriteInt64 (msg_offset m) os))"

lemma message_entry_eq:
  "message_entry crc32 m os =
     os @ be_bytes 8 (msg_offset m) @ be_bytes 4 (MessageWireSize m) @ WriteMessage crc32 m []"
  by (simp add: message_entry_def wire_simps)

interpretation entry_size: sized_appender "message_entry crc32" "\<lambda>m. 8 + 4 + MessageWireSize m"
  for crc32 :: "Byte list \<Rightarrow> Int32"
  by unfold_locales (simp_all add: message_entry_eq MessageWireSize_length [of _ crc32])

lemma WriteMessageSet_fold: "WriteMessageSet crc32 ms os = fold (message_entry crc32) ms os"
  by (simp add: WriteMessageSet_def message_entry_def [abs_def] Let_def)

interpretation message_set_size: sized_appender "WriteMessageSet crc32" MessageSetWireSize
  for crc32 :: "Byte list \<Rightarrow> Int32"
proof
  fix ms os
  show "WriteMessageSet crc32 ms os = os @ WriteMessageSet crc32 ms []"
    unfolding WriteMessageSet_fold by (rule entry_size.fold_append)
  show "MessageSetWireSize ms = of_nat (length (WriteMessageSet crc32 ms []))"
    unfolding MessageSetWireSize_def WriteMessageSet_fold
    using entry_size.fold_size [of ms 0 crc32] by simp
qed

section \<open>Reading back a message set\<close>

text \<open>
  What the reader keeps of a message: offset, key and value; the attributes are read and
  dropped, and an empty array becomes null.
\<close>

definition received :: "MessageAndOffset \<Rightarrow> MessageAndOffset" where
  "received m = \<lparr>msg_attributes = 0, msg_key = read_back (msg_key m),
     msg_value = read_back (msg_value m), msg_offset = msg_offset m\<rparr>"

lemma ReadMessage_front:
  assumes "small_bytes (msg_key m)" "small_bytes (msg_value m)" "\<not> is_fail is"
    and r: "remaining is = WriteMessage crc32 m [] @ rest"
    and n: "msg_key m0 = None" "msg_value m0 = None"
  shows "ReadMessage is m0 =
    (m0\<lparr>msg_key := read_back (msg_key m), msg_value := read_back (msg_value m)\<rparr>,
     is_advance (length (WriteMessage crc32 m [])) is)"
proof -
  let ?k = "WriteBytes (msg_key m) []" and ?v = "WriteBytes (msg_value m) []"
  obtain c where r': "remaining is =
      be_bytes 4 (c :: Int32) @ be_bytes 1 (magic_byte m) @ be_bytes 1 (msg_attributes m) @ ?k @ ?v @ rest"
    using r by (simp add: wire_simps Let_def)
  have "ReadInt32 is = (c, is_advance 4 is)"
    using assms(3) r' by (rule ReadInt32_front)
  moreover have "ReadInt8 (is_advance 4 is) = (magic_byte m, is_advance 5 is)"
    using ReadInt8_front [of "is_advance 4 is" "magic_byte m"] assms(3) r' by simp
  moreover have "ReadInt8 (is_advance 5 is) = (msg_attributes m, is_advance 6 is)"
    using ReadInt8_front [of "is_advance 5 is" "msg_attributes m"] assms(3) r' by simp
  moreover have "ReadBytes None (is_advance 6 is) =
      (read_back (msg_key m), is_advance (6 + length ?k) is)"
    using ReadBytes_front [of "msg_key m" "is_advance 6 is" "?v @ rest"] assms(1,3) r' by simp
  moreover have "ReadBytes None (is_advance (6 + length ?k) is) =
      (read_back (msg_value m), is_advance (6 + length ?k + length ?v) is)"
    using ReadBytes_front [of "msg_value m" "is_advance (6 + length ?k) is" rest] assms(2,3) r'
    by simp
  moreover have "length (WriteMessage crc32 m []) = 6 + length ?k + length ?v"
    by (simp add: wire_simps Let_def)
  ultimately show ?thesis using n by (simp add: ReadMessage_def)
qed

lemma small_parts:
  assumes "length (WriteMessage crc32 m []) < 2 ^ 31"
  shows "small_bytes (msg_key m)" "small_bytes (msg_value m)"
    "sint (MessageWireSize m) = int (length (WriteMessage crc32 m []))"
proof -
  show "small_bytes (msg_key m)" "small_bytes (msg_value m)"
    using assms by (auto simp: small_bytes_def wire_simps Let_def split: option.splits)
  show "sint (MessageWireSize m) = int (length (WriteMessage crc32 m []))"
    using assms by (simp only: MessageWireSize_length [of _ crc32])
      (intro sint_of_nat_less, simp)
qed

lemma of_nat_64_less:
  "b < 2 ^ 31 \<Longrightarrow> a < b \<Longrightarrow> (of_nat a :: 64 word) < of_nat b"
  by (simp add: word_less_nat_alt unat_of_nat_less)

lemma ucast_of_nat_32: "b < 2 ^ 31 \<Longrightarrow> (ucast (of_nat b :: 64 word) :: Int32) = of_nat b"
  by (simp add: unsigned_of_nat take_bit_nat_eq_self)

lemma scast_of_nat_64: "b < 2 ^ 31 \<Longrightarrow> (scast (of_nat b :: Int32) :: 64 word) = of_nat b"
  by (simp add: scast_eq sint_of_nat_less)

text \<open>The loop takes one complete message whenever at least its bytes are left in the set.\<close>

lemma ReadMessageSet_loop_step:
  assumes f: "\<not> is_fail is" and r: "remaining is = message_entry crc32 m [] @ rest"
    and n: "n = length (message_entry crc32 m [])" and b: "c + n + k < 2 ^ 31"
  shows "ReadMessageSet_loop (of_nat (c + n + k)) (of_nat c) acc is =
    ReadMessageSet_loop (of_nat (c + n + k)) (of_nat (c + n)) (acc @ [received m]) (is_advance n is)"
proof -
  let ?w = "length (WriteMessage crc32 m [])"
  have nw: "n = 12 + ?w" using n by (simp add: message_entry_eq)
  have w: "?w < 2 ^ 31" using nw b by simp
  note sp = small_parts [OF w]
  have lt: "(of_nat c :: 64 word) < of_nat (c + n + k)"
    using b nw by (intro of_nat_64_less) auto
  have d: "(of_nat (c + n + k) :: 64 word) - of_nat c = of_nat (n + k)"
    by simp
  have s: "sint (ucast (of_nat (n + k) :: 64 word) :: Int32) = int (n + k)"
    using b by (simp only: ucast_of_nat_32) (intro sint_of_nat_less, simp)
  have r8: "ReadInt64 is = (msg_offset m, is_advance 8 is)"
    using ReadInt64_front [of "is" "msg_offset m"] f r by (simp add: message_entry_eq)
  have r4: "ReadInt32 (is_advance 8 is) = (MessageWireSize m, is_advance 12 is)"
    using ReadInt32_front [of "is_advance 8 is" "MessageWireSize m"] f r
    by (simp add: message_entry_eq)
  have rm: "ReadMessage (is_advance 12 is) (set_offset (msg_offset m) MessageAndOffset_new) =
      (received m, is_advance n is)"
    using ReadMessage_front [OF sp(1,2), of "is_advance 12 is" crc32 rest
        "set_offset (msg_offset m) MessageAndOffset_new"] f r nw
    by (simp add: message_entry_eq set_offset_def MessageAndOffset_new_def received_def)
  have sc: "(of_nat c :: 64 word) + (8 + 4 + scast (MessageWireSize m)) = of_nat (c + n)"
    using w nw by (simp only: MessageWireSize_length [of _ crc32] scast_of_nat_64) simp
  show ?thesis
    by (subst ReadMessageSet_loop.simps)
      (simp only: lt d s sp(3) r8 r4 rm sc Let_def prod.case, use nw in simp)
qed

lemma ReadMessageSet_loop_complete:
  assumes "\<not> is_fail is" and "remaining is = fold (message_entry crc32) ms [] @ rest"
    and "n = length (fold (message_entry crc32) ms [])" and "c + n + k < 2 ^ 31"
  shows "ReadMessageSet_loop (of_nat (c + n + k)) (of_nat c) acc is =
    ReadMessageSet_loop (of_nat (c + n + k)) (of_nat (c + n)) (acc @ map received ms)
      (is_advance n is)"
  using assms
proof (induction ms arbitrary: c n acc "is")
  case (Cons m ms)
  let ?a = "length (message_entry crc32 m [])" and ?b = "length (fold (message_entry crc32) ms [])"
  have n: "n = ?a + ?b" using Cons.prems(3) by (simp add: entry_size.fold_Cons)
  have r: "remaining is = message_entry crc32 m [] @ fold (message_entry crc32) ms [] @ rest"
    using Cons.prems(2) by (simp add: entry_size.fold_Cons)
  have "ReadMessageSet_loop (of_nat (c + ?a + (?b + k))) (of_nat c) acc is =
      ReadMessageSet_loop (of_nat (c + ?a + (?b + k))) (of_nat (c + ?a)) (acc @ [received m])
        (is_advance ?a is)"
    using Cons.prems(1,4) n by (intro ReadMessageSet_loop_step [OF _ r]) simp_all
  moreover have "ReadMessageSet_loop (of_nat (c + ?a + ?b + k)) (of_nat (c + ?a))
        (acc @ [received m]) (is_advance ?a is) =
      ReadMessageSet_loop (of_nat (c + ?a + ?b + k)) (of_nat (c + ?a + ?b))
        ((acc @ [received m]) @ map received ms) (is_advance ?b (is_advance ?a is))"
    using Cons.prems(1,4) n r by (intro Cons.IH) simp_all
  ultimately show ?case by (simp add: n add.assoc)
qed simp

lemma ReadMessageSet_loop_done: "ReadMessageSet_loop s s acc is = (acc, is)"
  by (subst ReadMessageSet_loop.simps) simp

lemma ReadMessageSet_after_complete:
  assumes "\<not> is_fail is" and "remaining is = WriteMessageSet crc32 ms [] @ rest"
    and "n = length (WriteMessageSet crc32 ms [])" and "n + k < 2 ^ 31"
  shows "ReadMessageSet is acc (of_nat (n + k)) =
    ReadMessageSet_loop (of_nat (n + k)) (of_nat n) (acc @ map received ms) (is_advance n is)"
  using ReadMessageSet_loop_complete [of "is" crc32 ms rest n 0 k acc] assms
  by (simp add: ReadMessageSet_def WriteMessageSet_fold)

text \<open>
  C8: Reading a message set back. When a broker sends the bytes that the writer of this library
  produces for a list of messages (less than 2 GiB of them), \<^verbatim>\<open>ReadMessageSet\<close> ends, appends
  exactly these messages in order (attributes dropped, empty arrays as null) and leaves the
  stream right behind the set, whatever follows.
\<close>

theorem ReadMessageSet_roundtrip:
  assumes "\<not> is_fail is"
    and "remaining is = WriteMessageSet crc32 ms [] @ rest"
    and "length (WriteMessageSet crc32 ms []) < 2 ^ 31"
  shows "ReadMessageSet is acc (of_nat (length (WriteMessageSet crc32 ms []))) =
    (acc @ map received ms, is_advance (length (WriteMessageSet crc32 ms [])) is)"
  using ReadMessageSet_after_complete [OF assms(1,2) refl, of 0 acc] assms(3)
  by (simp add: ReadMessageSet_loop_done)

definition sample_message :: MessageAndOffset where
  "sample_message = \<lparr>msg_attributes = 2, msg_key = None,
     msg_value = Some (str ''hello, broker!''), msg_offset = 41\<rparr>"

lemma sample_sizes:
  "length (WriteMessage (\<lambda>_. 7) sample_message []) = 28"
  "length (message_entry (\<lambda>_. 7) sample_message []) = 40"
  "length (WriteMessageSet (\<lambda>_. 7) [sample_message] []) = 40"
  by (simp_all add: sample_message_def message_entry_eq WriteMessageSet_fold wire_simps Let_def)

theorem ReadMessageSet_roundtrip_witness:
  "\<not> is_fail (open_istream (WriteMessageSet (\<lambda>_. 7) [sample_message] [])) \<and>
   fst (ReadMessageSet (open_istream (WriteMessageSet (\<lambda>_. 7) [sample_message] [])) [] 40) =
     [sample_message\<lparr>msg_attributes := 0\<rparr>]"
  using ReadMessageSet_roundtrip [of "open_istream (WriteMessageSet (\<lambda>_. 7) [sample_message] [])"
      "\<lambda>_. 7" "[sample_message]" "[]" "[]"]
  by (simp add: sample_sizes received_def) (simp add: sample_message_def read_back_def str_def)

section \<open>Truncated message sets\<close>

text \<open>
  A broker may cut the last message of a set at the requested number of bytes. The remaining
  bytes are compared with the message size although the 12 bytes of the entry header count
  among them.
\<close>

lemma entry_header:
  assumes "\<not> is_fail is" and "remaining is = take k (message_entry crc32 m []) @ rest"
    and "12 \<le> k"
  shows "ReadInt64 is = (msg_offset m, is_advance 8 is)"
    and "ReadInt32 (is_advance 8 is) = (MessageWireSize m, is_advance 12 is)"
    and "remaining (is_advance 12 is) = take (k - 12) (WriteMessage crc32 m []) @ rest"
proof -
  have r: "remaining is = be_bytes 8 (msg_offset m) @ be_bytes 4 (MessageWireSize m) @
      take (k - 12) (WriteMessage crc32 m []) @ rest"
    using assms(2,3) by (simp add: message_entry_eq)
  show "ReadInt64 is = (msg_offset m, is_advance 8 is)"
    using ReadInt64_front [of "is" "msg_offset m"] assms(1) r by simp
  show "ReadInt32 (is_advance 8 is) = (MessageWireSize m, is_advance 12 is)"
    using ReadInt32_front [of "is_advance 8 is" "MessageWireSize m"] assms(1) r by simp
  show "remaining (is_advance 12 is) = take (k - 12) (WriteMessage crc32 m []) @ rest"
    using r by simp
qed

text \<open>
  A partial message at the end of a set is ignored when more than 12 of its bytes are
  missing: the complete messages before it are delivered, nothing else.
\<close>

theorem ReadMessageSet_ignores_partial:
  assumes "\<not> is_fail is"
    and "remaining is = WriteMessageSet crc32 ms [] @ take k (message_entry crc32 m []) @ rest"
    and "12 \<le> k" and "k < length (WriteMessage crc32 m [])"
    and "length (WriteMessageSet crc32 ms []) + length (WriteMessage crc32 m []) < 2 ^ 31"
  shows "fst (ReadMessageSet is acc (of_nat (length (WriteMessageSet crc32 ms []) + k))) =
    acc @ map received ms"
proof -
  let ?n = "length (WriteMessageSet crc32 ms [])"
  define is1 where "is1 = is_advance ?n is"
  have h: "ReadInt64 is1 = (msg_offset m, is_advance 8 is1)"
    "ReadInt32 (is_advance 8 is1) = (MessageWireSize m, is_advance 12 is1)"
    using entry_header [of is1 k crc32 m rest] assms(1-3) by (simp_all add: is1_def)
  have lt: "(of_nat ?n :: 64 word) < of_nat (?n + k)"
    using assms(3-5) by (intro of_nat_64_less) auto
  have d: "(of_nat (?n + k) :: 64 word) - of_nat ?n = of_nat k" by simp
  have s: "sint (ucast (of_nat k :: 64 word) :: Int32) = int k"
    using assms(4,5) by (simp only: ucast_of_nat_32) (intro sint_of_nat_less, simp)
  have w: "sint (MessageWireSize m) = int (length (WriteMessage crc32 m []))"
    using assms(5) by (intro small_parts) simp
  have "fst (ReadMessageSet_loop (of_nat (?n + k)) (of_nat ?n) (acc @ map received ms) is1) =
      acc @ map received ms"
    by (subst ReadMessageSet_loop.simps)
      (simp only: lt d s w h Let_def prod.case, use assms(4) in simp)
  then show ?thesis
    using ReadMessageSet_after_complete [OF assms(1,2) refl, of k acc] assms(4,5)
    by (simp add: is1_def)
qed

theorem ReadMessageSet_ignores_partial_witness:
  "fst (ReadMessageSet (open_istream (WriteMessageSet (\<lambda>_. 7) [sample_message] [] @
       take 20 (message_entry (\<lambda>_. 7) sample_message []))) [] 60) =
     [sample_message\<lparr>msg_attributes := 0\<rparr>]"
  using ReadMessageSet_ignores_partial [of "open_istream (WriteMessageSet (\<lambda>_. 7) [sample_message] [] @
       take 20 (message_entry (\<lambda>_. 7) sample_message []))" "\<lambda>_. 7" "[sample_message]" 20
       sample_message "[]" "[]"]
  by (simp add: sample_sizes received_def) (simp add: sample_message_def read_back_def str_def)

lemma ReadBytes_short:
  assumes "length v < 2 ^ 31" and f: "\<not> is_fail is" and j: "0 < j" "j \<le> length v"
    and r: "remaining is = be_bytes 4 (of_nat (length v) :: Int32) @ take (length v - j) v"
  shows "\<exists>is'. is_fail is' \<and>
    ReadBytes b is = (Some (take (length v - j) v @ replicate j 0), is')"
proof -
  let ?v = "take (length v - j) v"
  have l: "ReadInt32 is = (of_nat (length v), is_advance 4 is)"
    using f r by (rule ReadInt32_front)
  have s: "sint (of_nat (length v) :: Int32) = int (length v)"
    using assms(1) by (intro sint_of_nat_less) simp
  define is' where "is' = (is_advance 4 is)\<lparr>is_pos := length (is_data is), is_fail := True\<rparr>"
  have rd: "is_read (length v) (is_advance 4 is) = (?v, is')"
    using is_read_short [of "is_advance 4 is" "length v"] f r j by (simp add: is'_def)
  have "fill (length v) ?v = ?v @ replicate j 0"
    using j by (simp add: fill_def)
  with j have "ReadBytes b is = (Some (?v @ replicate j 0), is')"
    by (auto simp: ReadBytes_def l s rd)
  then show ?thesis by (intro exI [of _ is']) (simp add: is'_def)
qed

lemma ReadMessage_truncated:
  assumes w: "length (WriteMessage crc32 m []) < 2 ^ 31" and f: "\<not> is_fail is"
    and v: "msg_value m = Some v" and j: "0 < j" "j \<le> 12" "12 \<le> length v"
    and r: "remaining is = take (length (WriteMessage crc32 m []) - j) (WriteMessage crc32 m [])"
    and n: "msg_key m0 = None" "msg_value m0 = None"
  shows "\<exists>is'. is_fail is' \<and> ReadMessage is m0 =
    (m0\<lparr>msg_key := read_back (msg_key m),
        msg_value := Some (take (length v - j) v @ replicate j 0)\<rparr>, is')"
proof -
  let ?k = "WriteBytes (msg_key m) []" and ?v = "take (length v - j) v"
  obtain c where r': "remaining is = be_bytes 4 (c :: Int32) @ be_bytes 1 (magic_byte m) @
      be_bytes 1 (msg_attributes m) @ ?k @ be_bytes 4 (of_nat (length v) :: Int32) @ ?v"
    using r v j by (auto simp: wire_simps Let_def)
  have "ReadInt32 is = (c, is_advance 4 is)"
    using f r' by (rule ReadInt32_front)
  moreover have "ReadInt8 (is_advance 4 is) = (magic_byte m, is_advance 5 is)"
    using ReadInt8_front [of "is_advance 4 is" "magic_byte m"] f r' by simp
  moreover have "ReadInt8 (is_advance 5 is) = (msg_attributes m, is_advance 6 is)"
    using ReadInt8_front [of "is_advance 5 is" "msg_attributes m"] f r' by simp
  moreover have "ReadBytes None (is_advance 6 is) =
      (read_back (msg_key m), is_advance (6 + length ?k) is)"
    using ReadBytes_front [of "msg_key m" "is_advance 6 is"
        "be_bytes 4 (of_nat (length v) :: Int32) @ ?v"] small_parts(1) [OF w] f r' by simp
  moreover obtain is' where "is_fail is'"
      "ReadBytes None (is_advance (6 + length ?k) is) = (Some (?v @ replicate j 0), is')"
    using ReadBytes_short [of v "is_advance (6 + length ?k) is" j None] w v f r' j
    by (auto simp: wire_simps Let_def)
  ultimately show ?thesis using n by (auto simp: ReadMessage_def)
qed

text \<open>
  C36: A partial message that lacks at most 12 bytes is taken for a complete one: when the set
  ends the response, the reader appends the message with the missing tail of its value replaced
  by zero bytes (the checksum, which would show it, is read and dropped).
\<close>

theorem ReadMessageSet_corrupts_partial:
  assumes "\<not> is_fail is"
    and "remaining is = WriteMessageSet crc32 ms [] @
      take (length (message_entry crc32 m []) - j) (message_entry crc32 m [])"
    and "0 < j" and "j \<le> 12" and "msg_value m = Some v" and "12 \<le> length v"
    and "length (WriteMessageSet crc32 ms []) + length (message_entry crc32 m []) < 2 ^ 31"
  shows "fst (ReadMessageSet is acc (of_nat (length (WriteMessageSet crc32 ms []) +
      (length (message_entry crc32 m []) - j)))) =
    acc @ map received ms @
      [(received m)\<lparr>msg_value := Some (take (length v - j) v @ replicate j 0)\<rparr>]"
proof -
  let ?n = "length (WriteMessageSet crc32 ms [])" and ?w = "length (WriteMessage crc32 m [])"
  let ?e = "length (message_entry crc32 m [])"
  define k where "k = ?e - j"
  define is1 where "is1 = is_advance ?n is"
  have e: "?e = 12 + ?w" by (simp add: message_entry_eq)
  have "12 \<le> ?w" using assms(5,6) by (simp add: wire_simps Let_def)
  then have k: "12 \<le> k" "?w \<le> k" "k - 12 = ?w - j" "k < 12 + ?w"
    using assms(3,4) e by (auto simp: k_def)
  have h: "ReadInt64 is1 = (msg_offset m, is_advance 8 is1)"
    "ReadInt32 (is_advance 8 is1) = (MessageWireSize m, is_advance 12 is1)"
    "remaining (is_advance 12 is1) = take (?w - j) (WriteMessage crc32 m [])"
    using entry_header [of is1 k crc32 m "[]"] assms(1,2) k by (simp_all add: is1_def k_def)
  have w: "?w < 2 ^ 31" using assms(7) e by simp
  obtain is2 where rm: "is_fail is2"
      "ReadMessage (is_advance 12 is1) (set_offset (msg_offset m) MessageAndOffset_new) =
       ((received m)\<lparr>msg_value := Some (take (length v - j) v @ replicate j 0)\<rparr>, is2)"
    using ReadMessage_truncated [OF w _ assms(5,3,4,6) h(3),
        of "set_offset (msg_offset m) MessageAndOffset_new"] assms(1)
    by (auto simp: is1_def set_offset_def MessageAndOffset_new_def received_def)
  have lt: "(of_nat ?n :: 64 word) < of_nat (?n + k)"
    using k assms(7) e by (intro of_nat_64_less) auto
  have d: "(of_nat (?n + k) :: 64 word) - of_nat ?n = of_nat k" by simp
  have s: "sint (ucast (of_nat k :: 64 word) :: Int32) = int k"
    using k assms(7) e by (simp only: ucast_of_nat_32) (intro sint_of_nat_less, simp)
  have sw: "sint (MessageWireSize m) = int ?w" using w by (rule small_parts(3))
  have sc: "(of_nat ?n :: 64 word) + (8 + 4 + scast (MessageWireSize m)) = of_nat (?n + ?e)"
    using w e by (simp only: MessageWireSize_length [of _ crc32] scast_of_nat_64) simp
  have stop: "\<not> (of_nat (?n + ?e) :: 64 word) < of_nat (?n + k)"
    using of_nat_64_less [of "?n + ?e" "?n + k"] k assms(7) e by (metis add_less_cancel_left order.asym)
  have "fst (ReadMessageSet_loop (of_nat (?n + k)) (of_nat ?n) (acc @ map received ms) is1) =
      fst (ReadMessageSet_loop (of_nat (?n + k)) (of_nat (?n + ?e)) (acc @ map received ms @
        [(received m)\<lparr>msg_value := Some (take (length v - j) v @ replicate j 0)\<rparr>]) is2)"
    by (subst ReadMessageSet_loop.simps)
      (simp only: lt d s sw sc h(1,2) rm(2) Let_def prod.case, use k in simp)
  moreover have "fst (ReadMessageSet_loop (of_nat (?n + k)) (of_nat (?n + ?e)) x is2) = x" for x
    by (subst ReadMessageSet_loop.simps) (simp only: stop if_False fst_conv)
  moreover have "ReadMessageSet is acc (of_nat (?n + k)) =
      ReadMessageSet_loop (of_nat (?n + k)) (of_nat ?n) (acc @ map received ms) is1"
    using ReadMessageSet_after_complete [OF assms(1,2) refl, of k acc] k assms(7) e
    by (simp add: is1_def)
  ultimately show ?thesis
    by (simp only: k_def)
qed

theorem ReadMessageSet_corrupts_partial_witness:
  "fst (ReadMessageSet (open_istream (take 35 (message_entry (\<lambda>_. 7) sample_message []))) [] 35) =
     [sample_message\<lparr>msg_attributes := 0, msg_value := Some (str ''hello, br'' @ [0, 0, 0, 0, 0])\<rparr>]"
proof -
  have e: "WriteMessageSet (\<lambda>_. 7) [] [] = []" by (simp add: WriteMessageSet_def)
  have "fst (ReadMessageSet (open_istream (take 35 (message_entry (\<lambda>_. 7) sample_message []))) []
      (of_nat (0 + (40 - 5)))) = [(received sample_message)
      \<lparr>msg_value := Some (take (14 - 5) (str ''hello, broker!'') @ replicate 5 0)\<rparr>]"
    using ReadMessageSet_corrupts_partial [of "open_istream (take 35 (message_entry (\<lambda>_. 7)
        sample_message []))" "\<lambda>_. 7" "[]" sample_message 5 "str ''hello, broker!''" "[]"]
    by (simp add: sample_sizes e) (simp add: sample_message_def str_def)
  then show ?thesis
    by (simp add: received_def sample_message_def read_back_def str_def numeral_eq_Suc)
qed

section \<open>Compression flags\<close>

text \<open>
  \<^verbatim>\<open>SetCompression\<close> keeps the six upper attribute bits, and the two lower bits say which
  compression is used (\<^verbatim>\<open>message.h\<close>), for none and Snappy; for GZIP they say none, since the
  value is masked with 2 and not with 3.
\<close>

theorem SetCompression_bits:
  "msg_attributes (SetCompression c m) AND 0xfc = msg_attributes m AND 0xfc \<and>
   msg_attributes (SetCompression c m) AND 3 =
     (if c = kCompressionGZIP then compression_value kCompressionNone else compression_value c) \<and>
   msg_key (SetCompression c m) = msg_key m \<and> msg_value (SetCompression c m) = msg_value m"
proof -
  have a: "(x AND 0xfc OR 2) AND 0xfc = x AND 0xfc" "(x AND 0xfc OR 2) AND 3 = 2"
      "(x AND 0xfc) AND 0xfc = x AND 0xfc" "(x AND 0xfc) AND 3 = 0" for x :: Int8
    by (simp_all only: bit.conj_disj_distrib2 and.assoc) simp_all
  show ?thesis by (cases c) (simp_all add: SetCompression_def a)
qed

end
