(* ===== verification/Topic_Blocks.thy ===== *)
theory Topic_Blocks
  imports Kafka_Prelude
begin

text \<open>
  \<^verbatim>\<open>detail/topic_partition_block.h\<close> and \<^verbatim>\<open>detail/functional.h\<close>: the topic-partition data
  structure shared by all requests and responses and the find and find-or-create templates.
  An iterator into a vector is the index it points to, \<^verbatim>\<open>end()\<close> the length of the vector.
  The locale \<open>keyed_vector\<close> is the contract of find-or-create, used as "find the entry of a
  key, then change it through the iterator"; both mutable templates are shown to keep it.
\<close>

section \<open>The data structure\<close>

text \<open>The properties a request adds to a partition (topic) are the field \<open>partition_props\<close>
  (\<open>topic_props\<close>), the base class of the source.\<close>

record 'p Partition =
  partition_props :: 'p
  partition_id :: Int32

record ('p, 't) TopicPartitionBlock =
  topic_props :: 't
  topic_name :: String
  partitions :: "'p Partition list"

record Broker =
  node_id :: Int32
  host :: String
  port :: Int32

section \<open>Predicates and searches\<close>

fun find_if :: "('a \<Rightarrow> bool) \<Rightarrow> 'a list \<Rightarrow> nat" where
  "find_if P [] = 0"
| "find_if P (x # xs) = (if P x then 0 else Suc (find_if P xs))"

definition IsTopicWithName :: "String \<Rightarrow> ('p, 't) TopicPartitionBlock \<Rightarrow> bool" where
  "IsTopicWithName name other \<longleftrightarrow> topic_name other = name"

definition IsTopicPartition :: "Int32 \<Rightarrow> 'p Partition \<Rightarrow> bool" where
  "IsTopicPartition p other \<longleftrightarrow> partition_id other = p"

definition IsBrokerWithId :: "Int32 \<Rightarrow> Broker \<Rightarrow> bool" where
  "IsBrokerWithId i other \<longleftrightarrow> node_id other = i"

definition FindTopicByName_const :: "String \<Rightarrow> ('p, 't) TopicPartitionBlock list \<Rightarrow> nat" where
  "FindTopicByName_const name container = find_if (IsTopicWithName name) container"

definition FindTopicByName ::
  "('p, 't) TopicPartitionBlock \<Rightarrow> String \<Rightarrow> ('p, 't) TopicPartitionBlock list \<Rightarrow> bool \<Rightarrow>
   nat \<times> ('p, 't) TopicPartitionBlock list" where
  "FindTopicByName TTopic name container create =
     (let result = find_if (IsTopicWithName name) container in
      if create \<and> result = length container
      then (length container, container @ [TTopic\<lparr>topic_name := name\<rparr>])
      else (result, container))"

definition FindTopicPartitionByNumber_const :: "Int32 \<Rightarrow> 'p Partition list \<Rightarrow> nat" where
  "FindTopicPartitionByNumber_const p container = find_if (IsTopicPartition p) container"

definition FindTopicPartitionByNumber ::
  "'p Partition \<Rightarrow> Int32 \<Rightarrow> 'p Partition list \<Rightarrow> bool \<Rightarrow> nat \<times> 'p Partition list" where
  "FindTopicPartitionByNumber TPartition p container create =
     (let result = find_if (IsTopicPartition p) container in
      if create \<and> result = length container
      then (length container, container @ [TPartition\<lparr>partition_id := p\<rparr>])
      else (result, container))"

definition FindBrokerById :: "Int32 \<Rightarrow> Broker list \<Rightarrow> nat" where
  "FindBrokerById i container = find_if (IsBrokerWithId i) container"

section \<open>Searching\<close>

lemma find_if_le: "find_if P xs \<le> length xs"
  by (induction xs) auto

lemma find_if_less: "find_if P xs < length xs \<longleftrightarrow> (\<exists>x \<in> set xs. P x)"
  by (induction xs) auto

lemma find_if_end: "find_if P xs = length xs \<longleftrightarrow> (\<forall>x \<in> set xs. \<not> P x)"
  using find_if_less [of P xs] find_if_le [of P xs] by auto

lemma find_if_nth: "find_if P xs < length xs \<Longrightarrow> P (xs ! find_if P xs)"
  by (induction xs) auto

lemma find_if_before: "i < find_if P xs \<Longrightarrow> \<not> P (xs ! i)"
proof (induction xs arbitrary: i)
  case (Cons x xs)
  then show ?case by (cases i) (auto split: if_splits)
qed simp

lemma find_if_List_find:
  "List.find P xs = (if find_if P xs < length xs then Some (xs ! find_if P xs) else None)"
  by (induction xs) auto

lemma find_if_update:
  assumes "P (xs ! find_if P xs) \<longleftrightarrow> P y"
  shows "find_if P (xs[find_if P xs := y]) = find_if P xs"
  using assms by (induction xs) auto

lemma List_find_update:
  assumes "i < length xs" "\<not> P (xs ! i)" "\<not> P y"
  shows "List.find P (xs[i := y]) = List.find P xs"
  using assms
proof (induction xs arbitrary: i)
  case (Cons x xs)
  then show ?case by (cases i) auto
qed simp

lemma List_find_append:
  "List.find P (xs @ ys) = (case List.find P xs of None \<Rightarrow> List.find P ys | Some x \<Rightarrow> Some x)"
  by (induction xs) auto

section \<open>Find or create\<close>

locale keyed_vector =
  fixes key :: "'a \<Rightarrow> 'k" and mk :: "'k \<Rightarrow> 'a" and find_create :: "'k \<Rightarrow> 'a list \<Rightarrow> nat \<times> 'a list"
  assumes key_mk: "key (mk k) = k"
    and find_create_eq: "find_create k xs =
      (if \<exists>x \<in> set xs. key x = k then (find_if (\<lambda>x. key x = k) xs, xs)
       else (length xs, xs @ [mk k]))"
begin

definition upsert :: "'k \<Rightarrow> ('a \<Rightarrow> 'a) \<Rightarrow> 'a list \<Rightarrow> 'a list" where
  "upsert k f xs = (let (i, ys) = find_create k xs in ys[i := f (ys ! i)])"

definition vlookup :: "'a list \<Rightarrow> 'k \<Rightarrow> 'a option" where
  "vlookup xs k = List.find (\<lambda>x. key x = k) xs"

lemma index_in_range:
  "find_create k xs = (i, ys) \<Longrightarrow> i < length ys \<and> key (ys ! i) = k"
  using find_if_less [of "\<lambda>x. key x = k" xs] find_if_nth [of "\<lambda>x. key x = k" xs]
  by (auto simp: find_create_eq key_mk split: if_splits)

lemma vlookup_upsert:
  assumes f: "\<And>x. key (f x) = key x"
  shows "vlookup (upsert k f xs) k' =
    (if k' = k then Some (f (case vlookup xs k of None \<Rightarrow> mk k | Some x \<Rightarrow> x)) else vlookup xs k')"
proof (cases "\<exists>x \<in> set xs. key x = k")
  case True
  let ?i = "find_if (\<lambda>x. key x = k) xs"
  have i: "?i < length xs" "key (xs ! ?i) = k"
    using True find_if_less [of "\<lambda>x. key x = k" xs] find_if_nth [of "\<lambda>x. key x = k" xs] by auto
  have u: "upsert k f xs = xs[?i := f (xs ! ?i)]"
    using True by (simp add: upsert_def find_create_eq)
  have "vlookup (xs[?i := f (xs ! ?i)]) k = Some (f (xs ! ?i))"
    using i find_if_update [of "\<lambda>x. key x = k" xs "f (xs ! ?i)"]
    by (simp add: vlookup_def find_if_List_find f)
  moreover have "k' \<noteq> k \<Longrightarrow> vlookup (xs[?i := f (xs ! ?i)]) k' = vlookup xs k'"
    using i by (simp add: vlookup_def List_find_update f)
  moreover have "vlookup xs k = Some (xs ! ?i)"
    using i by (simp add: vlookup_def find_if_List_find)
  ultimately show ?thesis by (simp add: u)
next
  case False
  then have "vlookup xs k = None"
    by (auto simp: vlookup_def find_None_iff)
  moreover have "upsert k f xs = xs @ [f (mk k)]"
    using False by (auto simp: upsert_def find_create_eq)
  ultimately show ?thesis
    by (auto simp: vlookup_def List_find_append f key_mk split: option.splits)
qed

lemma vlookup_Nil [simp]: "vlookup [] k = None"
  by (simp add: vlookup_def)

lemma upsert_all:
  assumes "\<forall>x \<in> set xs. P x" and "P (mk k)" and "\<And>x. P x \<Longrightarrow> P (f x)"
  shows "\<forall>x \<in> set (upsert k f xs). P x"
proof -
  obtain i ys where fc: "find_create k xs = (i, ys)" by fastforce
  then have "i < length ys" using index_in_range by blast
  moreover have "\<forall>y \<in> set ys. P y"
    using fc assms(1,2) by (auto simp: find_create_eq split: if_splits)
  ultimately show ?thesis
    using set_update_subset_insert [of ys i "f (ys ! i)"] assms(3) fc
    by (auto simp: upsert_def)
qed

lemma distinct_keys_upsert:
  assumes "\<And>x. key (f x) = key x" and "distinct (map key xs)"
  shows "distinct (map key (upsert k f xs))"
proof (cases "\<exists>x \<in> set xs. key x = k")
  case True
  let ?i = "find_if (\<lambda>x. key x = k) xs"
  have "map key (xs[?i := f (xs ! ?i)]) = (map key xs)[?i := key (xs ! ?i)]"
    using assms(1) by (simp add: map_update)
  also have "\<dots> = map key xs"
    using True find_if_less [of "\<lambda>x. key x = k" xs] by (metis list_update_id nth_map)
  finally show ?thesis using True assms(2) by (simp add: upsert_def find_create_eq)
next
  case False
  with assms show ?thesis by (auto simp: upsert_def find_create_eq key_mk)
qed

end

interpretation topic_vec: keyed_vector topic_name "\<lambda>n. TTopic\<lparr>topic_name := n\<rparr>"
    "\<lambda>n c. FindTopicByName TTopic n c True"
  for TTopic :: "('p, 't) TopicPartitionBlock"
  by unfold_locales
    (auto simp: FindTopicByName_def IsTopicWithName_def [abs_def] find_if_end)

interpretation partition_vec: keyed_vector partition_id "\<lambda>p. TPartition\<lparr>partition_id := p\<rparr>"
    "\<lambda>p c. FindTopicPartitionByNumber TPartition p c True"
  for TPartition :: "'p Partition"
  by unfold_locales
    (auto simp: FindTopicPartitionByNumber_def IsTopicPartition_def [abs_def] find_if_end)

text \<open>Without creation the mutable templates agree with the constant ones.\<close>

lemma find_without_create:
  "FindTopicByName TTopic n ts False = (FindTopicByName_const n ts, ts)"
  "FindTopicPartitionByNumber TPartition p ps False = (FindTopicPartitionByNumber_const p ps, ps)"
  by (simp_all add: FindTopicByName_def FindTopicByName_const_def
      FindTopicPartitionByNumber_def FindTopicPartitionByNumber_const_def)

end
