(* ===== verification/Constants_Errors.thy ===== *)
theory Constants_Errors
  imports Kafka_Prelude
begin

text \<open>
  \<^verbatim>\<open>constants.h\<close>: API keys, defaults and special values; \<^verbatim>\<open>error.h\<close>: the client and server
  error enumerations, their messages and the \<^verbatim>\<open>boost::system::error_code\<close> made of them (a
  value and a category, true when the value is not 0).
\<close>

section \<open>Constants\<close>

definition kApiKeyProduceRequest :: "'a::len word" where "kApiKeyProduceRequest = 0"
definition kApiKeyFetchRequest :: "'a::len word" where "kApiKeyFetchRequest = 1"
definition kApiKeyOffsetRequest :: "'a::len word" where "kApiKeyOffsetRequest = 2"
definition kApiKeyMetadataRequest :: "'a::len word" where "kApiKeyMetadataRequest = 3"
definition kApiKeyOffsetCommitRequest :: "'a::len word" where "kApiKeyOffsetCommitRequest = 8"
definition kApiKeyOffsetFetchRequest :: "'a::len word" where "kApiKeyOffsetFetchRequest = 9"
definition kApiKeyConsumerMetadataRequest :: "'a::len word" where
  "kApiKeyConsumerMetadataRequest = 10"

lemmas api_keys =
  kApiKeyProduceRequest_def kApiKeyFetchRequest_def kApiKeyOffsetRequest_def
  kApiKeyMetadataRequest_def kApiKeyOffsetCommitRequest_def kApiKeyOffsetFetchRequest_def
  kApiKeyConsumerMetadataRequest_def

definition kDefaultPartition :: Int32 where "kDefaultPartition = 0"
definition kDefaultProduceRequiredAcks :: Int16 where "kDefaultProduceRequiredAcks = 0"
definition kDefaultProduceTimeout :: Int32 where "kDefaultProduceTimeout = 10000"
definition kDefaultFetchOffset :: Int64 where "kDefaultFetchOffset = 0"
definition kDefaultFetchMinBytes :: Int32 where "kDefaultFetchMinBytes = 0"
definition kDefaultFetchMaxBytes :: Int32 where "kDefaultFetchMaxBytes = 32768"
definition kDefaultFetchMaxWaitTime :: Int32 where "kDefaultFetchMaxWaitTime = 0"
definition kDefaultOffsetMaxNumberOfOffsets :: Int32 where "kDefaultOffsetMaxNumberOfOffsets = 1"
definition kDefaultOffsetCommitTimestampNow :: Int64 where "kDefaultOffsetCommitTimestampNow = - 1"
definition kDefaultCorrelationId :: Int32 where "kDefaultCorrelationId = 0"
definition kDefaultMessageMaxBytes :: Int32 where "kDefaultMessageMaxBytes = 4194304"
definition kDefaultSocketTimeout :: Int32 where "kDefaultSocketTimeout = 60000"

definition DefaultClientAutoConnect :: bool where "DefaultClientAutoConnect = False"
definition DefaultClientId :: String where "DefaultClientId = str ''libkafka_asio''"
definition DefaultKafkaService :: String where "DefaultKafkaService = str ''9092''"

definition kMetadataLeaderUndecided :: Int32 where "kMetadataLeaderUndecided = - 1"
definition kOffsetTimeLatest :: Int64 where "kOffsetTimeLatest = - 1"
definition kOffsetTimeEarliest :: Int64 where "kOffsetTimeEarliest = - 2"

section \<open>Errors\<close>

datatype ClientError =
  kErrorSuccess | kErrorAlreadyConnected | kErrorNotConnected | kErrorNoBroker | kErrorInProgress

fun ClientError_value :: "ClientError \<Rightarrow> int" where
  "ClientError_value kErrorSuccess = 0"
| "ClientError_value kErrorAlreadyConnected = 1"
| "ClientError_value kErrorNotConnected = 2"
| "ClientError_value kErrorNoBroker = 3"
| "ClientError_value kErrorInProgress = 4"

definition kErrorNoError :: int where "kErrorNoError = 0"
definition kErrorUnknown :: int where "kErrorUnknown = - 1"
definition kErrorOffsetOutOfRange :: int where "kErrorOffsetOutOfRange = 1"
definition kErrorInvalidMessage :: int where "kErrorInvalidMessage = 2"
definition kErrorUnknownTopicOrPartition :: int where "kErrorUnknownTopicOrPartition = 3"
definition kErrorInvalidMessageSize :: int where "kErrorInvalidMessageSize = 4"
definition kErrorLeaderNotAvailable :: int where "kErrorLeaderNotAvailable = 5"
definition kErrorNotLeaderForPartition :: int where "kErrorNotLeaderForPartition = 6"
definition kErrorRequestTimedOut :: int where "kErrorRequestTimedOut = 7"
definition kErrorBrokerNotAvailable :: int where "kErrorBrokerNotAvailable = 8"
definition kErrorReplicaNotAvailable :: int where "kErrorReplicaNotAvailable = 9"
definition kErrorMessageSizeTooLarge :: int where "kErrorMessageSizeTooLarge = 10"
definition kErrorStaleControllerEpochCode :: int where "kErrorStaleControllerEpochCode = 11"
definition kErrorOffsetMetadataTooLargeCode :: int where "kErrorOffsetMetadataTooLargeCode = 12"
definition kErrorOffsetLoadInProgressCode :: int where "kErrorOffsetLoadInProgressCode = 14"
definition kErrorConsumerCoordinatorNotAvailableCode :: int where
  "kErrorConsumerCoordinatorNotAvailableCode = 15"
definition kErrorNotCoordinatorForConsumerCode :: int where
  "kErrorNotCoordinatorForConsumerCode = 16"

lemmas kafka_errors =
  kErrorNoError_def kErrorUnknown_def kErrorOffsetOutOfRange_def kErrorInvalidMessage_def
  kErrorUnknownTopicOrPartition_def kErrorInvalidMessageSize_def kErrorLeaderNotAvailable_def
  kErrorNotLeaderForPartition_def kErrorRequestTimedOut_def kErrorBrokerNotAvailable_def
  kErrorReplicaNotAvailable_def kErrorMessageSizeTooLarge_def kErrorStaleControllerEpochCode_def
  kErrorOffsetMetadataTooLargeCode_def kErrorOffsetLoadInProgressCode_def
  kErrorConsumerCoordinatorNotAvailableCode_def kErrorNotCoordinatorForConsumerCode_def

datatype error_category = SystemCategory | ClientErrorCategory | KafkaErrorCategory

record error_code =
  ec_value :: int
  ec_category :: error_category

definition no_error :: error_code where
  "no_error = \<lparr>ec_value = 0, ec_category = SystemCategory\<rparr>"

definition is_error :: "error_code \<Rightarrow> bool" where
  "is_error ec \<longleftrightarrow> ec_value ec \<noteq> 0"

definition make_error_code_client :: "ClientError \<Rightarrow> error_code" where
  "make_error_code_client e = \<lparr>ec_value = ClientError_value e, ec_category = ClientErrorCategory\<rparr>"

definition make_error_code_kafka :: "int \<Rightarrow> error_code" where
  "make_error_code_kafka e = \<lparr>ec_value = e, ec_category = KafkaErrorCategory\<rparr>"

definition ClientErrorCategory_name :: string where
  "ClientErrorCategory_name = ''libkafka_asio::ClientError''"

definition KafkaErrorCategory_name :: string where
  "KafkaErrorCategory_name = ''libkafka_asio::KafkaError''"

definition ClientErrorCategory_message :: "int \<Rightarrow> string" where
  "ClientErrorCategory_message v =
     (if v = ClientError_value kErrorAlreadyConnected
      then ''Client is already connected to remote host''
      else if v = ClientError_value kErrorNotConnected then ''Client is not connected''
      else if v = ClientError_value kErrorNoBroker then ''No broker found''
      else if v = ClientError_value kErrorInProgress
      then ''Another operation is still in progress for this client''
      else ''libkafka_asio client error'')"

definition KafkaErrorCategory_message :: "int \<Rightarrow> string" where
  "KafkaErrorCategory_message v =
     (if v = kErrorNoError then ''No error''
      else if v = kErrorUnknown then ''Unexpected server error''
      else if v = kErrorOffsetOutOfRange
      then ''The requested offset is outside the range of offsets '' @
           ''maintained by the server for the given topic/partition.''
      else if v = kErrorInvalidMessage then ''message content does not match its CRC.''
      else if v = kErrorUnknownTopicOrPartition
      then ''Topic or partition does not exist on this broker.''
      else if v = kErrorInvalidMessageSize then ''The message has a negative size''
      else if v = kErrorLeaderNotAvailable
      then ''There is currently no leader for this partition and hence it '' @
           ''is unavailable for writes.''
      else if v = kErrorNotLeaderForPartition
      then ''Message was sent to a replica that is not the leader for this'' @
           '' partition. Client metadata is out of date.''
      else if v = kErrorRequestTimedOut then ''Request exceeded the user-specified time limit''
      else if v = kErrorBrokerNotAvailable then ''Broker not available.''
      else if v = kErrorReplicaNotAvailable
      then ''Replica was expected on this broker but is not available.''
      else if v = kErrorMessageSizeTooLarge then ''Message was too large''
      else if v = kErrorStaleControllerEpochCode then ''Internal error StaleControllerEpochCode''
      else if v = kErrorOffsetMetadataTooLargeCode
      then ''Specified string larger than configured maximum for offset '' @ ''metadata''
      else if v = kErrorOffsetLoadInProgressCode
      then ''Offset fetch request is still loading offsets''
      else if v = kErrorConsumerCoordinatorNotAvailableCode
      then ''Offsets topic has not yet been created.''
      else if v = kErrorNotCoordinatorForConsumerCode
      then ''Request was for a consumer group that is not coordinated by '' @ ''this broker.''
      else ''libkafka_asio kafka error'')"

lemma is_error_no_error [simp]: "\<not> is_error no_error"
  by (simp add: is_error_def no_error_def)

lemma is_error_kafka [simp]: "is_error (make_error_code_kafka e) \<longleftrightarrow> e \<noteq> 0"
  by (simp add: is_error_def make_error_code_kafka_def)

lemma is_error_client [simp]: "is_error (make_error_code_client e) \<longleftrightarrow> e \<noteq> kErrorSuccess"
  by (cases e) (simp_all add: is_error_def make_error_code_client_def)

lemma ec_value_kafka [simp]: "ec_value (make_error_code_kafka e) = e"
  by (simp add: make_error_code_kafka_def)

end
