(* ===== verification/Requests.thy ===== *)
theory Requests
  imports Messages Topic_Blocks Constants_Errors
begin

text \<open>
  The request classes of libkafka-asio (\<^verbatim>\<open>request.h\<close>, \<^verbatim>\<open>*_request.h\<close> and \<^verbatim>\<open>impl/*_request.h\<close>):
  one record per class, extending the base class \<^verbatim>\<open>Request\<close>, and one function per member
  function. The effect of the members that add or change a topic-partition is stated on the
  lookup a request denotes.
\<close>

section \<open>Base class\<close>

record Request =
  correlation_id :: Int32
  request_client_id :: String

definition Request_new :: Request where
  "Request_new = \<lparr>correlation_id = kDefaultCorrelationId, request_client_id = []\<rparr>"

definition api_version :: "'a Request_scheme \<Rightarrow> Int16" where
  "api_version r = 0"

definition set_correlation_id :: "Int32 \<Rightarrow> 'a Request_scheme \<Rightarrow> 'a Request_scheme" where
  "set_correlation_id c r = r\<lparr>correlation_id := c\<rparr>"

definition Request_ResponseExpected :: "'a Request_scheme \<Rightarrow> bool" where
  "Request_ResponseExpected r = True"

section \<open>Changing one topic-partition\<close>

text \<open>
  The common shape of \<^verbatim>\<open>AddMessage\<close>, \<^verbatim>\<open>FetchTopic\<close>, \<^verbatim>\<open>FetchTopicOffset\<close>, \<^verbatim>\<open>CommitOffset\<close>
  and \<^verbatim>\<open>FetchOffset\<close>: find or create the topic, find or create the partition in it, then
  assign through the partition iterator.
\<close>

definition with_topic_partition ::
  "('p, 't) TopicPartitionBlock \<Rightarrow> 'p Partition \<Rightarrow> String \<Rightarrow> Int32 \<Rightarrow>
   ('p Partition \<Rightarrow> 'p Partition) \<Rightarrow>
   ('p, 't) TopicPartitionBlock list \<Rightarrow> ('p, 't) TopicPartitionBlock list" where
  "with_topic_partition TTopic TPartition name p assign topics =
     (let (topic_iter, topics) = FindTopicByName TTopic name topics True;
          (partition_iter, ps) =
            FindTopicPartitionByNumber TPartition p (partitions (topics ! topic_iter)) True
      in topics[topic_iter :=
           (topics ! topic_iter)\<lparr>partitions := ps[partition_iter := assign (ps ! partition_iter)]\<rparr>])"

definition tp_lookup ::
  "('p, 't) TopicPartitionBlock list \<Rightarrow> String \<Rightarrow> Int32 \<Rightarrow> 'p Partition option" where
  "tp_lookup topics name p =
     (case topic_vec.vlookup topics name of
        None \<Rightarrow> None
      | Some t \<Rightarrow> partition_vec.vlookup (partitions t) p)"

definition well_formed_topics :: "('p, 't) TopicPartitionBlock list \<Rightarrow> bool" where
  "well_formed_topics topics \<longleftrightarrow>
     distinct (map topic_name topics) \<and>
     (\<forall>t \<in> set topics. distinct (map partition_id (partitions t)))"

lemma with_topic_partition_upsert:
  "with_topic_partition TTopic TPartition name p assign topics =
     topic_vec.upsert TTopic name
       (\<lambda>t. t\<lparr>partitions := partition_vec.upsert TPartition p assign (partitions t)\<rparr>) topics"
  by (simp add: with_topic_partition_def topic_vec.upsert_def partition_vec.upsert_def
      Let_def case_prod_beta)

lemma tp_lookup_with_topic_partition:
  assumes "\<And>x. partition_id (assign x) = partition_id x" and "partitions TTopic = []"
  shows "tp_lookup (with_topic_partition TTopic TPartition name p assign topics) name' p' =
    (if name' = name \<and> p' = p
     then Some (assign (case tp_lookup topics name p of
                          None \<Rightarrow> TPartition\<lparr>partition_id := p\<rparr> | Some x \<Rightarrow> x))
     else tp_lookup topics name' p')"
proof -
  let ?f = "\<lambda>t. t\<lparr>partitions := partition_vec.upsert TPartition p assign (partitions t)\<rparr>"
  have t: "topic_vec.vlookup (topic_vec.upsert TTopic name ?f topics) name' =
      (if name' = name then Some (?f (case topic_vec.vlookup topics name of
          None \<Rightarrow> TTopic\<lparr>topic_name := name\<rparr> | Some x \<Rightarrow> x)) else topic_vec.vlookup topics name')"
    by (rule topic_vec.vlookup_upsert) simp
  have p: "partition_vec.vlookup (partition_vec.upsert TPartition p assign ps) q =
      (if q = p then Some (assign (case partition_vec.vlookup ps p of
          None \<Rightarrow> TPartition\<lparr>partition_id := p\<rparr> | Some x \<Rightarrow> x)) else partition_vec.vlookup ps q)" for ps q
    by (rule partition_vec.vlookup_upsert) (rule assms(1))
  show ?thesis
    unfolding with_topic_partition_upsert tp_lookup_def t
    by (cases "topic_vec.vlookup topics name")
      (auto simp: p assms(2) split: option.splits)
qed

lemma well_formed_with_topic_partition:
  assumes "\<And>x. partition_id (assign x) = partition_id x" and "partitions TTopic = []"
    and wf: "well_formed_topics topics"
  shows "well_formed_topics (with_topic_partition TTopic TPartition name p assign topics)"
proof -
  let ?f = "\<lambda>t. t\<lparr>partitions := partition_vec.upsert TPartition p assign (partitions t)\<rparr>"
  have d: "distinct (map partition_id (partitions (?f t)))"
    if "distinct (map partition_id (partitions t))" for t :: "('a, 'b) TopicPartitionBlock"
    using partition_vec.distinct_keys_upsert [OF assms(1) that] by simp
  have "distinct (map topic_name (topic_vec.upsert TTopic name ?f topics))"
    using wf by (intro topic_vec.distinct_keys_upsert) (simp_all add: well_formed_topics_def)
  moreover have "\<forall>t \<in> set (topic_vec.upsert TTopic name ?f topics).
      distinct (map partition_id (partitions t))"
    using wf d assms(2) by (intro topic_vec.upsert_all) (simp_all add: well_formed_topics_def)
  ultimately show ?thesis
    unfolding with_topic_partition_upsert well_formed_topics_def by blast
qed

section \<open>ProduceRequest\<close>

record ProduceRequest = Request +
  required_acks :: Int16
  timeout :: Int32
  produce_topics :: "(MessageSet, unit) TopicPartitionBlock list"

definition empty_topic :: "('p, unit) TopicPartitionBlock" where
  "empty_topic = \<lparr>topic_props = (), topic_name = [], partitions = []\<rparr>"

lemma partitions_empty_topic [simp]: "partitions empty_topic = []"
  by (simp add: empty_topic_def)

definition ProduceRequest_ApiKey :: Int16 where
  "ProduceRequest_ApiKey = kApiKeyProduceRequest"

definition ProduceRequest_new :: ProduceRequest where
  "ProduceRequest_new = \<lparr>correlation_id = kDefaultCorrelationId, request_client_id = [],
     required_acks = kDefaultProduceRequiredAcks, timeout = kDefaultProduceTimeout,
     produce_topics = []\<rparr>"

definition set_required_acks :: "Int16 \<Rightarrow> ProduceRequest \<Rightarrow> ProduceRequest" where
  "set_required_acks a r = r\<lparr>required_acks := a\<rparr>"

definition set_timeout :: "Int32 \<Rightarrow> ProduceRequest \<Rightarrow> ProduceRequest" where
  "set_timeout t r = r\<lparr>timeout := t\<rparr>"

definition produce_partition :: "MessageSet Partition" where
  "produce_partition = \<lparr>partition_props = [], partition_id = 0\<rparr>"

definition AddMessage ::
  "'a Message_scheme \<Rightarrow> String \<Rightarrow> Int32 \<Rightarrow> ProduceRequest \<Rightarrow> ProduceRequest" where
  "AddMessage message name p r =
     r\<lparr>produce_topics := with_topic_partition empty_topic produce_partition name p
         (\<lambda>it. let message_and_offset = MessageAndOffset_of message 0
               in it\<lparr>partition_props := partition_props it @ [message_and_offset]\<rparr>)
         (produce_topics r)\<rparr>"

definition AddValue_Bytes :: "Bytes \<Rightarrow> String \<Rightarrow> Int32 \<Rightarrow> ProduceRequest \<Rightarrow> ProduceRequest" where
  "AddValue_Bytes value name p r = AddMessage (Message_new\<lparr>msg_value := value\<rparr>) name p r"

definition AddValue :: "String \<Rightarrow> String \<Rightarrow> Int32 \<Rightarrow> ProduceRequest \<Rightarrow> ProduceRequest" where
  "AddValue value name p r = AddMessage (Message_new\<lparr>msg_value := Some value\<rparr>) name p r"

definition AddMessageSet :: "MessageSet \<Rightarrow> String \<Rightarrow> Int32 \<Rightarrow> ProduceRequest \<Rightarrow> ProduceRequest" where
  "AddMessageSet message_set name p r = fold (\<lambda>m. AddMessage m name p) message_set r"

definition ProduceRequest_Clear :: "ProduceRequest \<Rightarrow> ProduceRequest" where
  "ProduceRequest_Clear r = r\<lparr>produce_topics := []\<rparr>"

definition ClearTopic :: "String \<Rightarrow> ProduceRequest \<Rightarrow> ProduceRequest" where
  "ClearTopic name r =
     r\<lparr>produce_topics := filter (\<lambda>t. \<not> IsTopicWithName name t) (produce_topics r)\<rparr>"

definition ClearTopicPartition :: "String \<Rightarrow> Int32 \<Rightarrow> ProduceRequest \<Rightarrow> ProduceRequest" where
  "ClearTopicPartition name p r =
     (let topic_iter = find_if (IsTopicWithName name) (produce_topics r) in
      if topic_iter \<noteq> length (produce_topics r)
      then r\<lparr>produce_topics := (produce_topics r)[topic_iter :=
             (produce_topics r ! topic_iter)\<lparr>partitions :=
               filter (\<lambda>q. \<not> IsTopicPartition p q) (partitions (produce_topics r ! topic_iter))\<rparr>]\<rparr>
      else r)"

definition ProduceRequest_ResponseExpected :: "ProduceRequest \<Rightarrow> bool" where
  "ProduceRequest_ResponseExpected r \<longleftrightarrow> required_acks r \<noteq> 0"

section \<open>FetchRequest\<close>

record FetchProps =
  fetch_offset :: Int64
  max_bytes :: Int32

record FetchRequest = Request +
  max_wait_time :: Int32
  min_bytes :: Int32
  fetch_topics :: "(FetchProps, unit) TopicPartitionBlock list"

definition FetchRequest_ApiKey :: Int16 where
  "FetchRequest_ApiKey = kApiKeyFetchRequest"

definition FetchRequest_new :: FetchRequest where
  "FetchRequest_new = \<lparr>correlation_id = kDefaultCorrelationId, request_client_id = [],
     max_wait_time = kDefaultFetchMaxWaitTime, min_bytes = kDefaultFetchMinBytes,
     fetch_topics = []\<rparr>"

definition FetchRequest_replica_id :: "FetchRequest \<Rightarrow> Int32" where
  "FetchRequest_replica_id r = - 1"

definition set_max_wait_time :: "Int32 \<Rightarrow> FetchRequest \<Rightarrow> FetchRequest" where
  "set_max_wait_time t r = r\<lparr>max_wait_time := t\<rparr>"

definition set_min_bytes :: "Int32 \<Rightarrow> FetchRequest \<Rightarrow> FetchRequest" where
  "set_min_bytes n r = r\<lparr>min_bytes := n\<rparr>"

definition fetch_partition :: "FetchProps Partition" where
  "fetch_partition = \<lparr>partition_props = \<lparr>fetch_offset = 0, max_bytes = 0\<rparr>, partition_id = 0\<rparr>"

definition FetchTopic ::
  "String \<Rightarrow> Int32 \<Rightarrow> Int64 \<Rightarrow> Int32 \<Rightarrow> FetchRequest \<Rightarrow> FetchRequest" where
  "FetchTopic name p off maxb r =
     r\<lparr>fetch_topics := with_topic_partition empty_topic fetch_partition name p
         (\<lambda>it. it\<lparr>partition_props := (partition_props it)\<lparr>fetch_offset := off, max_bytes := maxb\<rparr>\<rparr>)
         (fetch_topics r)\<rparr>"

definition FetchRequest_Clear :: "FetchRequest \<Rightarrow> FetchRequest" where
  "FetchRequest_Clear r = r\<lparr>fetch_topics := []\<rparr>"

section \<open>OffsetRequest\<close>

record OffsetProps =
  offset_time :: Int64
  max_number_of_offsets :: Int32

record OffsetRequest = Request +
  offset_topics :: "(OffsetProps, unit) TopicPartitionBlock list"

definition OffsetRequest_ApiKey :: Int16 where
  "OffsetRequest_ApiKey = kApiKeyOffsetRequest"

definition OffsetRequest_new :: OffsetRequest where
  "OffsetRequest_new = \<lparr>correlation_id = kDefaultCorrelationId, request_client_id = [],
     offset_topics = []\<rparr>"

definition OffsetRequest_replica_id :: "OffsetRequest \<Rightarrow> Int32" where
  "OffsetRequest_replica_id r = - 1"

definition offset_partition :: "OffsetProps Partition" where
  "offset_partition =
     \<lparr>partition_props = \<lparr>offset_time = 0, max_number_of_offsets = 0\<rparr>, partition_id = 0\<rparr>"

definition FetchTopicOffset ::
  "String \<Rightarrow> Int32 \<Rightarrow> Int64 \<Rightarrow> Int32 \<Rightarrow> OffsetRequest \<Rightarrow> OffsetRequest" where
  "FetchTopicOffset name p tm maxn r =
     r\<lparr>offset_topics := with_topic_partition empty_topic offset_partition name p
         (\<lambda>it. it\<lparr>partition_props :=
            (partition_props it)\<lparr>offset_time := tm, max_number_of_offsets := maxn\<rparr>\<rparr>)
         (offset_topics r)\<rparr>"

definition OffsetRequest_Clear :: "OffsetRequest \<Rightarrow> OffsetRequest" where
  "OffsetRequest_Clear r = r\<lparr>offset_topics := []\<rparr>"

section \<open>MetadataRequest and ConsumerMetadataRequest\<close>

record MetadataRequest = Request +
  topic_names :: "String list"

definition MetadataRequest_ApiKey :: Int16 where
  "MetadataRequest_ApiKey = kApiKeyMetadataRequest"

definition MetadataRequest_new :: MetadataRequest where
  "MetadataRequest_new = \<lparr>correlation_id = kDefaultCorrelationId, request_client_id = [],
     topic_names = []\<rparr>"

definition AddTopicName :: "String \<Rightarrow> MetadataRequest \<Rightarrow> MetadataRequest" where
  "AddTopicName name r = r\<lparr>topic_names := topic_names r @ [name]\<rparr>"

definition MetadataRequest_Clear :: "MetadataRequest \<Rightarrow> MetadataRequest" where
  "MetadataRequest_Clear r = r\<lparr>topic_names := []\<rparr>"

record ConsumerMetadataRequest = Request +
  cm_consumer_group :: String

definition ConsumerMetadataRequest_ApiKey :: Int16 where
  "ConsumerMetadataRequest_ApiKey = kApiKeyConsumerMetadataRequest"

definition ConsumerMetadataRequest_set_consumer_group ::
  "String \<Rightarrow> ConsumerMetadataRequest \<Rightarrow> ConsumerMetadataRequest" where
  "ConsumerMetadataRequest_set_consumer_group g r = r\<lparr>cm_consumer_group := g\<rparr>"

section \<open>OffsetCommitRequest and OffsetFetchRequest\<close>

record CommitProps =
  commit_offset :: Int64
  timestamp :: Int64
  metadata :: String

record OffsetCommitRequest = Request +
  oc_consumer_group :: String
  oc_topics :: "(CommitProps, unit) TopicPartitionBlock list"

definition OffsetCommitRequest_ApiKey :: Int16 where
  "OffsetCommitRequest_ApiKey = kApiKeyOffsetCommitRequest"

definition OffsetCommitRequest_new :: OffsetCommitRequest where
  "OffsetCommitRequest_new = \<lparr>correlation_id = kDefaultCorrelationId, request_client_id = [],
     oc_consumer_group = [], oc_topics = []\<rparr>"

definition OffsetCommitRequest_set_consumer_group ::
  "String \<Rightarrow> OffsetCommitRequest \<Rightarrow> OffsetCommitRequest" where
  "OffsetCommitRequest_set_consumer_group g r = r\<lparr>oc_consumer_group := g\<rparr>"

definition commit_partition :: "CommitProps Partition" where
  "commit_partition = \<lparr>partition_props = \<lparr>commit_offset = 0, timestamp = 0, metadata = []\<rparr>,
     partition_id = 0\<rparr>"

definition CommitOffset ::
  "String \<Rightarrow> Int32 \<Rightarrow> Int64 \<Rightarrow> Int64 \<Rightarrow> String \<Rightarrow> OffsetCommitRequest \<Rightarrow> OffsetCommitRequest" where
  "CommitOffset name p off ts md r =
     r\<lparr>oc_topics := with_topic_partition empty_topic commit_partition name p
         (\<lambda>it. it\<lparr>partition_props :=
            (partition_props it)\<lparr>commit_offset := off, timestamp := ts, metadata := md\<rparr>\<rparr>)
         (oc_topics r)\<rparr>"

definition OffsetCommitRequest_Clear :: "OffsetCommitRequest \<Rightarrow> OffsetCommitRequest" where
  "OffsetCommitRequest_Clear r = r\<lparr>oc_topics := []\<rparr>"

record OffsetFetchRequest = Request +
  of_consumer_group :: String
  of_topics :: "(unit, unit) TopicPartitionBlock list"

definition OffsetFetchRequest_ApiKey :: Int16 where
  "OffsetFetchRequest_ApiKey = kApiKeyOffsetFetchRequest"

definition OffsetFetchRequest_new :: OffsetFetchRequest where
  "OffsetFetchRequest_new = \<lparr>correlation_id = kDefaultCorrelationId, request_client_id = [],
     of_consumer_group = [], of_topics = []\<rparr>"

definition OffsetFetchRequest_set_consumer_group ::
  "String \<Rightarrow> OffsetFetchRequest \<Rightarrow> OffsetFetchRequest" where
  "OffsetFetchRequest_set_consumer_group g r = r\<lparr>of_consumer_group := g\<rparr>"

definition FetchOffset :: "String \<Rightarrow> Int32 \<Rightarrow> OffsetFetchRequest \<Rightarrow> OffsetFetchRequest" where
  "FetchOffset name p r =
     r\<lparr>of_topics := with_topic_partition empty_topic \<lparr>partition_props = (), partition_id = 0\<rparr>
         name p (\<lambda>it. it) (of_topics r)\<rparr>"

section \<open>What the members do\<close>

text \<open>The messages a produce request holds for a topic-partition.\<close>

definition produced :: "ProduceRequest \<Rightarrow> String \<Rightarrow> Int32 \<Rightarrow> MessageSet" where
  "produced r name p =
     (case tp_lookup (produce_topics r) name p of None \<Rightarrow> [] | Some x \<Rightarrow> partition_props x)"

lemma produced_AddMessage:
  "produced (AddMessage m name p r) name' p' =
     produced r name' p' @ (if name' = name \<and> p' = p then [MessageAndOffset_of m 0] else [])"
  by (simp add: produced_def AddMessage_def tp_lookup_with_topic_partition produce_partition_def
      split: option.splits)

lemma AddMessage_frame:
  "correlation_id (AddMessage m name p r) = correlation_id r"
  "required_acks (AddMessage m name p r) = required_acks r"
  "timeout (AddMessage m name p r) = timeout r"
  by (simp_all add: AddMessage_def)

lemma well_formed_AddMessage:
  "well_formed_topics (produce_topics r) \<Longrightarrow>
   well_formed_topics (produce_topics (AddMessage m name p r))"
  unfolding AddMessage_def by (simp add: well_formed_with_topic_partition)

text \<open>
  Adding a set of messages appends them, in order and with offset 0, to the message set of their
  topic-partition, creating topic and partition when needed, and changes no other topic-partition.
\<close>

lemma produced_AddMessageSet:
  "produced (AddMessageSet ms name p r) name' p' =
     produced r name' p' @ (if name' = name \<and> p' = p then map (\<lambda>m. MessageAndOffset_of m 0) ms else [])"
proof -
  have "produced (fold (\<lambda>m. AddMessage m name p) ms r) name' p' =
      produced r name' p' @ (if name' = name \<and> p' = p then map (\<lambda>m. MessageAndOffset_of m 0) ms else [])"
    by (induction ms arbitrary: r) (auto simp: produced_AddMessage)
  then show ?thesis by (simp add: AddMessageSet_def)
qed

lemma well_formed_Nil [simp]: "well_formed_topics []"
  by (simp add: well_formed_topics_def)

lemma well_formed_filter: "well_formed_topics ts \<Longrightarrow> well_formed_topics (filter P ts)"
  by (simp add: well_formed_topics_def distinct_map_filter)

lemma well_formed_filter_partitions:
  assumes "well_formed_topics ts"
  shows "well_formed_topics (ts[i := (ts ! i)\<lparr>partitions := filter P (partitions (ts ! i))\<rparr>])"
proof (cases "i < length ts")
  case True
  have "map topic_name (ts[i := (ts ! i)\<lparr>partitions := ps\<rparr>]) = map topic_name ts" for ps
    using True by (simp add: map_update list_update_same_conv)
  moreover have "distinct (map partition_id (partitions (ts ! i)))"
    using assms True by (simp add: well_formed_topics_def)
  ultimately show ?thesis
    using assms unfolding well_formed_topics_def
    by (auto dest!: set_update_subset_insert [THEN subsetD] simp: distinct_map_filter)
qed (simp add: assms list_update_beyond)

text \<open>
  C35: a topic appears once in a request, and a partition once in a topic. Every new request is well
  formed in this sense, and every member function that changes the topics of a produce, fetch,
  offset, offset commit or offset fetch request keeps it so, whatever its arguments.
\<close>

theorem requests_well_formed:
  assumes "well_formed_topics (produce_topics r)" and "well_formed_topics (fetch_topics f)"
    and "well_formed_topics (offset_topics q)" and "well_formed_topics (oc_topics c)"
    and "well_formed_topics (of_topics g)"
  shows "well_formed_topics (produce_topics ProduceRequest_new) \<and>
    well_formed_topics (produce_topics (AddMessage m name p r)) \<and>
    well_formed_topics (produce_topics (AddValue_Bytes bytes name p r)) \<and>
    well_formed_topics (produce_topics (AddValue value name p r)) \<and>
    well_formed_topics (produce_topics (AddMessageSet ms name p r)) \<and>
    well_formed_topics (produce_topics (ClearTopic name r)) \<and>
    well_formed_topics (produce_topics (ClearTopicPartition name p r)) \<and>
    well_formed_topics (produce_topics (ProduceRequest_Clear r)) \<and>
    well_formed_topics (fetch_topics FetchRequest_new) \<and>
    well_formed_topics (fetch_topics (FetchTopic name p off mb f)) \<and>
    well_formed_topics (fetch_topics (FetchRequest_Clear f)) \<and>
    well_formed_topics (offset_topics OffsetRequest_new) \<and>
    well_formed_topics (offset_topics (FetchTopicOffset name p tm mn q)) \<and>
    well_formed_topics (offset_topics (OffsetRequest_Clear q)) \<and>
    well_formed_topics (oc_topics OffsetCommitRequest_new) \<and>
    well_formed_topics (oc_topics (CommitOffset name p off tm md c)) \<and>
    well_formed_topics (oc_topics (OffsetCommitRequest_Clear c)) \<and>
    well_formed_topics (of_topics OffsetFetchRequest_new) \<and>
    well_formed_topics (of_topics (FetchOffset name p g))"
proof (intro conjI)
  have "well_formed_topics (produce_topics (fold (\<lambda>m. AddMessage m name p) ms r))"
    using assms(1) by (induction ms arbitrary: r) (auto simp: well_formed_AddMessage)
  then show "well_formed_topics (produce_topics (AddMessageSet ms name p r))" by (simp add: AddMessageSet_def)
  show "well_formed_topics (produce_topics (ClearTopicPartition name p r))"
    using assms(1) by (simp add: ClearTopicPartition_def Let_def well_formed_filter_partitions)
qed (use assms in \<open>simp_all add: well_formed_AddMessage AddValue_Bytes_def AddValue_def ClearTopic_def well_formed_filter
    ProduceRequest_Clear_def FetchTopic_def FetchRequest_Clear_def FetchTopicOffset_def OffsetRequest_Clear_def
    CommitOffset_def OffsetCommitRequest_Clear_def FetchOffset_def well_formed_with_topic_partition
    ProduceRequest_new_def FetchRequest_new_def OffsetRequest_new_def OffsetCommitRequest_new_def OffsetFetchRequest_new_def\<close>)

theorem requests_well_formed_witness:
  "well_formed_topics (produce_topics (AddValue [1] (str ''logs'') 3 (AddValue [2] (str ''logs'') 3 ProduceRequest_new)))"
proof -
  have "well_formed_topics (produce_topics (AddValue [2] (str ''logs'') 3 ProduceRequest_new))"
      "well_formed_topics (fetch_topics FetchRequest_new)" "well_formed_topics (offset_topics OffsetRequest_new)"
      "well_formed_topics (oc_topics OffsetCommitRequest_new)"
      "well_formed_topics (of_topics OffsetFetchRequest_new)"
    by (simp_all add: AddValue_def well_formed_AddMessage ProduceRequest_new_def FetchRequest_new_def
        OffsetRequest_new_def OffsetCommitRequest_new_def OffsetFetchRequest_new_def)
  from requests_well_formed [OF this, of _ "str ''logs''" 3 _ "[1]"] show ?thesis by blast
qed

lemma tp_lookup_filter_partition:
  "topic_vec.vlookup (ts[find_if (IsTopicWithName n) ts := (ts ! find_if (IsTopicWithName n) ts)
      \<lparr>partitions := ps\<rparr>]) n' =
   (if n' = n \<and> find_if (IsTopicWithName n) ts < length ts
    then Some ((ts ! find_if (IsTopicWithName n) ts)\<lparr>partitions := ps\<rparr>)
    else topic_vec.vlookup ts n')"
proof -
  let ?P = "IsTopicWithName n" and ?i = "find_if (IsTopicWithName n) ts"
  let ?y = "(ts ! ?i)\<lparr>partitions := ps\<rparr>"
  have eq: "(\<lambda>x. topic_name x = m) = IsTopicWithName m" for m
    by (simp add: IsTopicWithName_def fun_eq_iff)
  show ?thesis
  proof (cases "?i < length ts")
    case True
    then have "?P (ts ! ?i)" by (rule find_if_nth)
    then have "?P ?y" by (simp add: IsTopicWithName_def)
    then have "find_if ?P (ts[?i := ?y]) = ?i"
      using \<open>?P (ts ! ?i)\<close> by (intro find_if_update) simp
    then have "topic_vec.vlookup (ts[?i := ?y]) n = Some ?y"
      using True by (simp add: topic_vec.vlookup_def eq find_if_List_find)
    moreover have "n' \<noteq> n \<Longrightarrow> topic_vec.vlookup (ts[?i := ?y]) n' = topic_vec.vlookup ts n'"
      using True \<open>?P (ts ! ?i)\<close> unfolding topic_vec.vlookup_def
      by (intro List_find_update) (auto simp: IsTopicWithName_def)
    ultimately show ?thesis using True by auto
  qed (simp add: list_update_beyond)
qed

text \<open>
  \<^verbatim>\<open>ClearTopicPartition\<close> drops the messages of the given topic-partition and of no other;
  \<^verbatim>\<open>ClearTopic\<close> drops those of every partition of the topic; \<^verbatim>\<open>Clear\<close> drops all.
\<close>

theorem Clear_members_correct:
  "produced (ClearTopicPartition name p r) name' p' =
     (if name' = name \<and> p' = p then [] else produced r name' p') \<and>
   produced (ClearTopic name r) name' p' = (if name' = name then [] else produced r name' p') \<and>
   produced (ProduceRequest_Clear r) name' p' = []"
proof -
  let ?ts = "produce_topics r"
  have f: "List.find P (filter Q xs) = List.find (\<lambda>x. Q x \<and> P x) xs" for P Q :: "'z \<Rightarrow> bool" and xs
    by (induction xs) auto
  have l: "topic_vec.vlookup ?ts name = Some (?ts ! find_if (IsTopicWithName name) ?ts)"
    if "find_if (IsTopicWithName name) ?ts < length ?ts"
    using that by (simp add: topic_vec.vlookup_def IsTopicWithName_def [abs_def] find_if_List_find)
  have n: "topic_vec.vlookup ?ts name = None"
    if "find_if (IsTopicWithName name) ?ts = length ?ts"
    using that by (auto simp: topic_vec.vlookup_def IsTopicWithName_def [abs_def]
        find_if_end find_None_iff)
  have pf: "partition_vec.vlookup (filter (\<lambda>q. \<not> IsTopicPartition p q) ps) q =
      (if q = p then None else partition_vec.vlookup ps q)" for ps :: "MessageSet Partition list" and q
    by (auto simp: partition_vec.vlookup_def f IsTopicPartition_def find_None_iff
        intro!: arg_cong [where f = "\<lambda>P. List.find P ps"])
  have tf: "topic_vec.vlookup (filter (\<lambda>t. \<not> IsTopicWithName name t) ?ts) m =
      (if m = name then None else topic_vec.vlookup ?ts m)" for m
    by (auto simp: topic_vec.vlookup_def f IsTopicWithName_def find_None_iff
        intro!: arg_cong [where f = "\<lambda>P. List.find P ?ts"])
  have "produced (ClearTopicPartition name p r) name' p' =
     (if name' = name \<and> p' = p then [] else produced r name' p')"
    using find_if_le [of "IsTopicWithName name" ?ts] l n
    by (auto simp: produced_def tp_lookup_def ClearTopicPartition_def Let_def
        tp_lookup_filter_partition pf split: option.splits)
  moreover have "produced (ClearTopic name r) name' p' =
      (if name' = name then [] else produced r name' p')"
    by (simp add: produced_def tp_lookup_def ClearTopic_def tf)
  moreover have "produced (ProduceRequest_Clear r) name' p' = []"
    by (simp add: produced_def tp_lookup_def ProduceRequest_Clear_def topic_vec.vlookup_Nil)
  ultimately show ?thesis by blast
qed

text \<open>
  The members that ask for a topic-partition set exactly its entry, overriding an earlier
  one, and leave the entries of all other topic-partitions as they were.
\<close>

theorem topic_partition_members_correct:
  "map_option partition_props (tp_lookup (fetch_topics (FetchTopic name p off mb fr)) name' p') =
     (if name' = name \<and> p' = p then Some \<lparr>fetch_offset = off, max_bytes = mb\<rparr>
      else map_option partition_props (tp_lookup (fetch_topics fr) name' p')) \<and>
   map_option partition_props (tp_lookup (offset_topics (FetchTopicOffset name p tm mn ofr)) name' p') =
     (if name' = name \<and> p' = p then Some \<lparr>offset_time = tm, max_number_of_offsets = mn\<rparr>
      else map_option partition_props (tp_lookup (offset_topics ofr) name' p')) \<and>
   map_option partition_props (tp_lookup (oc_topics (CommitOffset name p off ts md cr)) name' p') =
     (if name' = name \<and> p' = p
      then Some \<lparr>commit_offset = off, timestamp = ts, metadata = md\<rparr>
      else map_option partition_props (tp_lookup (oc_topics cr) name' p'))"
  by (simp add: FetchTopic_def FetchTopicOffset_def CommitOffset_def
      tp_lookup_with_topic_partition fetch_partition_def offset_partition_def commit_partition_def
      split: option.splits)

end
