(* ===== verification/Request_Write.thy ===== *)
theory Request_Write
  imports Requests
begin

text \<open>
  \<^verbatim>\<open>detail/impl/request_write.h\<close> (\<^verbatim>\<open>RequestWireSize\<close>, \<^verbatim>\<open>WriteRequest\<close>) and the seven
  \<^verbatim>\<open>detail/impl/*_request_write.h\<close>: the announced size and the bytes of every request. The
  template parameter of \<^verbatim>\<open>WriteRequest\<close> is given by the three functions it calls. The locale
  \<open>request_format\<close> is what a request class has to promise for its frames to be correct: the
  announced size is the number of bytes, as a 32-bit value, without any bound on the request.
\<close>

section \<open>Frames\<close>

definition RequestWireSize ::
  "('a Request_scheme \<Rightarrow> Int32) \<Rightarrow> 'a Request_scheme \<Rightarrow> String \<Rightarrow> Int32" where
  "RequestWireSize RequestMessageWireSize request client_id =
     2 + 2 + 4 + StringWireSize client_id + RequestMessageWireSize request"

definition WriteRequest ::
  "Int16 \<Rightarrow> ('a Request_scheme \<Rightarrow> Int32) \<Rightarrow> ('a Request_scheme \<Rightarrow> Byte list \<Rightarrow> Byte list) \<Rightarrow>
   'a Request_scheme \<Rightarrow> String \<Rightarrow> Byte list \<Rightarrow> Byte list" where
  "WriteRequest api_key RequestMessageWireSize WriteRequestMessage request client_id os =
     (let os = WriteInt32 (RequestWireSize RequestMessageWireSize request client_id) os;
          os = WriteInt16 api_key os;
          os = WriteInt16 (api_version request) os;
          os = WriteInt32 (correlation_id request) os;
          os = WriteString client_id os
      in WriteRequestMessage request os)"

section \<open>Request bodies\<close>

definition RequestMessageWireSize_Metadata :: "MetadataRequest \<Rightarrow> Int32" where
  "RequestMessageWireSize_Metadata request =
     fold (\<lambda>name size. size + StringWireSize name) (topic_names request) 4"

definition WriteRequestMessage_Metadata :: "MetadataRequest \<Rightarrow> Byte list \<Rightarrow> Byte list" where
  "WriteRequestMessage_Metadata request os =
     (let os = WriteInt32 (of_nat (length (topic_names request))) os
      in fold WriteString (topic_names request) os)"

definition RequestMessageWireSize_Produce :: "ProduceRequest \<Rightarrow> Int32" where
  "RequestMessageWireSize_Produce request =
     (let size = 2 + 4; size = size + 4
      in fold (\<lambda>topic size.
           let size = size + StringWireSize (topic_name topic); size = size + 4
           in fold (\<lambda>partition size. size + (4 + 4 + MessageSetWireSize (partition_props partition)))
                (partitions topic) size)
         (produce_topics request) size)"

definition WriteRequestMessage_Produce ::
  "(Byte list \<Rightarrow> Int32) \<Rightarrow> ProduceRequest \<Rightarrow> Byte list \<Rightarrow> Byte list" where
  "WriteRequestMessage_Produce crc32 request os =
     (let os = WriteInt16 (required_acks request) os;
          os = WriteInt32 (timeout request) os;
          os = WriteInt32 (of_nat (length (produce_topics request))) os
      in fold (\<lambda>topic os.
           let os = WriteString (topic_name topic) os;
               os = WriteInt32 (of_nat (length (partitions topic))) os
           in fold (\<lambda>partition os.
                let os = WriteInt32 (partition_id partition) os;
                    os = WriteInt32 (MessageSetWireSize (partition_props partition)) os
                in WriteMessageSet crc32 (partition_props partition) os) (partitions topic) os)
         (produce_topics request) os)"

definition RequestMessageWireSize_Fetch :: "FetchRequest \<Rightarrow> Int32" where
  "RequestMessageWireSize_Fetch request =
     (let size = 4 + 4 + 4; size = size + 4
      in fold (\<lambda>topic size.
           let size = size + StringWireSize (topic_name topic)
           in size + of_nat (4 + length (partitions topic) * (4 + 8 + 4)))
         (fetch_topics request) size)"

definition WriteRequestMessage_Fetch :: "FetchRequest \<Rightarrow> Byte list \<Rightarrow> Byte list" where
  "WriteRequestMessage_Fetch request os =
     (let os = WriteInt32 (FetchRequest_replica_id request) os;
          os = WriteInt32 (max_wait_time request) os;
          os = WriteInt32 (min_bytes request) os;
          os = WriteInt32 (of_nat (length (fetch_topics request))) os
      in fold (\<lambda>topic os.
           let os = WriteString (topic_name topic) os;
               os = WriteInt32 (of_nat (length (partitions topic))) os
           in fold (\<lambda>partition os.
                let os = WriteInt32 (partition_id partition) os;
                    os = WriteInt64 (fetch_offset (partition_props partition)) os
                in WriteInt32 (max_bytes (partition_props partition)) os) (partitions topic) os)
         (fetch_topics request) os)"

definition RequestMessageWireSize_Offset :: "OffsetRequest \<Rightarrow> Int32" where
  "RequestMessageWireSize_Offset request =
     (let size = 4; size = size + 4
      in fold (\<lambda>topic size.
           let size = size + StringWireSize (topic_name topic);
               size = size + 4
           in size + of_nat (length (partitions topic) * (4 + 8 + 4)))
         (offset_topics request) size)"

definition WriteRequestMessage_Offset :: "OffsetRequest \<Rightarrow> Byte list \<Rightarrow> Byte list" where
  "WriteRequestMessage_Offset request os =
     (let os = WriteInt32 (OffsetRequest_replica_id request) os;
          os = WriteInt32 (of_nat (length (offset_topics request))) os
      in fold (\<lambda>topic os.
           let os = WriteString (topic_name topic) os;
               os = WriteInt32 (of_nat (length (partitions topic))) os
           in fold (\<lambda>partition os.
                let os = WriteInt32 (partition_id partition) os;
                    os = WriteInt64 (offset_time (partition_props partition)) os
                in WriteInt32 (max_number_of_offsets (partition_props partition)) os)
              (partitions topic) os)
         (offset_topics request) os)"

definition RequestMessageWireSize_ConsumerMetadata :: "ConsumerMetadataRequest \<Rightarrow> Int32" where
  "RequestMessageWireSize_ConsumerMetadata request = StringWireSize (cm_consumer_group request)"

definition WriteRequestMessage_ConsumerMetadata ::
  "ConsumerMetadataRequest \<Rightarrow> Byte list \<Rightarrow> Byte list" where
  "WriteRequestMessage_ConsumerMetadata request os = WriteString (cm_consumer_group request) os"

definition RequestMessageWireSize_OffsetCommit :: "OffsetCommitRequest \<Rightarrow> Int32" where
  "RequestMessageWireSize_OffsetCommit request =
     (let size = StringWireSize (oc_consumer_group request); size = size + 4
      in fold (\<lambda>topic size.
           let size = size + 4
           in fold (\<lambda>partition size.
                size + (4 + 8 + 8 + StringWireSize (metadata (partition_props partition))))
              (partitions topic) size)
         (oc_topics request) size)"

definition WriteRequestMessage_OffsetCommit ::
  "OffsetCommitRequest \<Rightarrow> Byte list \<Rightarrow> Byte list" where
  "WriteRequestMessage_OffsetCommit request os =
     (let os = WriteString (oc_consumer_group request) os;
          os = WriteInt32 (of_nat (length (oc_topics request))) os
      in fold (\<lambda>topic os.
           let os = WriteString (topic_name topic) os;
               os = WriteInt32 (of_nat (length (partitions topic))) os
           in fold (\<lambda>partition os.
                let os = WriteInt32 (partition_id partition) os;
                    os = WriteInt64 (commit_offset (partition_props partition)) os;
                    os = WriteInt64 (timestamp (partition_props partition)) os
                in WriteString (metadata (partition_props partition)) os) (partitions topic) os)
         (oc_topics request) os)"

definition RequestMessageWireSize_OffsetFetch :: "OffsetFetchRequest \<Rightarrow> Int32" where
  "RequestMessageWireSize_OffsetFetch request =
     (let size = StringWireSize (of_consumer_group request); size = size + 4
      in fold (\<lambda>topic size.
           let size = size + StringWireSize (topic_name topic);
               size = size + 4
           in size + of_nat (length (partitions topic) * 4))
         (of_topics request) size)"

definition WriteRequestMessage_OffsetFetch ::
  "OffsetFetchRequest \<Rightarrow> Byte list \<Rightarrow> Byte list" where
  "WriteRequestMessage_OffsetFetch request os =
     (let os = WriteString (of_consumer_group request) os;
          os = WriteInt32 (of_nat (length (of_topics request))) os
      in fold (\<lambda>topic os.
           let os = WriteString (topic_name topic) os;
               os = WriteInt32 (of_nat (length (partitions topic))) os
           in fold (\<lambda>partition os. WriteInt32 (partition_id partition) os) (partitions topic) os)
         (of_topics request) os)"

section \<open>The contract of a request class\<close>

locale request_format = sized_appender wr_msg sz_msg
  for wr_msg :: "'a Request_scheme \<Rightarrow> Byte list \<Rightarrow> Byte list" and sz_msg :: "'a Request_scheme \<Rightarrow> Int32" +
  fixes api_key :: Int16
begin

definition frame :: "'a Request_scheme \<Rightarrow> String \<Rightarrow> Byte list" where
  "frame r cid = be_bytes 2 api_key @ be_bytes 2 (0 :: Int16) @ be_bytes 4 (correlation_id r) @
     be_bytes 2 (of_nat (length cid) :: Int16) @ cid @ wr_msg r []"

lemma write_request_frame:
  "WriteRequest api_key sz_msg wr_msg r cid os =
   os @ be_bytes 4 (of_nat (length (frame r cid)) :: Int32) @ frame r cid"
proof -
  have "RequestWireSize sz_msg r cid = of_nat (length (frame r cid))"
    by (simp add: RequestWireSize_def StringWireSize_def frame_def sz_length)
  then show ?thesis
    unfolding WriteRequest_def Let_def
    by (subst wr_append) (simp add: wire_simps api_version_def frame_def)
qed

end

section \<open>Topic arrays\<close>

text \<open>
  All topic arrays have one layout: the topic name, the number of partitions, the partitions.
  Given a partition writer with a correct size, the writer of a topic has a correct size too.
\<close>

locale partition_format = sized_appender wr_p sz_p
  for wr_p :: "'p Partition \<Rightarrow> Byte list \<Rightarrow> Byte list" and sz_p :: "'p Partition \<Rightarrow> Int32"
begin

definition wr_topic :: "('p, 't) TopicPartitionBlock \<Rightarrow> Byte list \<Rightarrow> Byte list" where
  "wr_topic topic os = fold wr_p (partitions topic)
     (WriteInt32 (of_nat (length (partitions topic))) (WriteString (topic_name topic) os))"

definition sz_topic :: "('p, 't) TopicPartitionBlock \<Rightarrow> Int32" where
  "sz_topic topic = StringWireSize (topic_name topic) + 4 +
     of_nat (length (fold wr_p (partitions topic) []))"

lemma wr_topic_append: "wr_topic topic os = os @ wr_topic topic []"
  unfolding wr_topic_def
  by (subst (1 2) fold_append) (simp add: wire_simps)

lemma sz_topic_length: "sz_topic topic = of_nat (length (wr_topic topic []))"
  unfolding wr_topic_def sz_topic_def
  by (subst (2) fold_append) (simp add: wire_simps StringWireSize_def)

sublocale topic: sized_appender wr_topic sz_topic
  by unfold_locales (rule wr_topic_append, rule sz_topic_length)

end

definition wr_produce_partition ::
  "(Byte list \<Rightarrow> Int32) \<Rightarrow> MessageSet Partition \<Rightarrow> Byte list \<Rightarrow> Byte list" where
  "wr_produce_partition crc32 q os = WriteMessageSet crc32 (partition_props q)
     (WriteInt32 (MessageSetWireSize (partition_props q)) (WriteInt32 (partition_id q) os))"

definition wr_fetch_partition :: "FetchProps Partition \<Rightarrow> Byte list \<Rightarrow> Byte list" where
  "wr_fetch_partition q os = WriteInt32 (max_bytes (partition_props q))
     (WriteInt64 (fetch_offset (partition_props q)) (WriteInt32 (partition_id q) os))"

definition wr_offset_partition :: "OffsetProps Partition \<Rightarrow> Byte list \<Rightarrow> Byte list" where
  "wr_offset_partition q os = WriteInt32 (max_number_of_offsets (partition_props q))
     (WriteInt64 (offset_time (partition_props q)) (WriteInt32 (partition_id q) os))"

definition wr_commit_partition :: "CommitProps Partition \<Rightarrow> Byte list \<Rightarrow> Byte list" where
  "wr_commit_partition q os = WriteString (metadata (partition_props q))
     (WriteInt64 (timestamp (partition_props q))
       (WriteInt64 (commit_offset (partition_props q)) (WriteInt32 (partition_id q) os)))"

lemma MessageSetWireSize_length:
  "MessageSetWireSize ms = of_nat (length (WriteMessageSet crc32 ms []))"
  by (rule message_set_size.sz_length)

lemma WriteMessageSet_append: "WriteMessageSet crc32 ms os = os @ WriteMessageSet crc32 ms []"
  by (rule message_set_size.wr_append)

interpretation produce_part: partition_format "wr_produce_partition crc32"
    "\<lambda>q. 4 + 4 + MessageSetWireSize (partition_props q)"
  for crc32 :: "Byte list \<Rightarrow> Int32"
proof
  fix x os
  show "wr_produce_partition crc32 x os = os @ wr_produce_partition crc32 x []"
    unfolding wr_produce_partition_def
    by (subst (1 2) WriteMessageSet_append) (simp add: wire_simps)
  show "4 + 4 + MessageSetWireSize (partition_props x) =
      of_nat (length (wr_produce_partition crc32 x []))"
    unfolding wr_produce_partition_def
    by (subst WriteMessageSet_append)
      (simp add: wire_simps MessageSetWireSize_length [of _ crc32])
qed

interpretation fetch_part: partition_format wr_fetch_partition "\<lambda>_. 16"
  by unfold_locales (simp_all add: wr_fetch_partition_def wire_simps)

interpretation offset_part: partition_format wr_offset_partition "\<lambda>_. 16"
  by unfold_locales (simp_all add: wr_offset_partition_def wire_simps)

interpretation commit_part: partition_format wr_commit_partition
    "\<lambda>q. 4 + 8 + 8 + StringWireSize (metadata (partition_props q))"
  by unfold_locales (simp_all add: wr_commit_partition_def wire_simps StringWireSize_def)

interpretation of_part: partition_format "\<lambda>q :: unit Partition. WriteInt32 (partition_id q)" "\<lambda>_. 4"
  by unfold_locales (simp_all add: wire_simps)

section \<open>The request classes keep the contract\<close>

text \<open>The topic loops of the writers and of the sizes are the locale's ones.\<close>

lemma fold_lambda_cong: "(\<And>x s. f x s = g x s) \<Longrightarrow> fold f xs s = fold g xs s"
  by (induction xs arbitrary: s) simp_all

lemma WriteRequestMessage_Produce_eq:
  "WriteRequestMessage_Produce crc32 r os = fold (produce_part.wr_topic crc32) (produce_topics r)
     (os @ be_bytes 2 (required_acks r) @ be_bytes 4 (timeout r) @
      be_bytes 4 (of_nat (length (produce_topics r)) :: Int32))"
proof -
  have "fold (\<lambda>topic os.
      fold (\<lambda>partition os. WriteMessageSet crc32 (partition_props partition)
          (WriteInt32 (MessageSetWireSize (partition_props partition))
            (WriteInt32 (partition_id partition) os))) (partitions topic)
        (WriteInt32 (of_nat (length (partitions topic))) (WriteString (topic_name topic) os)))
      (produce_topics r) os = fold (produce_part.wr_topic crc32) (produce_topics r) os" for os
    by (rule fold_lambda_cong)
      (simp only: produce_part.wr_topic_def, simp only: wr_produce_partition_def [abs_def])
  then show ?thesis
    unfolding WriteRequestMessage_Produce_def Let_def
    by (simp add: WriteInt16_eq [of "required_acks r"] WriteInt32_eq [of "timeout r"]
        WriteInt32_eq [of "of_nat (length (produce_topics r))"])
qed

lemma produce_partitions_size:
  "fold (\<lambda>q n. n + (4 + 4 + MessageSetWireSize (partition_props q))) qs n =
   n + of_nat (length (fold (wr_produce_partition crc32) qs []))"
  by (rule produce_part.fold_size)

lemma RequestMessageWireSize_Produce_eq:
  "RequestMessageWireSize_Produce r =
     10 + of_nat (length (fold (produce_part.wr_topic crc32) (produce_topics r) []))"
proof -
  have "fold (\<lambda>topic size.
      fold (\<lambda>partition size. size + (4 + 4 + MessageSetWireSize (partition_props partition)))
        (partitions topic) (size + StringWireSize (topic_name topic) + 4)) (produce_topics r) n =
      fold (\<lambda>t n. n + produce_part.sz_topic crc32 t) (produce_topics r) n" for n
    by (rule fold_lambda_cong)
      (simp only: produce_part.sz_topic_def produce_partitions_size [of _ _ crc32], simp)
  then show ?thesis
    by (simp add: RequestMessageWireSize_Produce_def Let_def produce_part.topic.fold_size)
qed

interpretation produce_request: request_format "WriteRequestMessage_Produce crc32"
    RequestMessageWireSize_Produce ProduceRequest_ApiKey
  for crc32 :: "Byte list \<Rightarrow> Int32"
proof
  fix r os
  show "WriteRequestMessage_Produce crc32 r os = os @ WriteRequestMessage_Produce crc32 r []"
    unfolding WriteRequestMessage_Produce_eq
    by (subst (1 2) produce_part.topic.fold_append) simp
  show "RequestMessageWireSize_Produce r = of_nat (length (WriteRequestMessage_Produce crc32 r []))"
    unfolding WriteRequestMessage_Produce_eq RequestMessageWireSize_Produce_eq [of r crc32]
    by (subst (2) produce_part.topic.fold_append) simp
qed

lemma fetch_topic_length:
  "length (fold wr_fetch_partition qs []) = length qs * 16"
  by (rule fetch_part.length_fold_fixed) (simp add: wr_fetch_partition_def wire_simps)

lemma offset_topic_length:
  "length (fold wr_offset_partition qs []) = length qs * 16"
  by (rule offset_part.length_fold_fixed) (simp add: wr_offset_partition_def wire_simps)

lemma of_topic_length:
  "length (fold (\<lambda>q. WriteInt32 (partition_id q)) (qs :: unit Partition list) []) = length qs * 4"
  by (rule of_part.length_fold_fixed) (simp add: wire_simps)

lemma WriteRequestMessage_Fetch_eq:
  "WriteRequestMessage_Fetch r os = fold fetch_part.wr_topic (fetch_topics r)
     (os @ be_bytes 4 (FetchRequest_replica_id r) @ be_bytes 4 (max_wait_time r) @
      be_bytes 4 (min_bytes r) @ be_bytes 4 (of_nat (length (fetch_topics r)) :: Int32))"
  unfolding WriteRequestMessage_Fetch_def Let_def
  by (subst fold_lambda_cong [where g = fetch_part.wr_topic])
    (simp only: fetch_part.wr_topic_def, simp only: wr_fetch_partition_def [abs_def],
      simp add: WriteInt32_eq)

lemma RequestMessageWireSize_Fetch_eq:
  "RequestMessageWireSize_Fetch r =
     16 + of_nat (length (fold fetch_part.wr_topic (fetch_topics r) []))"
  unfolding RequestMessageWireSize_Fetch_def Let_def
  by (subst fold_lambda_cong [where g = "\<lambda>t n. n + fetch_part.sz_topic t"])
    (simp add: fetch_part.sz_topic_def fetch_topic_length, simp add: fetch_part.topic.fold_size)

interpretation fetch_request: request_format WriteRequestMessage_Fetch
    RequestMessageWireSize_Fetch FetchRequest_ApiKey
proof
  fix r os
  show "WriteRequestMessage_Fetch r os = os @ WriteRequestMessage_Fetch r []"
    unfolding WriteRequestMessage_Fetch_eq
    by (subst (1 2) fetch_part.topic.fold_append) simp
  show "RequestMessageWireSize_Fetch r = of_nat (length (WriteRequestMessage_Fetch r []))"
    unfolding WriteRequestMessage_Fetch_eq RequestMessageWireSize_Fetch_eq
    by (subst (2) fetch_part.topic.fold_append) simp
qed

lemma WriteRequestMessage_Offset_eq:
  "WriteRequestMessage_Offset r os = fold offset_part.wr_topic (offset_topics r)
     (os @ be_bytes 4 (OffsetRequest_replica_id r) @
      be_bytes 4 (of_nat (length (offset_topics r)) :: Int32))"
  unfolding WriteRequestMessage_Offset_def Let_def
  by (subst fold_lambda_cong [where g = offset_part.wr_topic])
    (simp only: offset_part.wr_topic_def, simp only: wr_offset_partition_def [abs_def],
      simp add: WriteInt32_eq)

lemma RequestMessageWireSize_Offset_eq:
  "RequestMessageWireSize_Offset r =
     8 + of_nat (length (fold offset_part.wr_topic (offset_topics r) []))"
  unfolding RequestMessageWireSize_Offset_def Let_def
  by (subst fold_lambda_cong [where g = "\<lambda>t n. n + offset_part.sz_topic t"])
    (simp add: offset_part.sz_topic_def offset_topic_length, simp add: offset_part.topic.fold_size)

interpretation offset_request: request_format WriteRequestMessage_Offset
    RequestMessageWireSize_Offset OffsetRequest_ApiKey
proof
  fix r os
  show "WriteRequestMessage_Offset r os = os @ WriteRequestMessage_Offset r []"
    unfolding WriteRequestMessage_Offset_eq
    by (subst (1 2) offset_part.topic.fold_append) simp
  show "RequestMessageWireSize_Offset r = of_nat (length (WriteRequestMessage_Offset r []))"
    unfolding WriteRequestMessage_Offset_eq RequestMessageWireSize_Offset_eq
    by (subst (2) offset_part.topic.fold_append) simp
qed

interpretation metadata_request: request_format WriteRequestMessage_Metadata
    RequestMessageWireSize_Metadata MetadataRequest_ApiKey
proof
  fix r os
  show "WriteRequestMessage_Metadata r os = os @ WriteRequestMessage_Metadata r []"
    unfolding WriteRequestMessage_Metadata_def Let_def
    by (subst (1 2) wstring.fold_append) (simp add: wire_simps)
  show "RequestMessageWireSize_Metadata r = of_nat (length (WriteRequestMessage_Metadata r []))"
    unfolding WriteRequestMessage_Metadata_def RequestMessageWireSize_Metadata_def Let_def
    by (subst wstring.fold_append) (simp add: wire_simps string_size.fold_size)
qed

interpretation consumer_metadata_request: request_format WriteRequestMessage_ConsumerMetadata
    RequestMessageWireSize_ConsumerMetadata ConsumerMetadataRequest_ApiKey
  by unfold_locales
    (simp_all add: WriteRequestMessage_ConsumerMetadata_def
      RequestMessageWireSize_ConsumerMetadata_def wire_simps StringWireSize_def)

lemma WriteRequestMessage_OffsetFetch_eq:
  "WriteRequestMessage_OffsetFetch r os = fold of_part.wr_topic (of_topics r)
     (WriteInt32 (of_nat (length (of_topics r))) (WriteString (of_consumer_group r) os))"
  unfolding WriteRequestMessage_OffsetFetch_def Let_def
  by (subst fold_lambda_cong [where g = of_part.wr_topic]) (simp_all add: of_part.wr_topic_def)

lemma RequestMessageWireSize_OffsetFetch_eq:
  "RequestMessageWireSize_OffsetFetch r = StringWireSize (of_consumer_group r) +
     4 + of_nat (length (fold of_part.wr_topic (of_topics r) []))"
  unfolding RequestMessageWireSize_OffsetFetch_def Let_def
  by (subst fold_lambda_cong [where g = "\<lambda>t n. n + of_part.sz_topic t"])
    (simp add: of_part.sz_topic_def of_topic_length, simp add: of_part.topic.fold_size)

interpretation offset_fetch_request: request_format WriteRequestMessage_OffsetFetch
    RequestMessageWireSize_OffsetFetch OffsetFetchRequest_ApiKey
proof
  fix r os
  show "WriteRequestMessage_OffsetFetch r os = os @ WriteRequestMessage_OffsetFetch r []"
    unfolding WriteRequestMessage_OffsetFetch_eq
    by (subst (1 2) of_part.topic.fold_append) (simp add: wire_simps)
  show "RequestMessageWireSize_OffsetFetch r = of_nat (length (WriteRequestMessage_OffsetFetch r []))"
    unfolding WriteRequestMessage_OffsetFetch_eq RequestMessageWireSize_OffsetFetch_eq
    by (subst (2) of_part.topic.fold_append) (simp add: wire_simps StringWireSize_def)
qed

lemma fold_minus:
  "fold (\<lambda>x n. n + (f x - g x)) xs n = fold (\<lambda>x n. n + f x) xs n - (\<Sum>x \<leftarrow> xs. g x)"
  for f g :: "'a \<Rightarrow> 'b::comm_ring_1"
  by (induction xs arbitrary: n rule: rev_induct) (simp_all add: algebra_simps)

lemma WriteRequestMessage_OffsetCommit_eq:
  "WriteRequestMessage_OffsetCommit r os = fold commit_part.wr_topic (oc_topics r)
     (WriteInt32 (of_nat (length (oc_topics r))) (WriteString (oc_consumer_group r) os))"
  unfolding WriteRequestMessage_OffsetCommit_def Let_def
  by (subst fold_lambda_cong [where g = commit_part.wr_topic])
    (simp only: commit_part.wr_topic_def, simp only: wr_commit_partition_def [abs_def], rule refl)

lemma RequestMessageWireSize_OffsetCommit_eq:
  "RequestMessageWireSize_OffsetCommit r =
     of_nat (length (WriteRequestMessage_OffsetCommit r [])) -
     (\<Sum>topic \<leftarrow> oc_topics r. StringWireSize (topic_name topic))"
proof -
  have "fold (\<lambda>topic n. fold (\<lambda>q n. n + (4 + 8 + 8 + StringWireSize (metadata (partition_props q))))
        (partitions topic) (n + 4)) (oc_topics r) n =
      fold (\<lambda>t n. n + (commit_part.sz_topic t - StringWireSize (topic_name t))) (oc_topics r) n" for n
    by (rule fold_lambda_cong)
      (simp only: commit_part.sz_topic_def commit_part.fold_size, simp)
  then have "RequestMessageWireSize_OffsetCommit r = StringWireSize (oc_consumer_group r) + 4 +
      of_nat (length (fold commit_part.wr_topic (oc_topics r) [])) -
      (\<Sum>topic \<leftarrow> oc_topics r. StringWireSize (topic_name topic))"
    by (simp add: RequestMessageWireSize_OffsetCommit_def Let_def fold_minus commit_part.topic.fold_size)
  moreover have "length (WriteRequestMessage_OffsetCommit r []) =
      2 + length (oc_consumer_group r) + 4 + length (fold commit_part.wr_topic (oc_topics r) [])"
    unfolding WriteRequestMessage_OffsetCommit_eq
    by (subst commit_part.topic.fold_append) (simp add: wire_simps)
  ultimately show ?thesis by (simp add: StringWireSize_def)
qed

lemma WriteRequestMessage_OffsetCommit_append:
  "WriteRequestMessage_OffsetCommit r os = os @ WriteRequestMessage_OffsetCommit r []"
  unfolding WriteRequestMessage_OffsetCommit_eq
  by (subst (1 2) commit_part.topic.fold_append) (simp add: wire_simps)

section \<open>Frames on the wire\<close>

lemmas request_api_keys = ProduceRequest_ApiKey_def FetchRequest_ApiKey_def OffsetRequest_ApiKey_def
  MetadataRequest_ApiKey_def ConsumerMetadataRequest_ApiKey_def OffsetCommitRequest_ApiKey_def
  OffsetFetchRequest_ApiKey_def

text \<open>The common request header, in the order of the protocol guide.\<close>

definition request_header :: "Int16 \<Rightarrow> Int32 \<Rightarrow> String \<Rightarrow> Byte list" where
  "request_header key corr client =
     be_bytes 2 key @ be_bytes 2 (0 :: Int16) @ be_bytes 4 corr @
     be_bytes 2 (of_nat (length client) :: Int16) @ client"

definition framed :: "Byte list \<Rightarrow> Byte list" where
  "framed body = be_bytes 4 (of_nat (length body) :: Int32) @ body"

text \<open>C11: for the produce, fetch, offset, metadata, consumer metadata and offset fetch requests,
  whatever their contents, the bytes \<^verbatim>\<open>WriteRequest\<close> appends are one frame: a 32-bit big-endian
  size that is exactly the number of bytes that follow it, then the api key of the class, the
  version, the correlation id, the client id and the body. The sizes are computed by separate code
  (\<^verbatim>\<open>RequestWireSize\<close>), so this is the agreement of the two passes over the request.\<close>

theorem requests_are_framed:
  "WriteRequest ProduceRequest_ApiKey RequestMessageWireSize_Produce
      (WriteRequestMessage_Produce crc32) p client os =
    os @ framed (request_header 0 (correlation_id p) client @ WriteRequestMessage_Produce crc32 p []) \<and>
   WriteRequest FetchRequest_ApiKey RequestMessageWireSize_Fetch WriteRequestMessage_Fetch f client os =
    os @ framed (request_header 1 (correlation_id f) client @ WriteRequestMessage_Fetch f []) \<and>
   WriteRequest OffsetRequest_ApiKey RequestMessageWireSize_Offset WriteRequestMessage_Offset q client os =
    os @ framed (request_header 2 (correlation_id q) client @ WriteRequestMessage_Offset q []) \<and>
   WriteRequest MetadataRequest_ApiKey RequestMessageWireSize_Metadata
      WriteRequestMessage_Metadata m client os =
    os @ framed (request_header 3 (correlation_id m) client @ WriteRequestMessage_Metadata m []) \<and>
   WriteRequest ConsumerMetadataRequest_ApiKey RequestMessageWireSize_ConsumerMetadata
      WriteRequestMessage_ConsumerMetadata c client os =
    os @ framed (request_header 10 (correlation_id c) client @ WriteRequestMessage_ConsumerMetadata c []) \<and>
   WriteRequest OffsetFetchRequest_ApiKey RequestMessageWireSize_OffsetFetch
      WriteRequestMessage_OffsetFetch g client os =
    os @ framed (request_header 9 (correlation_id g) client @ WriteRequestMessage_OffsetFetch g [])"
  unfolding produce_request.write_request_frame fetch_request.write_request_frame
    offset_request.write_request_frame metadata_request.write_request_frame
    consumer_metadata_request.write_request_frame offset_fetch_request.write_request_frame
    produce_request.frame_def fetch_request.frame_def
    offset_request.frame_def metadata_request.frame_def consumer_metadata_request.frame_def
    offset_fetch_request.frame_def
  by (simp add: framed_def request_header_def api_keys request_api_keys)

text \<open>C37: an offset commit request announces a size that is too small: its size pass leaves out
  the topic names, so the announced size is the number of bytes that follow less two bytes and
  the length of the name for each topic. The frame is right only without topics.\<close>

theorem offset_commit_announces_short_size:
  "WriteRequest OffsetCommitRequest_ApiKey RequestMessageWireSize_OffsetCommit
      WriteRequestMessage_OffsetCommit r client os =
   (let body = request_header 8 (correlation_id r) client @ WriteRequestMessage_OffsetCommit r [];
        missing = (\<Sum>topic \<leftarrow> oc_topics r. 2 + length (topic_name topic))
    in os @ be_bytes 4 (of_nat (length body) - of_nat missing :: Int32) @ body)"
proof -
  have "(\<Sum>topic \<leftarrow> ts. StringWireSize (topic_name topic)) =
      of_nat (\<Sum>topic \<leftarrow> ts. 2 + length (topic_name topic))"
    for ts :: "(CommitProps, unit) TopicPartitionBlock list"
    by (induction ts) (simp_all add: StringWireSize_def)
  then show ?thesis
    unfolding WriteRequest_def Let_def
    by (subst WriteRequestMessage_OffsetCommit_append)
      (simp add: RequestWireSize_def RequestMessageWireSize_OffsetCommit_eq request_header_def
        wire_simps api_version_def StringWireSize_def api_keys request_api_keys add_diff_eq add.assoc)
qed

end
