(* ===== verification/Responses.thy ===== *)
theory Responses
  imports Requests
begin

text \<open>
  \<^verbatim>\<open>response.h\<close>, the seven \<^verbatim>\<open>*_response.h\<close> with their \<^verbatim>\<open>impl/\<close> files and
  \<^verbatim>\<open>detail/fetch_response_iterator.h\<close>: the response classes, their lookups, and the forward
  iterator over all messages of a fetch response. The \<^verbatim>\<open>Mutable...\<close> classes give write access
  to the fields, which are the fields of the records here. An iterator into a vector is an index.
\<close>

section \<open>Response classes\<close>

record Response =
  response_correlation_id :: Int32

definition Response_set_correlation_id :: "Int32 \<Rightarrow> 'a Response_scheme \<Rightarrow> 'a Response_scheme" where
  "Response_set_correlation_id c r = r\<lparr>response_correlation_id := c\<rparr>"

record ProduceResponseProps =
  pr_error_code :: Int16
  pr_offset :: Int64

record ProduceResponse = Response +
  pr_topics :: "(ProduceResponseProps, unit) TopicPartitionBlock list"

record FetchResponseProps =
  fr_error_code :: Int16
  highwater_mark_offset :: Int64
  messages :: MessageSet

type_synonym FetchResponseTopic = "(FetchResponseProps, unit) TopicPartitionBlock"

record FetchResponse = Response +
  fr_topics :: "FetchResponseTopic list"

record OffsetResponseProps =
  or_error_code :: Int16
  offsets :: "Int64 list"

record OffsetResponse = Response +
  or_topics :: "(OffsetResponseProps, unit) TopicPartitionBlock list"

record MetadataPartitionProps =
  mp_error_code :: Int16
  leader :: Int32
  replicas :: "Int32 list"
  isr :: "Int32 list"

record MetadataTopicProps =
  mt_error_code :: Int16

record MetadataResponse = Response +
  brokers :: "Broker list"
  mr_topics :: "(MetadataPartitionProps, MetadataTopicProps) TopicPartitionBlock list"

record ConsumerMetadataResponse = Response +
  cm_error_code :: Int16
  coordinator_id :: Int32
  coordinator_host :: String
  coordinator_port :: Int32

definition set_error_code :: "Int16 \<Rightarrow> 'a ConsumerMetadataResponse_scheme \<Rightarrow> 'a ConsumerMetadataResponse_scheme" where
  "set_error_code c r = r\<lparr>cm_error_code := c\<rparr>"

definition set_coordinator_id :: "Int32 \<Rightarrow> 'a ConsumerMetadataResponse_scheme \<Rightarrow> 'a ConsumerMetadataResponse_scheme" where
  "set_coordinator_id i r = r\<lparr>coordinator_id := i\<rparr>"

definition set_coordinator_host :: "String \<Rightarrow> 'a ConsumerMetadataResponse_scheme \<Rightarrow> 'a ConsumerMetadataResponse_scheme" where
  "set_coordinator_host h r = r\<lparr>coordinator_host := h\<rparr>"

definition set_coordinator_port :: "Int32 \<Rightarrow> 'a ConsumerMetadataResponse_scheme \<Rightarrow> 'a ConsumerMetadataResponse_scheme" where
  "set_coordinator_port p r = r\<lparr>coordinator_port := p\<rparr>"

record OffsetCommitResponseProps =
  ocr_error_code :: Int16

record OffsetCommitResponse = Response +
  ocr_topics :: "(OffsetCommitResponseProps, unit) TopicPartitionBlock list"

record OffsetFetchResponseProps =
  ofr_offset :: Int64
  ofr_metadata :: String
  ofr_error_code :: Int16

record OffsetFetchResponse = Response +
  ofr_topics :: "(OffsetFetchResponseProps, unit) TopicPartitionBlock list"

section \<open>Lookups\<close>

definition FindTopic :: "String \<Rightarrow> ProduceResponse \<Rightarrow>
   (ProduceResponseProps, unit) TopicPartitionBlock option" where
  "FindTopic name r =
     (let iter = FindTopicByName_const name (pr_topics r) in
      if iter \<noteq> length (pr_topics r) then Some (pr_topics r ! iter) else None)"

definition FindTopicPartition ::
  "String \<Rightarrow> Int32 \<Rightarrow> ProduceResponse \<Rightarrow> ProduceResponseProps Partition option" where
  "FindTopicPartition name p r =
     (case FindTopic name r of
        Some topic \<Rightarrow>
          (let iter = FindTopicPartitionByNumber_const p (partitions topic) in
           if iter \<noteq> length (partitions topic) then Some (partitions topic ! iter) else None)
      | None \<Rightarrow> None)"

definition TopicPartitionOffset ::
  "String \<Rightarrow> Int32 \<Rightarrow> OffsetResponse \<Rightarrow> OffsetResponseProps Partition option" where
  "TopicPartitionOffset name p r =
     (let topic_iter = FindTopicByName_const name (or_topics r) in
      if topic_iter = length (or_topics r) then None
      else let ps = partitions (or_topics r ! topic_iter);
               partition_iter = FindTopicPartitionByNumber_const p ps
           in if partition_iter = length ps then None else Some (ps ! partition_iter))"

definition PartitionLeader :: "String \<Rightarrow> Int32 \<Rightarrow> MetadataResponse \<Rightarrow> Broker option" where
  "PartitionLeader topic p r =
     (let topic_iter = FindTopicByName_const topic (mr_topics r) in
      if topic_iter = length (mr_topics r) then None
      else let ps = partitions (mr_topics r ! topic_iter);
               partition_iter = FindTopicPartitionByNumber_const p ps
           in if partition_iter = length ps \<or>
                 leader (partition_props (ps ! partition_iter)) = kMetadataLeaderUndecided
              then None
              else let broker_iter =
                         FindBrokerById (leader (partition_props (ps ! partition_iter))) (brokers r)
                   in if broker_iter \<noteq> length (brokers r) then Some (brokers r ! broker_iter) else None)"

lemma tp_lookup_find_if:
  "tp_lookup ts name p =
     (let i = FindTopicByName_const name ts;
          ps = partitions (ts ! i);
          j = FindTopicPartitionByNumber_const p ps
      in if i < length ts \<and> j < length ps then Some (ps ! j) else None)"
  by (simp add: tp_lookup_def topic_vec.vlookup_def partition_vec.vlookup_def find_if_List_find
      FindTopicByName_const_def FindTopicPartitionByNumber_const_def Let_def
      IsTopicWithName_def [abs_def] IsTopicPartition_def [abs_def])

lemma search_not_end:
  "FindTopicByName_const name ts \<noteq> length ts \<longleftrightarrow> FindTopicByName_const name ts < length ts"
  "FindTopicPartitionByNumber_const p ps \<noteq> length ps \<longleftrightarrow>
   FindTopicPartitionByNumber_const p ps < length ps"
  using find_if_le [of "IsTopicWithName name" ts] find_if_le [of "IsTopicPartition p" ps]
  by (auto simp: FindTopicByName_const_def FindTopicPartitionByNumber_const_def)

text \<open>The lookups of the responses. \<^verbatim>\<open>FindTopicPartition\<close> and \<^verbatim>\<open>TopicPartitionOffset\<close>
  return the first entry with that topic name and partition, or nothing when there is none, and
  \<^verbatim>\<open>PartitionLeader\<close> the broker whose id is the leader of that entry, or nothing when the leader
  is undecided or not among the brokers; none of them reads past the end of a vector.\<close>

theorem response_lookups_correct:
  "FindTopicPartition name p pr = tp_lookup (pr_topics pr) name p \<and>
   TopicPartitionOffset name p offr = tp_lookup (or_topics offr) name p \<and>
   PartitionLeader name p mr =
     (case tp_lookup (mr_topics mr) name p of
        None \<Rightarrow> None
      | Some q \<Rightarrow> if leader (partition_props q) = - 1 then None
          else List.find (\<lambda>b. node_id b = leader (partition_props q)) (brokers mr))"
proof -
  have b: "List.find (\<lambda>b. node_id b = l) bs =
      (if FindBrokerById l bs \<noteq> length bs then Some (bs ! FindBrokerById l bs) else None)" for l bs
    using find_if_le [of "IsBrokerWithId l" bs]
    by (auto simp: FindBrokerById_def find_if_List_find IsBrokerWithId_def [abs_def])
  show ?thesis
    unfolding tp_lookup_find_if b FindTopicPartition_def FindTopic_def TopicPartitionOffset_def
      PartitionLeader_def kMetadataLeaderUndecided_def
    by (simp add: Let_def flip: search_not_end)
qed

section \<open>The message iterator\<close>

text \<open>\<open>it_topics\<close> is the pointer to the topic vector, \<open>None\<close> for the null pointer of \<^verbatim>\<open>end()\<close>.\<close>

record FetchResponseIterator =
  it_topics :: "FetchResponseTopic list option"
  topic_iter :: nat
  topic_partition_iter :: nat
  message_iter :: nat

definition FetchResponseIterator_new :: FetchResponseIterator where
  "FetchResponseIterator_new =
     \<lparr>it_topics = None, topic_iter = 0, topic_partition_iter = 0, message_iter = 0\<rparr>"

definition iterator_reset :: "FetchResponseIterator \<Rightarrow> FetchResponseIterator" where
  "iterator_reset it = it\<lparr>it_topics := None\<rparr>"

abbreviation messages_at :: "FetchResponseTopic list \<Rightarrow> nat \<Rightarrow> nat \<Rightarrow> MessageSet" where
  "messages_at topics i j \<equiv> messages (partition_props (partitions (topics ! i) ! j))"

text \<open>The inner and the outer loop of the constructor.\<close>

function begin_partitions :: "FetchResponseTopic list \<Rightarrow> nat \<Rightarrow> nat \<Rightarrow> nat option" where
  "begin_partitions topics i j =
     (if j < length (partitions (topics ! i))
      then if messages_at topics i j \<noteq> [] then Some j else begin_partitions topics i (Suc j)
      else None)"
  by pat_completeness auto
termination
  by (relation "measure (\<lambda>(topics, i, j). length (partitions (topics ! i)) - j)") auto

function begin_topics :: "FetchResponseTopic list \<Rightarrow> nat \<Rightarrow> (nat \<times> nat) option" where
  "begin_topics topics i =
     (if i < length topics
      then case begin_partitions topics i 0 of
             Some j \<Rightarrow> Some (i, j)
           | None \<Rightarrow> begin_topics topics (Suc i)
      else None)"
  by pat_completeness auto
termination
  by (relation "measure (\<lambda>(topics, i). length topics - i)") auto

definition FetchResponseIterator_of :: "FetchResponseTopic list \<Rightarrow> FetchResponseIterator" where
  "FetchResponseIterator_of topics =
     (case begin_topics topics 0 of
        Some (i, j) \<Rightarrow> \<lparr>it_topics = Some topics, topic_iter = i, topic_partition_iter = j, message_iter = 0\<rparr>
      | None \<Rightarrow> iterator_reset FetchResponseIterator_new)"

text \<open>The inner loop of \<^verbatim>\<open>increment\<close> leaves finished topics, the outer one finished partitions.\<close>

function next_partition :: "FetchResponseTopic list \<Rightarrow> nat \<Rightarrow> nat \<Rightarrow> (nat \<times> nat) option" where
  "next_partition topics i j =
     (if j < length (partitions (topics ! i)) then Some (i, j)
      else if Suc i < length topics then next_partition topics (Suc i) 0
      else None)"
  by pat_completeness auto
termination
  by (relation "measure (\<lambda>(topics, i, j). length topics - i)") auto

declare begin_partitions.simps [simp del] begin_topics.simps [simp del]
  next_partition.simps [simp del]

lemma next_partition_moves:
  "next_partition topics i j = Some (i', j') \<Longrightarrow>
   j' < length (partitions (topics ! i')) \<and> (i' = i \<and> j' = j \<or> i < i' \<and> i' < length topics)"
proof (induction topics i j rule: next_partition.induct)
  case (1 topics i j)
  from 1(2) show ?case
    by (subst (asm) next_partition.simps) (use 1(1) in \<open>auto split: if_splits\<close>)
qed

function next_message :: "FetchResponseTopic list \<Rightarrow> nat \<Rightarrow> nat \<Rightarrow> nat \<Rightarrow> (nat \<times> nat \<times> nat) option" where
  "next_message topics i j k =
     (if k < length (messages_at topics i j) then Some (i, j, k)
      else case next_partition topics i (Suc j) of
             Some (i', j') \<Rightarrow> next_message topics i' j' 0
           | None \<Rightarrow> None)"
  by pat_completeness auto
termination
  by (relation "measures [\<lambda>(topics, i, j, k). length topics - i,
        \<lambda>(topics, i, j, k). length (partitions (topics ! i)) - j]")
    (auto dest!: next_partition_moves)

declare next_message.simps [simp del]

definition increment :: "FetchResponseIterator \<Rightarrow> FetchResponseIterator" where
  "increment it =
     (case it_topics it of
        None \<Rightarrow> it
      | Some topics \<Rightarrow>
          (case next_message topics (topic_iter it) (topic_partition_iter it) (Suc (message_iter it)) of
             Some (i, j, k) \<Rightarrow> it\<lparr>topic_iter := i, topic_partition_iter := j, message_iter := k\<rparr>
           | None \<Rightarrow> iterator_reset it))"

definition iterator_equal :: "FetchResponseIterator \<Rightarrow> FetchResponseIterator \<Rightarrow> bool" where
  "iterator_equal it other \<longleftrightarrow>
     (if it_topics it \<noteq> None
      then it_topics other = it_topics it \<and> topic_iter other = topic_iter it \<and>
        topic_partition_iter other = topic_partition_iter it \<and> message_iter other = message_iter it
      else it_topics other = it_topics it)"

definition dereference :: "FetchResponseIterator \<Rightarrow> MessageAndOffset" where
  "dereference it = messages_at (the (it_topics it)) (topic_iter it) (topic_partition_iter it) !
     message_iter it"

definition FetchResponse_begin :: "FetchResponse \<Rightarrow> FetchResponseIterator" where
  "FetchResponse_begin r = FetchResponseIterator_of (fr_topics r)"

definition FetchResponse_end :: "FetchResponse \<Rightarrow> FetchResponseIterator" where
  "FetchResponse_end r = FetchResponseIterator_new"

section \<open>The iterator visits every message once\<close>

definition partition_messages :: "FetchResponseTopic \<Rightarrow> nat \<Rightarrow> MessageSet" where
  "partition_messages t j = concat (map (messages \<circ> partition_props) (drop j (partitions t)))"

definition topic_messages :: "FetchResponseTopic list \<Rightarrow> nat \<Rightarrow> MessageSet" where
  "topic_messages ts i = concat (map (\<lambda>t. partition_messages t 0) (drop i ts))"

definition rest_messages :: "FetchResponseTopic list \<Rightarrow> nat \<Rightarrow> nat \<Rightarrow> nat \<Rightarrow> MessageSet" where
  "rest_messages ts i j k =
     drop k (messages_at ts i j) @ partition_messages (ts ! i) (Suc j) @ topic_messages ts (Suc i)"

definition iterator_rest :: "FetchResponseIterator \<Rightarrow> MessageSet" where
  "iterator_rest it = (case it_topics it of None \<Rightarrow> []
     | Some ts \<Rightarrow> rest_messages ts (topic_iter it) (topic_partition_iter it) (message_iter it))"

definition iterator_valid :: "FetchResponseIterator \<Rightarrow> bool" where
  "iterator_valid it \<longleftrightarrow> (case it_topics it of None \<Rightarrow> True
     | Some ts \<Rightarrow> topic_iter it < length ts \<and>
         topic_partition_iter it < length (partitions (ts ! topic_iter it)) \<and>
         message_iter it < length (messages_at ts (topic_iter it) (topic_partition_iter it)))"

lemma partition_messages_end [simp]:
  "length (partitions t) \<le> j \<Longrightarrow> partition_messages t j = []"
  by (simp add: partition_messages_def)

lemma topic_messages_end [simp]: "length ts \<le> i \<Longrightarrow> topic_messages ts i = []"
  by (simp add: topic_messages_def)

lemma partition_messages_step:
  "j < length (partitions (ts ! i)) \<Longrightarrow>
   partition_messages (ts ! i) j = messages_at ts i j @ partition_messages (ts ! i) (Suc j)"
  unfolding partition_messages_def by (subst Cons_nth_drop_Suc [symmetric]) simp_all

lemma topic_messages_step:
  "i < length ts \<Longrightarrow> topic_messages ts i = partition_messages (ts ! i) 0 @ topic_messages ts (Suc i)"
  unfolding topic_messages_def by (subst Cons_nth_drop_Suc [symmetric]) simp_all

lemma next_partition_rest:
  "i < length ts \<Longrightarrow>
   (case next_partition ts i j of
      Some (i', j') \<Rightarrow> i' < length ts \<and> j' < length (partitions (ts ! i')) \<and>
        partition_messages (ts ! i) j @ topic_messages ts (Suc i) =
        partition_messages (ts ! i') j' @ topic_messages ts (Suc i')
    | None \<Rightarrow> partition_messages (ts ! i) j @ topic_messages ts (Suc i) = [])"
proof (induction ts i j rule: next_partition.induct)
  case (1 ts i j)
  then show ?case
    by (subst next_partition.simps)
      (auto simp: topic_messages_step simp flip: append_assoc split: option.splits)
qed

lemma next_message_rest:
  "i < length ts \<Longrightarrow> j < length (partitions (ts ! i)) \<Longrightarrow>
   (case next_message ts i j k of
      Some (i', j', k') \<Rightarrow> i' < length ts \<and> j' < length (partitions (ts ! i')) \<and>
        k' < length (messages_at ts i' j') \<and> rest_messages ts i j k = rest_messages ts i' j' k'
    | None \<Rightarrow> rest_messages ts i j k = [])"
proof (induction ts i j k rule: next_message.induct)
  case (1 ts i j k)
  show ?case
  proof (cases "k < length (messages_at ts i j)")
    case True
    with 1(2,3) show ?thesis by (subst next_message.simps) simp
  next
    case False
    then have r: "rest_messages ts i j k =
        partition_messages (ts ! i) (Suc j) @ topic_messages ts (Suc i)"
      by (simp add: rest_messages_def)
    show ?thesis
    proof (cases "next_partition ts i (Suc j)")
      case None
      with False r next_partition_rest [of i ts "Suc j"] 1(2) show ?thesis
        by (subst next_message.simps) simp
    next
      case (Some p)
      obtain i' j' where p: "p = (i', j')" by fastforce
      have n: "i' < length ts" "j' < length (partitions (ts ! i'))"
        "rest_messages ts i j k = rest_messages ts i' j' 0"
        using next_partition_rest [of i ts "Suc j"] 1(2) Some p r
        by (auto simp: rest_messages_def partition_messages_step)
      have "next_message ts i j k = next_message ts i' j' 0"
        using False Some p by (subst next_message.simps) simp
      with 1(1) [OF False Some p [symmetric] n(1,2)] n(3) show ?thesis
        by (auto split: option.splits)
    qed
  qed
qed

lemma increment_rest:
  assumes "iterator_valid it" and "it_topics it = Some ts"
  shows "iterator_rest it = dereference it # iterator_rest (increment it)"
    and "iterator_valid (increment it)"
proof -
  let ?i = "topic_iter it" and ?j = "topic_partition_iter it" and ?k = "message_iter it"
  have v: "?i < length ts" "?j < length (partitions (ts ! ?i))" "?k < length (messages_at ts ?i ?j)"
    using assms by (simp_all add: iterator_valid_def)
  have "rest_messages ts ?i ?j ?k = dereference it # rest_messages ts ?i ?j (Suc ?k)"
    using v(3) assms(2) by (simp add: rest_messages_def dereference_def Cons_nth_drop_Suc [symmetric])
  with next_message_rest [OF v(1,2), of "Suc ?k"] assms(2)
  show "iterator_rest it = dereference it # iterator_rest (increment it)"
    and "iterator_valid (increment it)"
    by (auto simp: increment_def iterator_rest_def iterator_valid_def iterator_reset_def split: option.splits)
qed

lemma begin_partitions_rest:
  "case begin_partitions ts i j of
     Some j' \<Rightarrow> j' < length (partitions (ts ! i)) \<and> messages_at ts i j' \<noteq> [] \<and>
       partition_messages (ts ! i) j = partition_messages (ts ! i) j'
   | None \<Rightarrow> partition_messages (ts ! i) j = []"
proof (induction ts i j rule: begin_partitions.induct)
  case (1 ts i j)
  then show ?case
    by (subst begin_partitions.simps) (auto simp: partition_messages_step split: option.splits)
qed

lemma begin_topics_rest:
  "case begin_topics ts i of
     Some (i', j') \<Rightarrow> i' < length ts \<and> j' < length (partitions (ts ! i')) \<and>
       messages_at ts i' j' \<noteq> [] \<and> topic_messages ts i = rest_messages ts i' j' 0
   | None \<Rightarrow> topic_messages ts i = []"
proof (induction ts i rule: begin_topics.induct)
  case (1 ts i)
  show ?case
  proof (cases "i < length ts")
    case True
    show ?thesis
    proof (cases "begin_partitions ts i 0")
      case None
      have "topic_messages ts i = topic_messages ts (Suc i)"
        using begin_partitions_rest [of ts i 0] None True by (simp add: topic_messages_step)
      with 1 [OF True None] True None show ?thesis
        by (subst begin_topics.simps) (auto split: option.splits)
    next
      case (Some j)
      with begin_partitions_rest [of ts i 0] True show ?thesis
        by (subst begin_topics.simps)
          (auto simp: topic_messages_step rest_messages_def partition_messages_step)
    qed
  qed (subst begin_topics.simps, simp)
qed

lemma begin_rest:
  "iterator_valid (FetchResponse_begin r)"
  "iterator_rest (FetchResponse_begin r) = topic_messages (fr_topics r) 0"
  using begin_topics_rest [of "fr_topics r" 0]
  by (auto simp: FetchResponse_begin_def FetchResponseIterator_of_def iterator_valid_def
      iterator_rest_def iterator_reset_def FetchResponseIterator_new_def split: option.splits)

lemma iterator_end:
  "iterator_valid it \<Longrightarrow> iterator_equal it (FetchResponse_end r) \<longleftrightarrow> iterator_rest it = []"
  using increment_rest(1) [of it]
  by (cases "it_topics it")
    (auto simp: iterator_equal_def FetchResponse_end_def FetchResponseIterator_new_def iterator_rest_def)

lemma increments_rest:
  "iterator_valid it \<Longrightarrow>
   iterator_valid ((increment ^^ n) it) \<and> iterator_rest ((increment ^^ n) it) = drop n (iterator_rest it)"
proof (induction n)
  case (Suc n)
  let ?it = "(increment ^^ n) it"
  show ?case
  proof (cases "it_topics ?it")
    case None
    then have "increment ?it = ?it" "iterator_rest ?it = []"
      by (simp_all add: increment_def iterator_rest_def)
    with Suc show ?thesis by simp
  next
    case (Some ts)
    with Suc increment_rest [of ?it ts] show ?thesis
      by (simp add: drop_Suc) (metis list.sel(3) tl_drop)
  qed
qed simp

text \<open>C34: iterating over a fetch response. The \<open>n\<close>-th increment of \<^verbatim>\<open>begin()\<close> points to the
  \<open>n\<close>-th message of the response in the order of topics, partitions and messages, it differs from
  \<^verbatim>\<open>end()\<close> as long as there is one, and equals \<^verbatim>\<open>end()\<close> after the last: every message is
  visited once, empty topics and partitions are skipped, and the loops of the iterator end.\<close>

theorem FetchResponse_iteration:
  "let all = concat (map (\<lambda>t. concat (map (\<lambda>p. messages (partition_props p)) (partitions t))) (fr_topics r));
       it = (increment ^^ n) (FetchResponse_begin r)
   in if n < length all
      then \<not> iterator_equal it (FetchResponse_end r) \<and> dereference it = all ! n
      else iterator_equal it (FetchResponse_end r)"
proof -
  let ?all = "concat (map (\<lambda>t. concat (map (\<lambda>p. messages (partition_props p)) (partitions t))) (fr_topics r))"
  let ?it = "(increment ^^ n) (FetchResponse_begin r)"
  have a: "topic_messages (fr_topics r) 0 = ?all"
    by (simp add: topic_messages_def partition_messages_def comp_def)
  have v: "iterator_valid ?it" and rest: "iterator_rest ?it = drop n ?all"
    using increments_rest [OF begin_rest(1), of n r] by (simp_all add: begin_rest(2) a)
  have "dereference ?it = ?all ! n" if "n < length ?all"
  proof -
    have "iterator_rest ?it \<noteq> []"
      unfolding rest using that by simp
    then obtain ts where "it_topics ?it = Some ts"
      by (cases "it_topics ?it") (simp_all add: iterator_rest_def)
    then have "dereference ?it = hd (drop n ?all)"
      using increment_rest(1) [OF v] rest by simp
    then show ?thesis using that by (simp add: hd_drop_conv_nth)
  qed
  then show ?thesis using iterator_end [OF v] rest by (simp add: Let_def)
qed

end
