(* ===== verification/Response_Read.thy ===== *)
theory Response_Read
  imports Responses
begin

text \<open>
  \<^verbatim>\<open>ReadResponse\<close> of \<^verbatim>\<open>detail/impl/response_read.h\<close> and the seven \<^verbatim>\<open>ReadResponseMessage\<close>
  overloads of \<^verbatim>\<open>detail/impl/*_response_read.h\<close>. Every reader gets a response object just
  constructed, so \<^verbatim>\<open>resize\<close> makes value-initialised elements. A negative array length makes
  \<^verbatim>\<open>resize\<close> throw; an error code of a partition makes three of the readers return early, which
  leaves the elements behind it value-initialised. The locale \<open>element_codec\<close> is the contract
  between the element reader of an array and the layout a broker writes; the arrays and the
  topics built from it are proved correct once, and every response class is an interpretation.
\<close>

section \<open>Arrays and topics\<close>

definition read_array :: "'a \<Rightarrow> ('a, 'e) elem_reader \<Rightarrow> ('a list, 'e) elem_reader" where
  "read_array dflt rd is =
     (let (n, is) = ReadInt32 is in
      case vector_resize n of
        Inl e \<Rightarrow> Inl e
      | Inr k \<Rightarrow> foreach_resized dflt rd k is)"

definition read_topic ::
  "'p Partition \<Rightarrow> ('p Partition, 'e) elem_reader \<Rightarrow> (('p, unit) TopicPartitionBlock, 'e) elem_reader" where
  "read_topic dflt rd is =
     (let (name, is) = ReadString is in
      case read_array dflt rd is of
        Inl e \<Rightarrow> Inl e
      | Inr (ps, ec, is) \<Rightarrow> Inr (\<lparr>topic_props = (), topic_name = name, partitions = ps\<rparr>, ec, is))"

definition kafka_error :: "Int16 \<Rightarrow> error_code option" where
  "kafka_error err = (if err \<noteq> 0 then Some (make_error_code_kafka (sint err)) else None)"

type_synonym 'r response_reader =
  "istream \<Rightarrow> 'r \<Rightarrow> error_code \<Rightarrow> cpp_exn + ('r \<times> error_code \<times> istream)"

section \<open>The response readers\<close>

definition produce_response_partition :: "ProduceResponseProps Partition" where
  "produce_response_partition =
     \<lparr>partition_props = \<lparr>pr_error_code = 0, pr_offset = 0\<rparr>, partition_id = 0\<rparr>"

definition read_produce_partition :: "(ProduceResponseProps Partition, error_code) elem_reader" where
  "read_produce_partition is =
     (let (p, is) = ReadInt32 is; (err, is) = ReadInt16 is; (off, is) = ReadInt64 is
      in Inr (\<lparr>partition_props = \<lparr>pr_error_code = err, pr_offset = off\<rparr>, partition_id = p\<rparr>,
              kafka_error err, is))"

definition ReadResponseMessage_Produce :: "ProduceResponse response_reader" where
  "ReadResponseMessage_Produce is response ec =
     (case read_array empty_topic (read_topic produce_response_partition read_produce_partition) is of
        Inl e \<Rightarrow> Inl e
      | Inr (ts, err, is) \<Rightarrow> Inr (response\<lparr>pr_topics := ts\<rparr>, case_option ec id err, is))"

definition fetch_response_partition :: "FetchResponseProps Partition" where
  "fetch_response_partition =
     \<lparr>partition_props = \<lparr>fr_error_code = 0, highwater_mark_offset = 0, messages = []\<rparr>, partition_id = 0\<rparr>"

definition read_fetch_partition :: "(FetchResponseProps Partition, error_code) elem_reader" where
  "read_fetch_partition is =
     (let (p, is) = ReadInt32 is; (err, is) = ReadInt16 is; (hw, is) = ReadInt64 is;
          partition = (\<lambda>ms. \<lparr>partition_props = \<lparr>fr_error_code = err, highwater_mark_offset = hw, messages = ms\<rparr>,
            partition_id = p\<rparr>)
      in if err \<noteq> 0 then Inr (partition [], kafka_error err, is)
         else let (message_set_size, is) = ReadInt32 is;
                  (ms, is) = ReadMessageSet is [] (scast message_set_size)
              in Inr (partition ms, None, is))"

definition ReadResponseMessage_Fetch :: "FetchResponse response_reader" where
  "ReadResponseMessage_Fetch is response ec =
     (case read_array empty_topic (read_topic fetch_response_partition read_fetch_partition) is of
        Inl e \<Rightarrow> Inl e
      | Inr (ts, err, is) \<Rightarrow> Inr (response\<lparr>fr_topics := ts\<rparr>, case_option ec id err, is))"

definition offset_response_partition :: "OffsetResponseProps Partition" where
  "offset_response_partition =
     \<lparr>partition_props = \<lparr>or_error_code = 0, offsets = []\<rparr>, partition_id = 0\<rparr>"

definition read_offset_partition :: "(OffsetResponseProps Partition, error_code) elem_reader" where
  "read_offset_partition is =
     (let (p, is) = ReadInt32 is; (err, is) = ReadInt16 is;
          partition = (\<lambda>os. \<lparr>partition_props = \<lparr>or_error_code = err, offsets = os\<rparr>, partition_id = p\<rparr>)
      in if err \<noteq> 0 then Inr (partition [], kafka_error err, is)
         else let (offsets_size, is) = ReadInt32 is;
                  (os, is) = read_n ReadInt64 (nat (sint offsets_size)) is
              in Inr (partition os, None, is))"

definition ReadResponseMessage_Offset :: "OffsetResponse response_reader" where
  "ReadResponseMessage_Offset is response ec =
     (case read_array empty_topic (read_topic offset_response_partition read_offset_partition) is of
        Inl e \<Rightarrow> Inl e
      | Inr (ts, err, is) \<Rightarrow> Inr (response\<lparr>or_topics := ts\<rparr>, case_option ec id err, is))"

definition metadata_broker :: Broker where
  "metadata_broker = \<lparr>node_id = 0, host = [], port = 0\<rparr>"

definition read_broker :: "(Broker, error_code) elem_reader" where
  "read_broker is =
     (let (i, is) = ReadInt32 is; (h, is) = ReadString is; (p, is) = ReadInt32 is
      in Inr (\<lparr>node_id = i, host = h, port = p\<rparr>, None, is))"

definition metadata_partition :: "MetadataPartitionProps Partition" where
  "metadata_partition =
     \<lparr>partition_props = \<lparr>mp_error_code = 0, leader = 0, replicas = [], isr = []\<rparr>, partition_id = 0\<rparr>"

definition read_metadata_partition :: "(MetadataPartitionProps Partition, error_code) elem_reader" where
  "read_metadata_partition is =
     (let (err, is) = ReadInt16 is; (p, is) = ReadInt32 is; (l, is) = ReadInt32 is;
          (replicas_size, is) = ReadInt32 is;
          (rs, is) = read_n ReadInt32 (nat (sint replicas_size)) is;
          (isr_size, is) = ReadInt32 is;
          (ii, is) = read_n ReadInt32 (nat (sint isr_size)) is
      in Inr (\<lparr>partition_props = \<lparr>mp_error_code = err, leader = l, replicas = rs, isr = ii\<rparr>,
              partition_id = p\<rparr>, None, is))"

definition metadata_topic :: "(MetadataPartitionProps, MetadataTopicProps) TopicPartitionBlock" where
  "metadata_topic = \<lparr>topic_props = \<lparr>mt_error_code = 0\<rparr>, topic_name = [], partitions = []\<rparr>"

definition read_metadata_topic ::
  "((MetadataPartitionProps, MetadataTopicProps) TopicPartitionBlock, error_code) elem_reader" where
  "read_metadata_topic is =
     (let (err, is) = ReadInt16 is; (name, is) = ReadString is in
      case read_array metadata_partition read_metadata_partition is of
        Inl e \<Rightarrow> Inl e
      | Inr (ps, ec, is) \<Rightarrow>
          Inr (\<lparr>topic_props = \<lparr>mt_error_code = err\<rparr>, topic_name = name, partitions = ps\<rparr>, ec, is))"

definition ReadResponseMessage_Metadata :: "MetadataResponse response_reader" where
  "ReadResponseMessage_Metadata is response ec =
     (case read_array metadata_broker read_broker is of
        Inl e \<Rightarrow> Inl e
      | Inr (bs, _, is) \<Rightarrow>
          (case read_array metadata_topic read_metadata_topic is of
             Inl e \<Rightarrow> Inl e
           | Inr (ts, _, is) \<Rightarrow> Inr (response\<lparr>brokers := bs, mr_topics := ts\<rparr>, ec, is)))"

definition ReadResponseMessage_ConsumerMetadata :: "ConsumerMetadataResponse response_reader" where
  "ReadResponseMessage_ConsumerMetadata is response ec =
     (let (err, is) = ReadInt16 is; response = set_error_code err response;
          (i, is) = ReadInt32 is; response = set_coordinator_id i response;
          (h, is) = ReadString is; response = set_coordinator_host h response;
          (p, is) = ReadInt32 is; response = set_coordinator_port p response
      in Inr (response, case_option ec id (kafka_error (cm_error_code response)), is))"

definition offset_commit_response_partition :: "OffsetCommitResponseProps Partition" where
  "offset_commit_response_partition = \<lparr>partition_props = \<lparr>ocr_error_code = 0\<rparr>, partition_id = 0\<rparr>"

definition read_offset_commit_partition ::
  "(OffsetCommitResponseProps Partition, error_code) elem_reader" where
  "read_offset_commit_partition is =
     (let (p, is) = ReadInt32 is; (err, is) = ReadInt16 is
      in Inr (\<lparr>partition_props = \<lparr>ocr_error_code = err\<rparr>, partition_id = p\<rparr>, None, is))"

definition ReadResponseMessage_OffsetCommit :: "OffsetCommitResponse response_reader" where
  "ReadResponseMessage_OffsetCommit is response ec =
     (case read_array empty_topic
         (read_topic offset_commit_response_partition read_offset_commit_partition) is of
        Inl e \<Rightarrow> Inl e
      | Inr (ts, _, is) \<Rightarrow> Inr (response\<lparr>ocr_topics := ts\<rparr>, ec, is))"

definition offset_fetch_response_partition :: "OffsetFetchResponseProps Partition" where
  "offset_fetch_response_partition =
     \<lparr>partition_props = \<lparr>ofr_offset = 0, ofr_metadata = [], ofr_error_code = 0\<rparr>, partition_id = 0\<rparr>"

definition read_offset_fetch_partition ::
  "(OffsetFetchResponseProps Partition, error_code) elem_reader" where
  "read_offset_fetch_partition is =
     (let (p, is) = ReadInt32 is; (off, is) = ReadInt64 is; (md, is) = ReadString is;
          (err, is) = ReadInt16 is
      in Inr (\<lparr>partition_props = \<lparr>ofr_offset = off, ofr_metadata = md, ofr_error_code = err\<rparr>,
              partition_id = p\<rparr>, None, is))"

definition ReadResponseMessage_OffsetFetch :: "OffsetFetchResponse response_reader" where
  "ReadResponseMessage_OffsetFetch is response ec =
     (case read_array empty_topic
         (read_topic offset_fetch_response_partition read_offset_fetch_partition) is of
        Inl e \<Rightarrow> Inl e
      | Inr (ts, _, is) \<Rightarrow> Inr (response\<lparr>ofr_topics := ts\<rparr>, ec, is))"

definition ReadResponse :: "'a Response_scheme response_reader \<Rightarrow> 'a Response_scheme response_reader" where
  "ReadResponse ReadResponseMessage is response ec =
     (let (c, is) = ReadInt32 is;
          response = Response_set_correlation_id c response
      in ReadResponseMessage is response ec)"

section \<open>Layout of an array and its reader\<close>

text \<open>What a reader that returns at the first error keeps of a list.\<close>

fun until_error :: "'a \<Rightarrow> ('a \<Rightarrow> 'a) \<Rightarrow> ('a \<Rightarrow> 'e option) \<Rightarrow> 'a list \<Rightarrow> 'a list \<times> 'e option" where
  "until_error dflt norm err [] = ([], None)"
| "until_error dflt norm err (x # xs) =
     (case err x of
        Some e \<Rightarrow> (norm x # replicate (length xs) dflt, Some e)
      | None \<Rightarrow> (let (ys, e) = until_error dflt norm err xs in (norm x # ys, e)))"

lemma until_error_none:
  "\<forall>x \<in> set xs. err x = None \<Longrightarrow> until_error dflt norm err xs = (map norm xs, None)"
  by (induction xs) auto

lemma until_error_first:
  "\<forall>x \<in> set xs. err x = None \<Longrightarrow> err x = Some e \<Longrightarrow>
   until_error dflt norm err (xs @ x # ys) = (map norm xs @ norm x # replicate (length ys) dflt, Some e)"
  by (induction xs) auto

definition wire_string :: "String \<Rightarrow> Byte list" where
  "wire_string s = be_bytes 2 (of_nat (length s) :: Int16) @ s"

definition wire_array :: "('a \<Rightarrow> Byte list) \<Rightarrow> 'a list \<Rightarrow> Byte list" where
  "wire_array enc xs = be_bytes 4 (of_nat (length xs) :: Int32) @ concat (map enc xs)"

definition wire_topic :: "('p Partition \<Rightarrow> Byte list) \<Rightarrow> ('p, 't) TopicPartitionBlock \<Rightarrow> Byte list" where
  "wire_topic enc t = wire_string (topic_name t) @ wire_array enc (partitions t)"

definition array_ok :: "('a \<Rightarrow> bool) \<Rightarrow> 'a list \<Rightarrow> bool" where
  "array_ok ok xs \<longleftrightarrow> list_all ok xs \<and> length xs < 2 ^ 31"

definition topic_ok :: "('p Partition \<Rightarrow> bool) \<Rightarrow> ('p, 't) TopicPartitionBlock \<Rightarrow> bool" where
  "topic_ok ok t \<longleftrightarrow> short_string (topic_name t) \<and> array_ok ok (partitions t)"

locale element_codec =
  fixes enc :: "'a \<Rightarrow> Byte list" and rd :: "('a, 'e) elem_reader" and ok :: "'a \<Rightarrow> bool"
    and dflt :: 'a and norm :: "'a \<Rightarrow> 'a" and err :: "'a \<Rightarrow> 'e option"
  assumes rd_enc: "ok x \<Longrightarrow> \<not> is_fail is \<Longrightarrow> remaining is = enc x @ rest \<Longrightarrow>
    \<exists>is'. rd is = Inr (norm x, err x, is') \<and> (err x = None \<longrightarrow> is' = is_advance (length (enc x)) is)"
begin

lemma foreach_written:
  "list_all ok xs \<Longrightarrow> \<not> is_fail is \<Longrightarrow> remaining is = concat (map enc xs) @ rest \<Longrightarrow>
   until_error dflt norm err xs = (ys, e) \<Longrightarrow>
   \<exists>is'. foreach_resized dflt rd (length xs) is = Inr (ys, e, is') \<and>
     (e = None \<longrightarrow> is' = is_advance (length (concat (map enc xs))) is)"
proof (induction xs arbitrary: "is" ys e)
  case (Cons x xs)
  have r: "remaining is = enc x @ concat (map enc xs) @ rest"
    using Cons.prems(3) by simp
  obtain is1 where is1: "rd is = Inr (norm x, err x, is1)"
      "err x = None \<Longrightarrow> is1 = is_advance (length (enc x)) is"
    using rd_enc [OF _ Cons.prems(2) r] Cons.prems(1) by auto
  show ?case
  proof (cases "err x")
    case None
    obtain zs e' where z: "until_error dflt norm err xs = (zs, e')" by fastforce
    have eq: "ys = norm x # zs" "e = e'" using Cons.prems(4) None z by auto
    obtain is' where "foreach_resized dflt rd (length xs) is1 = Inr (zs, e', is')"
        "e' = None \<longrightarrow> is' = is_advance (length (concat (map enc xs))) is1"
      using Cons.IH [of is1 zs e'] Cons.prems(1,2) is1(2) [OF None] r z by auto
    with is1 None eq show ?thesis by auto
  next
    case (Some e')
    with Cons.prems(4) have "ys = norm x # replicate (length xs) dflt" "e = Some e'" by auto
    with is1(1) Some show ?thesis by simp
  qed
qed auto

lemma read_array_written:
  assumes "array_ok ok xs" and "\<not> is_fail is" and "remaining is = wire_array enc xs @ rest"
    and "until_error dflt norm err xs = (ys, e)"
  shows "\<exists>is'. read_array dflt rd is = Inr (ys, e, is') \<and>
    (e = None \<longrightarrow> is' = is_advance (length (wire_array enc xs)) is)"
proof -
  have r: "remaining is = be_bytes 4 (of_nat (length xs) :: Int32) @ concat (map enc xs) @ rest"
    using assms(3) by (simp add: wire_array_def)
  have n: "ReadInt32 is = (of_nat (length xs), is_advance 4 is)"
    using assms(2) r by (rule ReadInt32_front)
  have "sint (of_nat (length xs) :: Int32) = int (length xs)"
    using assms(1) by (intro sint_of_nat_less) (simp add: array_ok_def)
  then have v: "vector_resize (of_nat (length xs)) = Inr (length xs)"
    by (simp add: vector_resize_def)
  obtain is' where "foreach_resized dflt rd (length xs) (is_advance 4 is) = Inr (ys, e, is')"
      "e = None \<longrightarrow> is' = is_advance (length (concat (map enc xs))) (is_advance 4 is)"
    using foreach_written [of xs "is_advance 4 is" rest ys e] assms(1,2,4) r
    by (auto simp: array_ok_def)
  then show ?thesis by (auto simp: read_array_def n v wire_array_def)
qed

end

locale partition_codec = element_codec enc rd ok dflt norm err
  for enc :: "'p Partition \<Rightarrow> Byte list" and rd :: "('p Partition, 'e) elem_reader"
    and ok :: "'p Partition \<Rightarrow> bool" and dflt :: "'p Partition" and norm :: "'p Partition \<Rightarrow> 'p Partition"
    and err :: "'p Partition \<Rightarrow> 'e option"
begin

definition norm_topic :: "('p, unit) TopicPartitionBlock \<Rightarrow> ('p, unit) TopicPartitionBlock" where
  "norm_topic t = t\<lparr>partitions := fst (until_error dflt norm err (partitions t))\<rparr>"

definition err_topic :: "('p, unit) TopicPartitionBlock \<Rightarrow> 'e option" where
  "err_topic t = snd (until_error dflt norm err (partitions t))"

lemma read_topic_written:
  assumes "topic_ok ok t" and "\<not> is_fail is" and "remaining is = wire_topic enc t @ rest"
  shows "\<exists>is'. read_topic dflt rd is = Inr (norm_topic t, err_topic t, is') \<and>
    (err_topic t = None \<longrightarrow> is' = is_advance (length (wire_topic enc t)) is)"
proof -
  let ?is = "is_advance (2 + length (topic_name t)) is"
  obtain ps e where u: "until_error dflt norm err (partitions t) = (ps, e)" by fastforce
  have n: "ReadString is = (topic_name t, ?is)"
    using assms by (intro ReadString_front [where rest = "wire_array enc (partitions t) @ rest"])
      (simp_all add: topic_ok_def wire_topic_def wire_string_def)
  obtain is' where "read_array dflt rd ?is = Inr (ps, e, is')"
      "e = None \<longrightarrow> is' = is_advance (length (wire_array enc (partitions t))) ?is"
    using read_array_written [of "partitions t" ?is rest ps e] assms u
    by (auto simp: topic_ok_def wire_topic_def wire_string_def)
  with u n show ?thesis
    by (auto simp: read_topic_def norm_topic_def err_topic_def wire_topic_def wire_string_def)
qed

sublocale topic: element_codec "wire_topic enc" "read_topic dflt rd" "topic_ok ok" empty_topic
    norm_topic err_topic
  by unfold_locales (rule read_topic_written)

text \<open>Without errors all topics are read.\<close>

lemma read_topics:
  assumes "array_ok (topic_ok ok) ts" and "\<not> is_fail is"
    and "remaining is = wire_array (wire_topic enc) ts @ rest"
    and "\<forall>t \<in> set ts. \<forall>q \<in> set (partitions t). err q = None"
  shows "read_array empty_topic (read_topic dflt rd) is =
    Inr (map (\<lambda>t. t\<lparr>partitions := map norm (partitions t)\<rparr>) ts, None,
      is_advance (length (wire_array (wire_topic enc) ts)) is)"
proof -
  have "\<forall>t \<in> set ts. err_topic t = None"
      "\<forall>t \<in> set ts. norm_topic t = t\<lparr>partitions := map norm (partitions t)\<rparr>"
    using assms(4) by (simp_all add: err_topic_def norm_topic_def until_error_none)
  then have "until_error empty_topic norm_topic err_topic ts =
      (map (\<lambda>t. t\<lparr>partitions := map norm (partitions t)\<rparr>) ts, None)"
    by (simp add: until_error_none)
  from topic.read_array_written [OF assms(1-3) this] show ?thesis by auto
qed

text \<open>At the first error the reader returns; what is behind is value-initialised.\<close>

lemma read_topics_error:
  assumes "array_ok (topic_ok ok) (ts @ t # us)" and "\<not> is_fail is"
    and "remaining is = wire_array (wire_topic enc) (ts @ t # us) @ rest"
    and "\<forall>t \<in> set ts. \<forall>q \<in> set (partitions t). err q = None"
    and "partitions t = ps @ q # qs" and "\<forall>q \<in> set ps. err q = None" and "err q = Some e"
  shows "\<exists>is'. read_array empty_topic (read_topic dflt rd) is =
    Inr (map (\<lambda>t. t\<lparr>partitions := map norm (partitions t)\<rparr>) ts @
      t\<lparr>partitions := map norm ps @ norm q # replicate (length qs) dflt\<rparr> #
      replicate (length us) empty_topic, Some e, is')"
proof -
  have ts: "\<forall>t \<in> set ts. err_topic t = None"
      "\<forall>t \<in> set ts. norm_topic t = t\<lparr>partitions := map norm (partitions t)\<rparr>"
    using assms(4) by (simp_all add: err_topic_def norm_topic_def until_error_none)
  have t: "err_topic t = Some e"
      "norm_topic t = t\<lparr>partitions := map norm ps @ norm q # replicate (length qs) dflt\<rparr>"
    using assms(5-7) by (simp_all add: err_topic_def norm_topic_def until_error_first)
  have "until_error empty_topic norm_topic err_topic (ts @ t # us) =
      (map (\<lambda>t. t\<lparr>partitions := map norm (partitions t)\<rparr>) ts @
      t\<lparr>partitions := map norm ps @ norm q # replicate (length qs) dflt\<rparr> #
      replicate (length us) empty_topic, Some e)"
    using until_error_first [OF ts(1) t(1), of empty_topic norm_topic us] ts(2) t(2) by simp
  from topic.read_array_written [OF assms(1-3) this] show ?thesis by auto
qed

end

section \<open>What a broker writes\<close>

definition wire_produce_partition :: "ProduceResponseProps Partition \<Rightarrow> Byte list" where
  "wire_produce_partition q =
     be_bytes 4 (partition_id q) @ be_bytes 2 (pr_error_code (partition_props q)) @
     be_bytes 8 (pr_offset (partition_props q))"

definition wire_fetch_partition ::
  "(Byte list \<Rightarrow> Int32) \<Rightarrow> FetchResponseProps Partition \<Rightarrow> Byte list" where
  "wire_fetch_partition crc32 q =
     (let set = WriteMessageSet crc32 (messages (partition_props q)) [] in
      be_bytes 4 (partition_id q) @ be_bytes 2 (fr_error_code (partition_props q)) @
      be_bytes 8 (highwater_mark_offset (partition_props q)) @
      be_bytes 4 (of_nat (length set) :: Int32) @ set)"

definition wire_offset_partition :: "OffsetResponseProps Partition \<Rightarrow> Byte list" where
  "wire_offset_partition q =
     be_bytes 4 (partition_id q) @ be_bytes 2 (or_error_code (partition_props q)) @
     wire_array (be_bytes 8) (offsets (partition_props q))"

definition wire_broker :: "Broker \<Rightarrow> Byte list" where
  "wire_broker b = be_bytes 4 (node_id b) @ wire_string (host b) @ be_bytes 4 (port b)"

definition wire_metadata_partition :: "MetadataPartitionProps Partition \<Rightarrow> Byte list" where
  "wire_metadata_partition q =
     be_bytes 2 (mp_error_code (partition_props q)) @ be_bytes 4 (partition_id q) @
     be_bytes 4 (leader (partition_props q)) @ wire_array (be_bytes 4) (replicas (partition_props q)) @
     wire_array (be_bytes 4) (isr (partition_props q))"

definition wire_metadata_topic ::
  "(MetadataPartitionProps, MetadataTopicProps) TopicPartitionBlock \<Rightarrow> Byte list" where
  "wire_metadata_topic t =
     be_bytes 2 (mt_error_code (topic_props t)) @ wire_topic wire_metadata_partition t"

definition wire_offset_commit_partition :: "OffsetCommitResponseProps Partition \<Rightarrow> Byte list" where
  "wire_offset_commit_partition q =
     be_bytes 4 (partition_id q) @ be_bytes 2 (ocr_error_code (partition_props q))"

definition wire_offset_fetch_partition :: "OffsetFetchResponseProps Partition \<Rightarrow> Byte list" where
  "wire_offset_fetch_partition q =
     be_bytes 4 (partition_id q) @ be_bytes 8 (ofr_offset (partition_props q)) @
     wire_string (ofr_metadata (partition_props q)) @ be_bytes 2 (ofr_error_code (partition_props q))"

section \<open>Field by field\<close>

lemma ReadInt16_at:
  "\<not> is_fail is \<Longrightarrow> drop n (remaining is) = be_bytes 2 x @ rest \<Longrightarrow>
   ReadInt16 (is_advance n is) = (x, is_advance (n + 2) is)"
  using ReadInt16_front [of "is_advance n is" x rest] by simp

lemma ReadInt32_at:
  "\<not> is_fail is \<Longrightarrow> drop n (remaining is) = be_bytes 4 x @ rest \<Longrightarrow>
   ReadInt32 (is_advance n is) = (x, is_advance (n + 4) is)"
  using ReadInt32_front [of "is_advance n is" x rest] by simp

lemma ReadInt64_at:
  "\<not> is_fail is \<Longrightarrow> drop n (remaining is) = be_bytes 8 x @ rest \<Longrightarrow>
   ReadInt64 (is_advance n is) = (x, is_advance (n + 8) is)"
  using ReadInt64_front [of "is_advance n is" x rest] by simp

lemma ReadString_at:
  "\<not> is_fail is \<Longrightarrow> short_string s \<Longrightarrow> drop n (remaining is) = wire_string s @ rest \<Longrightarrow>
   ReadString (is_advance n is) = (s, is_advance (n + length (wire_string s)) is)"
  using ReadString_front [of s "is_advance n is" rest] by (simp add: wire_string_def)

lemma read_counted:
  assumes "codec wr rd (\<lambda>_. True)" and "\<And>x. wr x [] = enc x"
    and "\<not> is_fail is" and "length xs < 2 ^ 31" and "drop n (remaining is) = wire_array enc xs @ rest"
  shows "ReadInt32 (is_advance n is) = (of_nat (length xs), is_advance (n + 4) is)"
    and "read_n rd (nat (sint (of_nat (length xs) :: Int32))) (is_advance (n + 4) is) =
      (xs, is_advance (n + length (wire_array enc xs)) is)"
proof -
  show "ReadInt32 (is_advance n is) = (of_nat (length xs), is_advance (n + 4) is)"
    using assms(3,5) by (intro ReadInt32_at) (simp_all add: wire_array_def)
  have c: "fold wr xs [] = concat (map enc xs)"
    using codec.axioms(1) [OF assms(1)] assms(2) by (simp add: appender.fold_concat)
  have "nat (sint (of_nat (length xs) :: Int32)) = length xs"
    using assms(4) by (simp add: sint_of_nat_less)
  moreover have "drop (n + 4) (remaining is) = concat (map enc xs) @ rest"
    using assms(5) by (simp add: wire_array_def add.commute [of n] flip: drop_drop)
  then have "read_n rd (length xs) (is_advance (n + 4) is) =
      (xs, is_advance (length (fold wr xs [])) (is_advance (n + 4) is))"
    using assms(3) c by (intro codec.read_n_front [OF assms(1)])
      (simp_all add: list_all_iff)
  ultimately show "read_n rd (nat (sint (of_nat (length xs) :: Int32))) (is_advance (n + 4) is) =
      (xs, is_advance (n + length (wire_array enc xs)) is)"
    by (simp add: c wire_array_def add.assoc)
qed

section \<open>The response classes keep the contract\<close>

interpretation produce_response: partition_codec wire_produce_partition read_produce_partition
    "\<lambda>_. True" produce_response_partition id "\<lambda>q. kafka_error (pr_error_code (partition_props q))"
proof
  fix q :: "ProduceResponseProps Partition" and "is" rest
  assume f: "\<not> is_fail is" and r: "remaining is = wire_produce_partition q @ rest"
  have "ReadInt32 is = (partition_id q, is_advance 4 is)"
    using ReadInt32_at [OF f, of 0 "partition_id q"] r by (simp add: wire_produce_partition_def)
  moreover have "ReadInt16 (is_advance 4 is) = (pr_error_code (partition_props q), is_advance 6 is)"
    using ReadInt16_at [OF f, of 4 "pr_error_code (partition_props q)"] r
    by (simp add: wire_produce_partition_def)
  moreover have "ReadInt64 (is_advance 6 is) = (pr_offset (partition_props q), is_advance 14 is)"
    using ReadInt64_at [OF f, of 6 "pr_offset (partition_props q)"] r
    by (simp add: wire_produce_partition_def)
  ultimately show "\<exists>is'. read_produce_partition is =
      Inr (id q, kafka_error (pr_error_code (partition_props q)), is') \<and>
      (kafka_error (pr_error_code (partition_props q)) = None \<longrightarrow>
       is' = is_advance (length (wire_produce_partition q)) is)"
    by (simp add: read_produce_partition_def wire_produce_partition_def)
qed

text \<open>
  What the fetch reader keeps of a partition: the messages as the message set reader delivers
  them, and none when the partition has an error code.
\<close>

definition received_partition :: "FetchResponseProps Partition \<Rightarrow> FetchResponseProps Partition" where
  "received_partition q = q\<lparr>partition_props := (partition_props q)
     \<lparr>messages := if fr_error_code (partition_props q) = 0
        then map received (messages (partition_props q)) else []\<rparr>\<rparr>"

definition fetch_partition_ok :: "(Byte list \<Rightarrow> Int32) \<Rightarrow> FetchResponseProps Partition \<Rightarrow> bool" where
  "fetch_partition_ok crc32 q \<longleftrightarrow>
     length (WriteMessageSet crc32 (messages (partition_props q)) []) < 2 ^ 31"

lemma ReadMessageSet_written:
  assumes "\<not> is_fail is" and "remaining is = WriteMessageSet crc32 ms [] @ rest"
    and "length (WriteMessageSet crc32 ms []) < 2 ^ 31"
  shows "ReadMessageSet is [] (scast (of_nat (length (WriteMessageSet crc32 ms [])) :: Int32)) =
    (map received ms, is_advance (length (WriteMessageSet crc32 ms [])) is)"
  using ReadMessageSet_after_complete [OF assms(1,2) refl, of 0 "[]"] assms(3)
  by (simp add: scast_of_nat_64 ReadMessageSet_loop_done)

interpretation fetch_response: partition_codec "wire_fetch_partition crc32" read_fetch_partition
    "fetch_partition_ok crc32" fetch_response_partition received_partition
    "\<lambda>q. kafka_error (fr_error_code (partition_props q))"
  for crc32 :: "Byte list \<Rightarrow> Int32"
proof
  fix q :: "FetchResponseProps Partition" and "is" rest
  let ?err = "fr_error_code (partition_props q)" and ?hw = "highwater_mark_offset (partition_props q)"
  let ?ms = "messages (partition_props q)" and ?set = "WriteMessageSet crc32 (messages (partition_props q)) []"
  assume ok: "fetch_partition_ok crc32 q" and f: "\<not> is_fail is"
    and r: "remaining is = wire_fetch_partition crc32 q @ rest"
  have 1: "ReadInt32 is = (partition_id q, is_advance 4 is)"
    using ReadInt32_at [OF f, of 0 "partition_id q"] r by (simp add: wire_fetch_partition_def Let_def)
  have 2: "ReadInt16 (is_advance 4 is) = (?err, is_advance 6 is)"
    using ReadInt16_at [OF f, of 4 ?err] r by (simp add: wire_fetch_partition_def Let_def)
  have 3: "ReadInt64 (is_advance 6 is) = (?hw, is_advance 14 is)"
    using ReadInt64_at [OF f, of 6 ?hw] r by (simp add: wire_fetch_partition_def Let_def)
  have 4: "ReadInt32 (is_advance 14 is) = (of_nat (length ?set), is_advance 18 is)"
    using ReadInt32_at [OF f, of 14 "of_nat (length ?set)"] r
    by (simp add: wire_fetch_partition_def Let_def)
  have 5: "ReadMessageSet (is_advance 18 is) [] (scast (of_nat (length ?set) :: Int32)) =
      (map received ?ms, is_advance (18 + length ?set) is)"
    using ReadMessageSet_written [of "is_advance 18 is" crc32 ?ms rest] f r ok
    by (simp add: wire_fetch_partition_def Let_def fetch_partition_ok_def)
  show "\<exists>is'. read_fetch_partition is = Inr (received_partition q, kafka_error ?err, is') \<and>
      (kafka_error ?err = None \<longrightarrow> is' = is_advance (length (wire_fetch_partition crc32 q)) is)"
  proof (cases "?err = 0")
    case True
    with 1 2 3 4 5 show ?thesis
      by (simp add: read_fetch_partition_def received_partition_def kafka_error_def
          wire_fetch_partition_def Let_def)
  next
    case False
    with 1 2 3 show ?thesis
      by (simp add: read_fetch_partition_def received_partition_def kafka_error_def)
  qed
qed

definition received_offsets :: "OffsetResponseProps Partition \<Rightarrow> OffsetResponseProps Partition" where
  "received_offsets q = q\<lparr>partition_props := (partition_props q)
     \<lparr>offsets := if or_error_code (partition_props q) = 0 then offsets (partition_props q) else []\<rparr>\<rparr>"

definition offset_partition_ok :: "OffsetResponseProps Partition \<Rightarrow> bool" where
  "offset_partition_ok q \<longleftrightarrow> length (offsets (partition_props q)) < 2 ^ 31"

interpretation offset_response: partition_codec wire_offset_partition read_offset_partition
    offset_partition_ok offset_response_partition received_offsets
    "\<lambda>q. kafka_error (or_error_code (partition_props q))"
proof
  fix q :: "OffsetResponseProps Partition" and "is" rest
  let ?err = "or_error_code (partition_props q)" and ?offs = "offsets (partition_props q)"
  assume ok: "offset_partition_ok q" and f: "\<not> is_fail is"
    and r: "remaining is = wire_offset_partition q @ rest"
  have 1: "ReadInt32 is = (partition_id q, is_advance 4 is)"
    using ReadInt32_at [OF f, of 0 "partition_id q"] r by (simp add: wire_offset_partition_def)
  have 2: "ReadInt16 (is_advance 4 is) = (?err, is_advance 6 is)"
    using ReadInt16_at [OF f, of 4 ?err] r by (simp add: wire_offset_partition_def)
  note 3 = read_counted [OF int64.codec_axioms _ f, of "be_bytes 8" ?offs 6 rest]
  show "\<exists>is'. read_offset_partition is = Inr (received_offsets q, kafka_error ?err, is') \<and>
      (kafka_error ?err = None \<longrightarrow> is' = is_advance (length (wire_offset_partition q)) is)"
  proof (cases "?err = 0")
    case True
    with 1 2 3 ok r show ?thesis
      by (simp add: read_offset_partition_def received_offsets_def kafka_error_def
          wire_offset_partition_def offset_partition_ok_def wire_simps)
  next
    case False
    with 1 2 show ?thesis
      by (simp add: read_offset_partition_def received_offsets_def kafka_error_def)
  qed
qed

interpretation broker_codec: element_codec wire_broker read_broker "\<lambda>b. short_string (host b)"
    metadata_broker id "\<lambda>_. None"
proof
  fix b :: Broker and "is" rest
  assume s: "short_string (host b)" and f: "\<not> is_fail is" and r: "remaining is = wire_broker b @ rest"
  let ?n = "4 + length (wire_string (host b))"
  have "ReadInt32 is = (node_id b, is_advance 4 is)"
    using ReadInt32_at [OF f, of 0 "node_id b"] r by (simp add: wire_broker_def)
  moreover have "ReadString (is_advance 4 is) = (host b, is_advance ?n is)"
    using r by (intro ReadString_at [OF f s]) (simp add: wire_broker_def)
  moreover have "ReadInt32 (is_advance ?n is) = (port b, is_advance (?n + 4) is)"
    using r by (intro ReadInt32_at [OF f]) (simp add: wire_broker_def)
  ultimately show "\<exists>is'. read_broker is = Inr (id b, None, is') \<and>
      (None = None \<longrightarrow> is' = is_advance (length (wire_broker b)) is)"
    by (simp add: read_broker_def wire_broker_def)
qed

definition metadata_partition_ok :: "MetadataPartitionProps Partition \<Rightarrow> bool" where
  "metadata_partition_ok q \<longleftrightarrow> length (replicas (partition_props q)) < 2 ^ 31 \<and>
     length (isr (partition_props q)) < 2 ^ 31"

interpretation metadata_partition_codec: element_codec wire_metadata_partition read_metadata_partition
    metadata_partition_ok metadata_partition id "\<lambda>_. None"
proof
  fix q :: "MetadataPartitionProps Partition" and "is" rest
  let ?p = "partition_props q"
  let ?n = "10 + length (wire_array (be_bytes 4) (replicas ?p))"
  assume ok: "metadata_partition_ok q" and f: "\<not> is_fail is"
    and r: "remaining is = wire_metadata_partition q @ rest"
  have "ReadInt16 is = (mp_error_code ?p, is_advance 2 is)"
    using f r by (intro ReadInt16_front) (simp_all add: wire_metadata_partition_def)
  moreover have "ReadInt32 (is_advance 2 is) = (partition_id q, is_advance 6 is)"
    using ReadInt32_at [OF f, of 2 "partition_id q"] r by (simp add: wire_metadata_partition_def)
  moreover have "ReadInt32 (is_advance 6 is) = (leader ?p, is_advance 10 is)"
    using ReadInt32_at [OF f, of 6 "leader ?p"] r by (simp add: wire_metadata_partition_def)
  moreover note read_counted [OF int32.codec_axioms _ f, of "be_bytes 4" "replicas ?p" 10
      "wire_array (be_bytes 4) (isr ?p) @ rest"]
    read_counted [OF int32.codec_axioms _ f, of "be_bytes 4" "isr ?p" ?n rest]
  ultimately show "\<exists>is'. read_metadata_partition is = Inr (id q, None, is') \<and>
      (None = None \<longrightarrow> is' = is_advance (length (wire_metadata_partition q)) is)"
    using ok r
    by (simp add: read_metadata_partition_def wire_metadata_partition_def metadata_partition_ok_def
        WriteInt32_eq add.assoc)
qed

interpretation metadata_topic_codec: element_codec wire_metadata_topic read_metadata_topic
    "topic_ok metadata_partition_ok" metadata_topic id "\<lambda>_. None"
proof
  fix t :: "(MetadataPartitionProps, MetadataTopicProps) TopicPartitionBlock" and "is" rest
  let ?err = "mt_error_code (topic_props t)" and ?n = "2 + length (wire_string (topic_name t))"
  let ?ps = "wire_array wire_metadata_partition (partitions t)"
  assume ok: "topic_ok metadata_partition_ok t" and f: "\<not> is_fail is"
    and r: "remaining is = wire_metadata_topic t @ rest"
  have 1: "ReadInt16 is = (?err, is_advance 2 is)"
    using f r by (intro ReadInt16_front) (simp_all add: wire_metadata_topic_def)
  have 2: "ReadString (is_advance 2 is) = (topic_name t, is_advance ?n is)"
    using r ok by (intro ReadString_at [OF f, where rest = "?ps @ rest"])
      (simp_all add: wire_metadata_topic_def wire_topic_def topic_ok_def)
  have u: "until_error metadata_partition id (\<lambda>_. None) (partitions t) =
      (partitions t, None :: error_code option)"
    by (subst until_error_none) simp_all
  obtain is' where 3: "read_array metadata_partition read_metadata_partition (is_advance ?n is) =
      Inr (partitions t, None, is')" "is' = is_advance (length ?ps) (is_advance ?n is)"
    using metadata_partition_codec.read_array_written [of "partitions t" "is_advance ?n is" rest, OF _ _ _ u]
      ok r f by (auto simp: wire_metadata_topic_def wire_topic_def topic_ok_def)
  show "\<exists>is'. read_metadata_topic is = Inr (id t, None, is') \<and>
      (None = None \<longrightarrow> is' = is_advance (length (wire_metadata_topic t)) is)"
    using 1 2 3
    by (simp add: read_metadata_topic_def wire_metadata_topic_def wire_topic_def add.assoc)
qed

interpretation offset_commit_response: partition_codec wire_offset_commit_partition
    read_offset_commit_partition "\<lambda>_. True" offset_commit_response_partition id "\<lambda>_. None"
proof
  fix q :: "OffsetCommitResponseProps Partition" and "is" rest
  let ?err = "ocr_error_code (partition_props q)"
  assume f: "\<not> is_fail is" and r: "remaining is = wire_offset_commit_partition q @ rest"
  have "ReadInt32 is = (partition_id q, is_advance 4 is)"
    using ReadInt32_at [OF f, of 0 "partition_id q"] r by (simp add: wire_offset_commit_partition_def)
  moreover have "ReadInt16 (is_advance 4 is) = (?err, is_advance 6 is)"
    using ReadInt16_at [OF f, of 4 ?err] r by (simp add: wire_offset_commit_partition_def)
  ultimately show "\<exists>is'. read_offset_commit_partition is = Inr (id q, None, is') \<and>
      (None = None \<longrightarrow> is' = is_advance (length (wire_offset_commit_partition q)) is)"
    by (simp add: read_offset_commit_partition_def wire_offset_commit_partition_def)
qed

interpretation offset_fetch_response: partition_codec wire_offset_fetch_partition
    read_offset_fetch_partition "\<lambda>q. short_string (ofr_metadata (partition_props q))"
    offset_fetch_response_partition id "\<lambda>_. None"
proof
  fix q :: "OffsetFetchResponseProps Partition" and "is" rest
  let ?p = "partition_props q"
  let ?n = "12 + length (wire_string (ofr_metadata ?p))"
  assume s: "short_string (ofr_metadata ?p)" and f: "\<not> is_fail is"
    and r: "remaining is = wire_offset_fetch_partition q @ rest"
  have "ReadInt32 is = (partition_id q, is_advance 4 is)"
    using ReadInt32_at [OF f, of 0 "partition_id q"] r by (simp add: wire_offset_fetch_partition_def)
  moreover have "ReadInt64 (is_advance 4 is) = (ofr_offset ?p, is_advance 12 is)"
    using ReadInt64_at [OF f, of 4 "ofr_offset ?p"] r by (simp add: wire_offset_fetch_partition_def)
  moreover have "ReadString (is_advance 12 is) = (ofr_metadata ?p, is_advance ?n is)"
    using r by (intro ReadString_at [OF f s]) (simp add: wire_offset_fetch_partition_def)
  moreover have "ReadInt16 (is_advance ?n is) = (ofr_error_code ?p, is_advance (?n + 2) is)"
    using r by (intro ReadInt16_at [OF f]) (simp add: wire_offset_fetch_partition_def)
  ultimately show "\<exists>is'. read_offset_fetch_partition is = Inr (id q, None, is') \<and>
      (None = None \<longrightarrow> is' = is_advance (length (wire_offset_fetch_partition q)) is)"
    by (simp add: read_offset_fetch_partition_def wire_offset_fetch_partition_def)
qed

section \<open>Reading whole responses\<close>

lemma open_advance: "ReadInt32 (open_istream (be_bytes 4 (x :: Int32) @ bs)) =
    (x, is_advance 4 (open_istream (be_bytes 4 x @ bs)))"
  by (rule ReadInt32_front) simp_all

lemma ReadResponse_Fetch_written:
  assumes "array_ok (topic_ok (fetch_partition_ok crc32)) ts"
    and "\<forall>t \<in> set ts. \<forall>q \<in> set (partitions t). fr_error_code (partition_props q) = 0"
    and "bytes = be_bytes 4 corr @ wire_array (wire_topic (wire_fetch_partition crc32)) ts"
  shows "ReadResponse ReadResponseMessage_Fetch (open_istream bytes) r no_error =
    Inr (r\<lparr>response_correlation_id := corr,
           fr_topics := map (\<lambda>t. t\<lparr>partitions := map received_partition (partitions t)\<rparr>) ts\<rparr>,
         no_error, is_advance (length bytes) (open_istream bytes))"
  using fetch_response.read_topics [OF assms(1), of "is_advance 4 (open_istream bytes)" "[]"] assms(2)
  by (simp add: ReadResponse_def ReadResponseMessage_Fetch_def Response_set_correlation_id_def
      assms(3) open_advance kafka_error_def)

text \<open>C10: reading a fetch response. The response a broker writes for topics whose partitions
  have no error code is read back completely: the correlation id, all topics and partitions in
  order with the messages of each, no error, and the stream at the end of the response.\<close>

theorem ReadResponse_Fetch_roundtrip:
  assumes "array_ok (topic_ok (fetch_partition_ok crc32)) ts"
    and "\<forall>t \<in> set ts. \<forall>q \<in> set (partitions t). fr_error_code (partition_props q) = 0"
    and "bytes = be_bytes 4 corr @ wire_array (wire_topic (wire_fetch_partition crc32)) ts"
  shows "ReadResponse ReadResponseMessage_Fetch (open_istream bytes) r no_error =
    Inr (r\<lparr>response_correlation_id := corr,
           fr_topics := map (\<lambda>t. t\<lparr>partitions := map received_partition (partitions t)\<rparr>) ts\<rparr>,
         no_error, is_advance (length bytes) (open_istream bytes))"
  using assms by (rule ReadResponse_Fetch_written)

text \<open>C22: the first error code of a fetch response. Reading stops at the first partition with an
  error code: it becomes the error of the response, the partitions before it are kept with their
  messages, and everything behind it (whatever the broker sent) is left value-initialised, without
  messages.\<close>

theorem ReadResponse_Fetch_error:
  assumes "array_ok (topic_ok (fetch_partition_ok crc32)) (ts @ t # us)"
    and "\<forall>t \<in> set ts. \<forall>q \<in> set (partitions t). fr_error_code (partition_props q) = 0"
    and "partitions t = ps @ q # qs" and "\<forall>q \<in> set ps. fr_error_code (partition_props q) = 0"
    and "fr_error_code (partition_props q) = err" and "err \<noteq> 0"
    and "bytes = be_bytes 4 corr @ wire_array (wire_topic (wire_fetch_partition crc32)) (ts @ t # us)"
  shows "\<exists>is'. ReadResponse ReadResponseMessage_Fetch (open_istream bytes) r no_error =
    Inr (r\<lparr>response_correlation_id := corr,
           fr_topics := map (\<lambda>t. t\<lparr>partitions := map received_partition (partitions t)\<rparr>) ts @
             t\<lparr>partitions := map received_partition ps @ received_partition q #
               replicate (length qs) fetch_response_partition\<rparr> #
             replicate (length us) empty_topic\<rparr>,
         make_error_code_kafka (sint err), is')"
proof -
  obtain is' where "read_array empty_topic (read_topic fetch_response_partition read_fetch_partition)
      (is_advance 4 (open_istream bytes)) =
    Inr (map (\<lambda>t. t\<lparr>partitions := map received_partition (partitions t)\<rparr>) ts @
      t\<lparr>partitions := map received_partition ps @ received_partition q #
        replicate (length qs) fetch_response_partition\<rparr> # replicate (length us) empty_topic,
      Some (make_error_code_kafka (sint err)), is')"
    using fetch_response.read_topics_error [OF assms(1), of "is_advance 4 (open_istream bytes)" "[]"
        ps q qs "make_error_code_kafka (sint err)"] assms(2-7)
    by (auto simp: kafka_error_def)
  then show ?thesis
    by (simp add: ReadResponse_def ReadResponseMessage_Fetch_def Response_set_correlation_id_def
        assms(7) open_advance)
qed

definition sample_fetch_partition :: "Int16 \<Rightarrow> FetchResponseProps Partition" where
  "sample_fetch_partition err = \<lparr>partition_props = \<lparr>fr_error_code = err, highwater_mark_offset = 42,
     messages = [sample_message]\<rparr>, partition_id = 3\<rparr>"

definition sample_fetch_topic :: "Int16 \<Rightarrow> FetchResponseTopic" where
  "sample_fetch_topic err = \<lparr>topic_props = (), topic_name = str ''logs'',
     partitions = [sample_fetch_partition 0, sample_fetch_partition err]\<rparr>"

definition empty_fetch_response :: FetchResponse where
  "empty_fetch_response = \<lparr>response_correlation_id = 0, fr_topics = []\<rparr>"

lemma sample_fetch_ok: "array_ok (topic_ok (fetch_partition_ok (\<lambda>_. 7))) [sample_fetch_topic err]"
  by (simp add: array_ok_def topic_ok_def fetch_partition_ok_def sample_fetch_topic_def
      sample_fetch_partition_def short_string_def str_def sample_sizes)

theorem ReadResponse_Fetch_roundtrip_witness:
  "\<exists>is'. ReadResponse ReadResponseMessage_Fetch (open_istream (be_bytes 4 (9 :: Int32) @
      wire_array (wire_topic (wire_fetch_partition (\<lambda>_. 7))) [sample_fetch_topic 0]))
      empty_fetch_response no_error =
    Inr (\<lparr>response_correlation_id = 9, fr_topics = [\<lparr>topic_props = (), topic_name = str ''logs'',
      partitions = [received_partition (sample_fetch_partition 0),
        received_partition (sample_fetch_partition 0)]\<rparr>]\<rparr>, no_error, is')"
  using ReadResponse_Fetch_roundtrip [OF sample_fetch_ok [of 0] _ refl, of 9 empty_fetch_response]
  by (simp add: empty_fetch_response_def) (simp add: sample_fetch_topic_def sample_fetch_partition_def)

theorem ReadResponse_Fetch_error_witness:
  "\<exists>is'. ReadResponse ReadResponseMessage_Fetch (open_istream (be_bytes 4 (9 :: Int32) @
      wire_array (wire_topic (wire_fetch_partition (\<lambda>_. 7))) [sample_fetch_topic 1]))
      empty_fetch_response no_error =
    Inr (\<lparr>response_correlation_id = 9, fr_topics = [\<lparr>topic_props = (), topic_name = str ''logs'',
      partitions = [received_partition (sample_fetch_partition 0),
        received_partition (sample_fetch_partition 1)]\<rparr>]\<rparr>,
      make_error_code_kafka kErrorOffsetOutOfRange, is')"
proof -
  have t: "partitions (sample_fetch_topic 1) = [sample_fetch_partition 0] @ sample_fetch_partition 1 # []"
    by (simp add: sample_fetch_topic_def)
  show ?thesis
    using ReadResponse_Fetch_error [where ts = "[]" and us = "[]", simplified append_Nil,
        OF sample_fetch_ok [of 1] _ t _ _ _ refl, of 1 9 empty_fetch_response]
    by (simp add: empty_fetch_response_def kafka_errors sample_fetch_partition_def)
      (simp add: sample_fetch_topic_def sample_fetch_partition_def)
qed

lemma ReadResponse_Metadata_written:
  assumes "array_ok (\<lambda>b. short_string (host b)) bs" and "array_ok (topic_ok metadata_partition_ok) ts"
    and "bytes = be_bytes 4 corr @ wire_array wire_broker bs @ wire_array wire_metadata_topic ts"
  shows "ReadResponse ReadResponseMessage_Metadata (open_istream bytes) r no_error =
    Inr (r\<lparr>response_correlation_id := corr, brokers := bs, mr_topics := ts\<rparr>, no_error,
         is_advance (length bytes) (open_istream bytes))"
proof -
  let ?is = "open_istream bytes" and ?bs = "wire_array wire_broker bs"
  have u: "until_error d id (\<lambda>_. None) xs = (xs, None :: error_code option)" for d :: 'z and xs
    by (subst until_error_none) simp_all
  have "read_array metadata_broker read_broker (is_advance 4 ?is) =
      Inr (bs, None, is_advance (4 + length ?bs) ?is)"
    using broker_codec.read_array_written [OF assms(1) _ _ u, of "is_advance 4 ?is"
        "wire_array wire_metadata_topic ts"] assms(3) by auto
  moreover have "read_array metadata_topic read_metadata_topic (is_advance (4 + length ?bs) ?is) =
      Inr (ts, None, is_advance (length bytes) ?is)"
    using metadata_topic_codec.read_array_written [OF assms(2) _ _ u,
        of "is_advance (4 + length ?bs) ?is" "[]"] assms(3) by (auto simp: add.assoc)
  ultimately show ?thesis
    using open_advance [of corr "?bs @ wire_array wire_metadata_topic ts"]
    by (simp add: ReadResponse_def ReadResponseMessage_Metadata_def Response_set_correlation_id_def assms(3))
qed

text \<open>C24: reading a metadata response. Whatever brokers, topics and partitions (with any error
  codes, leaders, replicas and in-sync replicas) a broker writes are read back unchanged, and no
  error is reported, also when topics or partitions carry error codes.\<close>

theorem ReadResponse_Metadata_roundtrip:
  assumes "array_ok (\<lambda>b. short_string (host b)) bs" and "array_ok (topic_ok metadata_partition_ok) ts"
    and "bytes = be_bytes 4 corr @ wire_array wire_broker bs @ wire_array wire_metadata_topic ts"
  shows "ReadResponse ReadResponseMessage_Metadata (open_istream bytes) r no_error =
    Inr (r\<lparr>response_correlation_id := corr, brokers := bs, mr_topics := ts\<rparr>, no_error,
         is_advance (length bytes) (open_istream bytes))"
  using assms by (rule ReadResponse_Metadata_written)

definition sample_metadata_topic :: "(MetadataPartitionProps, MetadataTopicProps) TopicPartitionBlock" where
  "sample_metadata_topic = \<lparr>topic_props = \<lparr>mt_error_code = 0\<rparr>, topic_name = str ''logs'',
     partitions = [\<lparr>partition_props = \<lparr>mp_error_code = 9, leader = 1, replicas = [1, 2], isr = [1]\<rparr>,
       partition_id = 0\<rparr>]\<rparr>"

theorem ReadResponse_Metadata_roundtrip_witness:
  "\<exists>is'. ReadResponse ReadResponseMessage_Metadata (open_istream (be_bytes 4 (9 :: Int32) @
      wire_array wire_broker [\<lparr>node_id = 1, host = str ''kafka'', port = 9092\<rparr>] @
      wire_array wire_metadata_topic [sample_metadata_topic]))
      \<lparr>response_correlation_id = 0, brokers = [], mr_topics = []\<rparr> no_error =
    Inr (\<lparr>response_correlation_id = 9, brokers = [\<lparr>node_id = 1, host = str ''kafka'', port = 9092\<rparr>],
      mr_topics = [sample_metadata_topic]\<rparr>, no_error, is')"
  using ReadResponse_Metadata_roundtrip [OF _ _ refl,
      of "[\<lparr>node_id = 1, host = str ''kafka'', port = 9092\<rparr>]" "[sample_metadata_topic]" 9
        "\<lparr>response_correlation_id = 0, brokers = [], mr_topics = []\<rparr>"]
  by (simp add: array_ok_def topic_ok_def short_string_def str_def metadata_partition_ok_def
      sample_metadata_topic_def)

lemma ReadResponse_Produce_written:
  assumes "array_ok (topic_ok (\<lambda>_. True)) (ts @ t # us)" and "partitions t = ps @ q # qs"
    and "\<forall>t \<in> set ts. \<forall>q \<in> set (partitions t). pr_error_code (partition_props q) = 0"
    and "\<forall>q \<in> set ps. pr_error_code (partition_props q) = 0"
    and "pr_error_code (partition_props q) = 0 \<longrightarrow> us = [] \<and> qs = []"
    and "bytes = be_bytes 4 corr @ wire_array (wire_topic wire_produce_partition) (ts @ t # us)"
  shows "\<exists>is'. ReadResponse ReadResponseMessage_Produce (open_istream bytes) r no_error =
    Inr (r\<lparr>response_correlation_id := corr,
           pr_topics := ts @ t\<lparr>partitions := ps @ q # replicate (length qs) produce_response_partition\<rparr> #
             replicate (length us) empty_topic\<rparr>,
         if pr_error_code (partition_props q) = 0 then no_error
         else make_error_code_kafka (sint (pr_error_code (partition_props q))), is')"
proof (cases "pr_error_code (partition_props q) = 0")
  case True
  with assms(2,5) have "t\<lparr>partitions := ps @ q # replicate (length qs) produce_response_partition\<rparr> = t"
    by simp
  moreover have "\<forall>t \<in> set (ts @ t # us). \<forall>q \<in> set (partitions t). pr_error_code (partition_props q) = 0"
    using True assms(2-5) by auto
  ultimately show ?thesis
    using produce_response.read_topics [OF assms(1), of "is_advance 4 (open_istream bytes)" "[]"]
      True assms(5)
    by (simp add: ReadResponse_def ReadResponseMessage_Produce_def Response_set_correlation_id_def
        assms(6) open_advance kafka_error_def)
next
  case False
  obtain is' where "read_array empty_topic (read_topic produce_response_partition read_produce_partition)
      (is_advance 4 (open_istream bytes)) =
    Inr (ts @ t\<lparr>partitions := ps @ q # replicate (length qs) produce_response_partition\<rparr> #
      replicate (length us) empty_topic,
      Some (make_error_code_kafka (sint (pr_error_code (partition_props q)))), is')"
    using produce_response.read_topics_error [OF assms(1), of "is_advance 4 (open_istream bytes)" "[]"
        ps q qs "make_error_code_kafka (sint (pr_error_code (partition_props q)))"] assms(2-4,6) False
    by (auto simp: kafka_error_def)
  with False show ?thesis
    by (simp add: ReadResponse_def ReadResponseMessage_Produce_def Response_set_correlation_id_def
        assms(6) open_advance)
qed

text \<open>C25: reading a produce response. Its topics and partitions are read back up to the first
  partition with an error code, which becomes the error of the response; the elements behind it
  stay value-initialised.\<close>

theorem ReadResponse_Produce_correct:
  assumes "array_ok (topic_ok (\<lambda>_. True)) (ts @ t # us)" and "partitions t = ps @ q # qs"
    and "\<forall>t \<in> set ts. \<forall>q \<in> set (partitions t). pr_error_code (partition_props q) = 0"
    and "\<forall>q \<in> set ps. pr_error_code (partition_props q) = 0"
    and "pr_error_code (partition_props q) = 0 \<longrightarrow> us = [] \<and> qs = []"
    and "bytes = be_bytes 4 corr @ wire_array (wire_topic wire_produce_partition) (ts @ t # us)"
  shows "\<exists>is'. ReadResponse ReadResponseMessage_Produce (open_istream bytes) r no_error =
    Inr (r\<lparr>response_correlation_id := corr,
           pr_topics := ts @ t\<lparr>partitions := ps @ q # replicate (length qs) produce_response_partition\<rparr> #
             replicate (length us) empty_topic\<rparr>,
         if pr_error_code (partition_props q) = 0 then no_error
         else make_error_code_kafka (sint (pr_error_code (partition_props q))), is')"
  using assms by (rule ReadResponse_Produce_written)

definition sample_produce_topic :: "Int16 \<Rightarrow> (ProduceResponseProps, unit) TopicPartitionBlock" where
  "sample_produce_topic err = \<lparr>topic_props = (), topic_name = str ''logs'', partitions =
     [\<lparr>partition_props = \<lparr>pr_error_code = err, pr_offset = 77\<rparr>, partition_id = 3\<rparr>]\<rparr>"

theorem ReadResponse_Produce_correct_witness:
  "\<exists>is'. ReadResponse ReadResponseMessage_Produce (open_istream (be_bytes 4 (9 :: Int32) @
      wire_array (wire_topic wire_produce_partition) [sample_produce_topic 6]))
      \<lparr>response_correlation_id = 0, pr_topics = []\<rparr> no_error =
    Inr (\<lparr>response_correlation_id = 9, pr_topics = [sample_produce_topic 6]\<rparr>,
      make_error_code_kafka kErrorNotLeaderForPartition, is')"
  using ReadResponse_Produce_correct [where ts = "[]" and us = "[]" and ps = "[]" and qs = "[]"
      and t = "sample_produce_topic 6" and corr = 9 and r = "\<lparr>response_correlation_id = 0, pr_topics = []\<rparr>"
      and q = "\<lparr>partition_props = \<lparr>pr_error_code = 6, pr_offset = 77\<rparr>, partition_id = 3\<rparr>", OF _ _ _ _ _ refl]
  by (simp add: sample_produce_topic_def array_ok_def topic_ok_def short_string_def str_def kafka_errors)

lemma ReadResponse_Offset_written:
  assumes "array_ok (topic_ok offset_partition_ok) ots"
    and "\<forall>t \<in> set ots. \<forall>q \<in> set (partitions t). or_error_code (partition_props q) = 0"
  shows "\<exists>is'. ReadResponse ReadResponseMessage_Offset
        (open_istream (be_bytes 4 corr @ wire_array (wire_topic wire_offset_partition) ots)) r1 no_error =
      Inr (r1\<lparr>response_correlation_id := corr, or_topics := ots\<rparr>, no_error, is')"
proof -
  have "map received_offsets (partitions t) = partitions t" if "t \<in> set ots" for t
    using assms(2) that by (intro map_idI) (simp add: received_offsets_def)
  then have "map (\<lambda>t. t\<lparr>partitions := map received_offsets (partitions t)\<rparr>) ots = ots"
    by (intro map_idI) simp
  then show ?thesis
    using offset_response.read_topics [OF assms(1), of "is_advance 4 (open_istream
        (be_bytes 4 corr @ wire_array (wire_topic wire_offset_partition) ots))" "[]"] assms(2)
    by (simp add: ReadResponse_def ReadResponseMessage_Offset_def Response_set_correlation_id_def
        open_advance kafka_error_def)
qed

lemma ReadResponse_Offset_failed:
  assumes "array_ok (topic_ok offset_partition_ok) (ts @ t # us)" and "partitions t = ps @ q # qs"
    and "\<forall>t \<in> set ts. \<forall>q \<in> set (partitions t). or_error_code (partition_props q) = 0"
    and "\<forall>q \<in> set ps. or_error_code (partition_props q) = 0" and "or_error_code (partition_props q) \<noteq> 0"
  shows "\<exists>is'. ReadResponse ReadResponseMessage_Offset
        (open_istream (be_bytes 4 corr @ wire_array (wire_topic wire_offset_partition) (ts @ t # us))) r1 no_error =
      Inr (r1\<lparr>response_correlation_id := corr,
             or_topics := ts @ t\<lparr>partitions := ps @ received_offsets q # replicate (length qs) offset_response_partition\<rparr> #
               replicate (length us) empty_topic\<rparr>,
           make_error_code_kafka (sint (or_error_code (partition_props q))), is')"
proof -
  let ?is = "open_istream (be_bytes 4 corr @ wire_array (wire_topic wire_offset_partition) (ts @ t # us))"
  have "map received_offsets qs = qs" if "\<forall>q \<in> set qs. or_error_code (partition_props q) = 0" for qs
    using that by (intro map_idI) (simp add: received_offsets_def)
  then have "map received_offsets ps = ps" "map (\<lambda>t. t\<lparr>partitions := map received_offsets (partitions t)\<rparr>) ts = ts"
    using assms(3,4) by (auto intro!: map_idI)
  moreover obtain is' where "read_array empty_topic (read_topic offset_response_partition read_offset_partition) (is_advance 4 ?is) =
    Inr (map (\<lambda>t. t\<lparr>partitions := map received_offsets (partitions t)\<rparr>) ts @
      t\<lparr>partitions := map received_offsets ps @ received_offsets q # replicate (length qs) offset_response_partition\<rparr> #
      replicate (length us) empty_topic,
      Some (make_error_code_kafka (sint (or_error_code (partition_props q)))), is')"
    using offset_response.read_topics_error [OF assms(1), of "is_advance 4 ?is" "[]"
        ps q qs "make_error_code_kafka (sint (or_error_code (partition_props q)))"] assms(2-5)
    by (auto simp: kafka_error_def)
  ultimately show ?thesis
    by (simp add: ReadResponse_def ReadResponseMessage_Offset_def Response_set_correlation_id_def open_advance)
qed

text \<open>C26: reading offset, offset commit, offset fetch and consumer metadata responses. An offset response
  without error codes is read back unchanged; with one, it is read up to the first partition that has
  an error code, which becomes the error of the response; that partition has no offsets and what is behind it
  stays value-initialised. Offset commit and offset fetch responses are read back unchanged whatever error codes
  their partitions have, and these never become the error of the response. A consumer metadata
  response is read back, and its error code always becomes the error of the response.\<close>

theorem ReadResponse_others_roundtrip:
  assumes "array_ok (topic_ok offset_partition_ok) ots"
    and "\<forall>t \<in> set ots. \<forall>q \<in> set (partitions t). or_error_code (partition_props q) = 0"
    and "array_ok (topic_ok (\<lambda>_. True)) cts"
    and "array_ok (topic_ok (\<lambda>q. short_string (ofr_metadata (partition_props q)))) fts"
    and "short_string ch"
    and "array_ok (topic_ok offset_partition_ok) (ets @ t # us)" and "partitions t = ps @ q # qs"
    and "\<forall>t \<in> set ets. \<forall>q \<in> set (partitions t). or_error_code (partition_props q) = 0"
    and "\<forall>q \<in> set ps. or_error_code (partition_props q) = 0" and "or_error_code (partition_props q) \<noteq> 0"
  shows "(\<exists>is'. ReadResponse ReadResponseMessage_Offset
        (open_istream (be_bytes 4 corr @ wire_array (wire_topic wire_offset_partition) ots)) r1 no_error =
      Inr (r1\<lparr>response_correlation_id := corr, or_topics := ots\<rparr>, no_error, is')) \<and>
    (\<exists>is'. ReadResponse ReadResponseMessage_Offset
        (open_istream (be_bytes 4 corr @ wire_array (wire_topic wire_offset_partition) (ets @ t # us))) r1 no_error =
      Inr (r1\<lparr>response_correlation_id := corr,
             or_topics := ets @ t\<lparr>partitions := ps @ q\<lparr>partition_props := (partition_props q)\<lparr>offsets := []\<rparr>\<rparr> #
               replicate (length qs) offset_response_partition\<rparr> # replicate (length us) empty_topic\<rparr>,
           make_error_code_kafka (sint (or_error_code (partition_props q))), is')) \<and>
    (\<exists>is'. ReadResponse ReadResponseMessage_OffsetCommit
        (open_istream (be_bytes 4 corr @ wire_array (wire_topic wire_offset_commit_partition) cts)) r2 no_error =
      Inr (r2\<lparr>response_correlation_id := corr, ocr_topics := cts\<rparr>, no_error, is')) \<and>
    (\<exists>is'. ReadResponse ReadResponseMessage_OffsetFetch
        (open_istream (be_bytes 4 corr @ wire_array (wire_topic wire_offset_fetch_partition) fts)) r3 no_error =
      Inr (r3\<lparr>response_correlation_id := corr, ofr_topics := fts\<rparr>, no_error, is')) \<and>
    (\<exists>is'. ReadResponse ReadResponseMessage_ConsumerMetadata
        (open_istream (be_bytes 4 corr @ be_bytes 2 err @ be_bytes 4 ci @ wire_string ch @ be_bytes 4 cp)) r4 no_error =
      Inr (r4\<lparr>response_correlation_id := corr, cm_error_code := err, coordinator_id := ci,
             coordinator_host := ch, coordinator_port := cp\<rparr>,
           if err = 0 then no_error else make_error_code_kafka (sint err), is'))"
proof (intro conjI)
  show "\<exists>is'. ReadResponse ReadResponseMessage_Offset
        (open_istream (be_bytes 4 corr @ wire_array (wire_topic wire_offset_partition) ots)) r1 no_error =
      Inr (r1\<lparr>response_correlation_id := corr, or_topics := ots\<rparr>, no_error, is')"
    using assms(1,2) by (rule ReadResponse_Offset_written)
  have "received_offsets q = q\<lparr>partition_props := (partition_props q)\<lparr>offsets := []\<rparr>\<rparr>"
    using assms(10) by (simp add: received_offsets_def)
  with ReadResponse_Offset_failed [OF assms(6-10)]
  show "\<exists>is'. ReadResponse ReadResponseMessage_Offset
        (open_istream (be_bytes 4 corr @ wire_array (wire_topic wire_offset_partition) (ets @ t # us))) r1 no_error =
      Inr (r1\<lparr>response_correlation_id := corr,
             or_topics := ets @ t\<lparr>partitions := ps @ q\<lparr>partition_props := (partition_props q)\<lparr>offsets := []\<rparr>\<rparr> #
               replicate (length qs) offset_response_partition\<rparr> # replicate (length us) empty_topic\<rparr>,
           make_error_code_kafka (sint (or_error_code (partition_props q))), is')"
    by simp
  show "\<exists>is'. ReadResponse ReadResponseMessage_OffsetCommit
        (open_istream (be_bytes 4 corr @ wire_array (wire_topic wire_offset_commit_partition) cts)) r2 no_error =
      Inr (r2\<lparr>response_correlation_id := corr, ocr_topics := cts\<rparr>, no_error, is')"
    using offset_commit_response.read_topics [OF assms(3), of "is_advance 4 (open_istream
        (be_bytes 4 corr @ wire_array (wire_topic wire_offset_commit_partition) cts))" "[]"]
    by (simp add: ReadResponse_def ReadResponseMessage_OffsetCommit_def Response_set_correlation_id_def
        open_advance)
  show "\<exists>is'. ReadResponse ReadResponseMessage_OffsetFetch
        (open_istream (be_bytes 4 corr @ wire_array (wire_topic wire_offset_fetch_partition) fts)) r3 no_error =
      Inr (r3\<lparr>response_correlation_id := corr, ofr_topics := fts\<rparr>, no_error, is')"
    using offset_fetch_response.read_topics [OF assms(4), of "is_advance 4 (open_istream
        (be_bytes 4 corr @ wire_array (wire_topic wire_offset_fetch_partition) fts))" "[]"]
    by (simp add: ReadResponse_def ReadResponseMessage_OffsetFetch_def Response_set_correlation_id_def
        open_advance)
  let ?is = "open_istream (be_bytes 4 corr @ be_bytes 2 err @ be_bytes 4 ci @ wire_string ch @ be_bytes 4 cp)"
  have f: "\<not> is_fail ?is" by simp
  have "ReadInt16 (is_advance 4 ?is) = (err, is_advance 6 ?is)"
    using ReadInt16_at [OF f, of 4 err] by simp
  moreover have "ReadInt32 (is_advance 6 ?is) = (ci, is_advance 10 ?is)"
    using ReadInt32_at [OF f, of 6 ci] by simp
  moreover have "ReadString (is_advance 10 ?is) = (ch, is_advance (10 + length (wire_string ch)) ?is)"
    using assms(5) by (intro ReadString_at [OF f]) simp_all
  moreover have "ReadInt32 (is_advance (10 + length (wire_string ch)) ?is) =
      (cp, is_advance (10 + length (wire_string ch) + 4) ?is)"
    by (intro ReadInt32_at [OF f, where rest = "[]"]) simp
  ultimately show "\<exists>is'. ReadResponse ReadResponseMessage_ConsumerMetadata ?is r4 no_error =
      Inr (r4\<lparr>response_correlation_id := corr, cm_error_code := err, coordinator_id := ci,
             coordinator_host := ch, coordinator_port := cp\<rparr>,
           if err = 0 then no_error else make_error_code_kafka (sint err), is')"
    by (simp add: ReadResponse_def ReadResponseMessage_ConsumerMetadata_def
        set_error_code_def set_coordinator_id_def set_coordinator_host_def set_coordinator_port_def
        Response_set_correlation_id_def open_advance kafka_error_def)
qed

definition sample_offset_topic :: "(OffsetResponseProps, unit) TopicPartitionBlock" where
  "sample_offset_topic = \<lparr>topic_props = (), topic_name = str ''logs'', partitions =
     [\<lparr>partition_props = \<lparr>or_error_code = 0, offsets = [100, 0]\<rparr>, partition_id = 3\<rparr>]\<rparr>"

definition sample_commit_topic :: "(OffsetCommitResponseProps, unit) TopicPartitionBlock" where
  "sample_commit_topic = \<lparr>topic_props = (), topic_name = str ''logs'', partitions =
     [\<lparr>partition_props = \<lparr>ocr_error_code = 12\<rparr>, partition_id = 3\<rparr>]\<rparr>"

definition failed_offset_topic :: "(OffsetResponseProps, unit) TopicPartitionBlock" where
  "failed_offset_topic = \<lparr>topic_props = (), topic_name = str ''logs'', partitions =
     [\<lparr>partition_props = \<lparr>or_error_code = 3, offsets = []\<rparr>, partition_id = 3\<rparr>]\<rparr>"

theorem ReadResponse_others_roundtrip_witness:
  "(\<exists>is'. ReadResponse ReadResponseMessage_Offset
      (open_istream (be_bytes 4 (5 :: Int32) @ wire_array (wire_topic wire_offset_partition) [sample_offset_topic]))
      \<lparr>response_correlation_id = 0, or_topics = []\<rparr> no_error =
    Inr (\<lparr>response_correlation_id = 5, or_topics = [sample_offset_topic]\<rparr>, no_error, is')) \<and>
   (\<exists>is'. ReadResponse ReadResponseMessage_Offset
      (open_istream (be_bytes 4 (5 :: Int32) @ wire_array (wire_topic wire_offset_partition) [failed_offset_topic]))
      \<lparr>response_correlation_id = 0, or_topics = []\<rparr> no_error =
    Inr (\<lparr>response_correlation_id = 5, or_topics = [failed_offset_topic]\<rparr>, make_error_code_kafka 3, is')) \<and>
   (\<exists>is'. ReadResponse ReadResponseMessage_OffsetCommit
      (open_istream (be_bytes 4 (5 :: Int32) @ wire_array (wire_topic wire_offset_commit_partition) [sample_commit_topic]))
      \<lparr>response_correlation_id = 0, ocr_topics = []\<rparr> no_error =
    Inr (\<lparr>response_correlation_id = 5, ocr_topics = [sample_commit_topic]\<rparr>, no_error, is'))"
  using ReadResponse_others_roundtrip [of "[sample_offset_topic]" "[sample_commit_topic]" "[]"
      "str ''kafka''" "[]" failed_offset_topic "[]" "[]"
      "\<lparr>partition_props = \<lparr>or_error_code = 3, offsets = []\<rparr>, partition_id = 3\<rparr>" "[]"
      5 "\<lparr>response_correlation_id = 0, or_topics = []\<rparr>"
      "\<lparr>response_correlation_id = 0, ocr_topics = []\<rparr>"
      "\<lparr>response_correlation_id = 0, ofr_topics = []\<rparr>" 0 0 0
      "\<lparr>response_correlation_id = 0, cm_error_code = 0, coordinator_id = 0,
        coordinator_host = [], coordinator_port = 0\<rparr>"]
  by (simp add: sample_offset_topic_def sample_commit_topic_def failed_offset_topic_def array_ok_def topic_ok_def
      short_string_def str_def offset_partition_ok_def)

end
