(* ===== verification/System.thy ===== *)
theory System
  imports Kafka_Prelude Wire_Stream
begin

text \<open>
  The process around the client: what the system, libevent and checksum calls of \<^verbatim>\<open>src/src/\<close>
  return is a parameter (\<open>env\<close>, indexed by the number of calls answered before), what the process does to the
  outside is a list of actions in the order of the calls, and the offset files are a map. A handler
  returns an \<open>outcome\<close>: it may not return (\<open>None\<close>), end the process (\<open>exit\<close>, a failed \<open>assert\<close>,
  an exception nobody catches) or do something undefined (\<open>Inl\<close>), or return with the new state.
\<close>

section \<open>Outcomes\<close>

datatype fault = Exit | Assert_failed | Throws cpp_exn | Undefined

type_synonym 'a outcome = "(fault + 'a) option"

definition ret :: "'a \<Rightarrow> 'a outcome" where
  "ret x = Some (Inr x)"

definition stop :: "fault \<Rightarrow> 'a outcome" where
  "stop f = Some (Inl f)"

definition bnd :: "'a outcome \<Rightarrow> ('a \<Rightarrow> 'b outcome) \<Rightarrow> 'b outcome" where
  "bnd m k = (case m of None \<Rightarrow> None | Some (Inl f) \<Rightarrow> Some (Inl f) | Some (Inr x) \<Rightarrow> k x)"

definition assert_that :: "bool \<Rightarrow> unit outcome" where
  "assert_that b = (if b then ret () else stop Assert_failed)"

fun fold_outcome :: "('a \<Rightarrow> 's \<Rightarrow> 's outcome) \<Rightarrow> 'a list \<Rightarrow> 's \<Rightarrow> 's outcome" where
  "fold_outcome f [] s = ret s"
| "fold_outcome f (x # xs) s = bnd (f x s) (fold_outcome f xs)"

text \<open>\<open>post Q m\<close>: whenever \<open>m\<close> returns, its result satisfies \<open>Q\<close>. \<open>returns Q m\<close>: it does return.\<close>

definition post :: "('a \<Rightarrow> bool) \<Rightarrow> 'a outcome \<Rightarrow> bool" where
  "post Q m \<longleftrightarrow> (case m of Some (Inr x) \<Rightarrow> Q x | _ \<Rightarrow> True)"

definition returns :: "('a \<Rightarrow> bool) \<Rightarrow> 'a outcome \<Rightarrow> bool" where
  "returns Q m \<longleftrightarrow> (case m of Some (Inr x) \<Rightarrow> Q x | _ \<Rightarrow> False)"

lemma bnd_simps [simp]:
  "bnd (ret x) k = k x" "bnd (stop f) k = stop f" "bnd None k = None" "bnd m ret = m"
  by (auto simp: bnd_def ret_def stop_def split: option.splits sum.splits)

lemma ret_inject [simp]: "ret x = ret y \<longleftrightarrow> x = y"
  by (simp add: ret_def)

lemma outcome_distinct [simp]: "ret x \<noteq> stop f" "stop f \<noteq> ret x" "ret x \<noteq> None" "stop f \<noteq> None"
  "None \<noteq> ret x" "None \<noteq> stop f" "stop f = stop g \<longleftrightarrow> f = g"
  by (auto simp: ret_def stop_def)

lemma bnd_assoc: "bnd (bnd m k) l = bnd m (\<lambda>x. bnd (k x) l)"
  by (auto simp: bnd_def split: option.splits sum.splits)

lemma bnd_eq_ret: "bnd m k = ret y \<longleftrightarrow> (\<exists>x. m = ret x \<and> k x = ret y)"
  by (auto simp: bnd_def ret_def split: option.splits sum.splits)

lemma outcome_cases [case_names none stop ret]:
  obtains "m = None" | f where "m = stop f" | x where "m = ret x"
  by (cases m) (auto simp: ret_def stop_def split: sum.splits, metis sum.exhaust)

lemma post_simps [simp]: "post Q (ret x) = Q x" "post Q (stop f)" "post Q None"
  by (simp_all add: post_def ret_def stop_def)

lemma returns_simps [simp]: "returns Q (ret x) = Q x" "\<not> returns Q (stop f)" "\<not> returns Q None"
  by (simp_all add: returns_def ret_def stop_def)

lemma post_iff: "post Q m \<longleftrightarrow> (\<forall>x. m = ret x \<longrightarrow> Q x)"
  by (cases m rule: outcome_cases) simp_all

lemma returns_iff: "returns Q m \<longleftrightarrow> (\<exists>x. m = ret x \<and> Q x)"
  by (cases m rule: outcome_cases) simp_all

lemma post_bnd: "post (\<lambda>x. post Q (k x)) m \<Longrightarrow> post Q (bnd m k)"
  by (cases m rule: outcome_cases) simp_all

lemma post_mono: "post P m \<Longrightarrow> (\<And>x. P x \<Longrightarrow> Q x) \<Longrightarrow> post Q m"
  by (auto simp: post_iff)

lemma returns_bnd: "returns (\<lambda>x. returns Q (k x)) m \<Longrightarrow> returns Q (bnd m k)"
  by (cases m rule: outcome_cases) simp_all

lemma assert_simps [simp]: "assert_that True = ret ()" "assert_that False = stop Assert_failed"
  by (simp_all add: assert_that_def)

lemma post_assert: "(b \<Longrightarrow> Q ()) \<Longrightarrow> post Q (assert_that b)"
  by (simp add: assert_that_def)

lemma post_fold:
  assumes "I s" and "\<And>x s. x \<in> set xs \<Longrightarrow> I s \<Longrightarrow> post I (f x s)"
  shows "post I (fold_outcome f xs s)"
  using assms
proof (induction xs arbitrary: s)
  case (Cons x xs)
  have "post (\<lambda>s. post I (fold_outcome f xs s)) (f x s)"
    using Cons.prems by (intro post_mono [of I, OF Cons.prems(2)] Cons.IH) auto
  then show ?case by (simp add: post_bnd)
qed simp

lemma fold_outcome_Nil: "fold_outcome f [] = ret"
  by (simp add: fun_eq_iff)

lemma fold_outcome_append: "fold_outcome f (xs @ ys) s = bnd (fold_outcome f xs s) (fold_outcome f ys)"
proof (induction xs arbitrary: s)
  case (Cons x xs)
  then have "fold_outcome f (xs @ ys) = (\<lambda>s. bnd (fold_outcome f xs s) (fold_outcome f ys))" by (simp add: fun_eq_iff)
  then show ?case by (simp add: bnd_assoc)
qed simp

section \<open>The environment\<close>

datatype errno = EINTR | EAGAIN | ECONNRESET | EBADF | Errno nat

datatype read_result = Read "Byte list" | Read_error errno

datatype write_result = Written nat | Write_error errno

record env =
  sys_socket :: "nat \<Rightarrow> int"
  sys_connect :: "nat \<Rightarrow> int"
  sys_read :: "nat \<Rightarrow> nat \<Rightarrow> read_result"
  sys_write :: "nat \<Rightarrow> write_result"
  sys_eventfd :: "nat \<Rightarrow> int"
  sys_timerfd_create :: "nat \<Rightarrow> int"
  sys_timerfd_settime :: "nat \<Rightarrow> int"
  gethostbyname :: "nat \<Rightarrow> String \<Rightarrow> String list option"
  is_directory :: "String \<Rightarrow> bool"
  open_write :: "nat \<Rightarrow> String \<Rightarrow> bool"
  boost_crc32 :: "Byte list \<Rightarrow> Int32"
  ev_read :: "16 word"
  ev_write :: "16 word"
  ev_persist :: "16 word"
  event_new :: "nat \<Rightarrow> nat list \<Rightarrow> nat option"
  event_add :: "nat \<Rightarrow> int"
  event_del :: "nat \<Rightarrow> int"

section \<open>What the process does\<close>

text \<open>\<open>Event_new h fd flags\<close>: a libevent event \<open>h\<close> for a descriptor and libevent flags.\<close>

datatype action =
    Connect int String "16 word"
  | Sleep_ms nat
  | Close int
  | Write int "Byte list"
  | Settime int "64 word" "64 word"
  | Event_new nat int "16 word"
  | Event_add nat
  | Event_del nat
  | Event_free nat
  | Loopexit
  | File_write String "Byte list"
  | On_received_data "String list"
  | On_produce_response String Int32 Int64
  | On_msg_queued

record world =
  tick :: nat
  trace :: "action list"
  files :: "String \<Rightarrow> Byte list option"

definition act :: "action \<Rightarrow> world \<Rightarrow> world" where
  "act a w = w\<lparr>trace := trace w @ [a]\<rparr>"

definition next_call :: "world \<Rightarrow> world" where
  "next_call w = w\<lparr>tick := Suc (tick w)\<rparr>"

lemma world_simps [simp]:
  "trace (act a w) = trace w @ [a]" "tick (act a w) = tick w" "files (act a w) = files w"
  "trace (next_call w) = trace w" "tick (next_call w) = Suc (tick w)" "files (next_call w) = files w"
  by (simp_all add: act_def next_call_def)

section \<open>System calls\<close>

text \<open>
  \<^verbatim>\<open>read\<close> gives at most as many bytes as asked for and \<^verbatim>\<open>write\<close> takes at most as many as there
  are; both fail with \<^verbatim>\<open>EBADF\<close> on a negative descriptor.
\<close>

definition posix_read :: "env \<Rightarrow> int \<Rightarrow> nat \<Rightarrow> world \<Rightarrow> read_result \<times> world" where
  "posix_read E fd n w =
     (if fd < 0 then (Read_error EBADF, w)
      else (case sys_read E (tick w) n of
              Read bs \<Rightarrow> (Read (take n bs), next_call w)
            | Read_error e \<Rightarrow> (Read_error e, next_call w)))"

definition posix_write :: "env \<Rightarrow> int \<Rightarrow> Byte list \<Rightarrow> world \<Rightarrow> write_result \<times> world" where
  "posix_write E fd bs w =
     (if fd < 0 then (Write_error EBADF, w)
      else (case sys_write E (tick w) of
              Written n \<Rightarrow> (let k = min n (length bs) in
                (Written k, act (Write fd (take k bs)) (next_call w)))
            | Write_error e \<Rightarrow> (Write_error e, next_call w)))"

definition posix_close :: "int \<Rightarrow> world \<Rightarrow> world" where
  "posix_close fd w = act (Close fd) w"

definition sleep_ms :: "nat \<Rightarrow> world \<Rightarrow> world" where
  "sleep_ms n w = act (Sleep_ms n) w"

text \<open>\<^verbatim>\<open>c_str()\<close> as a C string: up to the first null byte.\<close>

definition c_string :: "String \<Rightarrow> String" where
  "c_string s = takeWhile (\<lambda>b. b \<noteq> 0) s"

text \<open>
  Writing a file through an output stream: when the file can be opened for writing it is truncated
  first, otherwise nothing is written and nothing is reported.
\<close>

definition write_file :: "env \<Rightarrow> String \<Rightarrow> Byte list \<Rightarrow> world \<Rightarrow> world" where
  "write_file E name bs w =
     (if open_write E (tick w) name
      then (act (File_write name bs) (next_call w))\<lparr>files := (files w)(name := Some bs)\<rparr>
      else next_call w)"

lemma write_file_simps [simp]:
  "files (write_file E name bs w) = (if open_write E (tick w) name then (files w)(name := Some bs) else files w)"
  "tick (write_file E name bs w) = Suc (tick w)"
  by (simp_all add: write_file_def)

end
