(* ===== verification/Reactor.thy ===== *)
theory Reactor
  imports System
begin

text \<open>
  \<^verbatim>\<open>AsyncEventSource.h\<close> (flags) and \<^verbatim>\<open>LibeventReactor.cpp\<close>: the registration of descriptors
  with libevent. \<^verbatim>\<open>m_events\<close> is a \<^verbatim>\<open>std::map\<close>, so a list of pairs sorted by descriptor, whose
  \<^verbatim>\<open>insert\<close> leaves an existing entry alone. libevent is a parameter; the invariant says, on the
  actions of the process, that every event is used only between its creation and its release and
  that the map holds exactly the events that are not released.
\<close>

section \<open>Event flags\<close>

definition AEVENTIN :: "32 word" where "AEVENTIN = 0x0001"
definition AEVENTOUT :: "32 word" where "AEVENTOUT = 0x0002"
definition AEVENTRDHUP :: "32 word" where "AEVENTRDHUP = 0x0004"
definition AEVENTPRI :: "32 word" where "AEVENTPRI = 0x0008"
definition AEVENTERR :: "32 word" where "AEVENTERR = 0x0010"
definition AEVENTHUP :: "32 word" where "AEVENTHUP = 0x0020"
definition AEVENTET :: "32 word" where "AEVENTET = 0x0040"

definition AsyncEventSource_getEventFlags :: "32 word" where
  "AsyncEventSource_getEventFlags = AEVENTIN OR AEVENTOUT"

section \<open>The reactor\<close>

text \<open>\<open>m_pBase\<close> says whether the pointer to the event base is not null.\<close>

record LibeventReactor =
  m_pBase :: bool
  m_events :: "(int \<times> nat option) list"

definition LibeventReactor_new :: LibeventReactor where
  "LibeventReactor_new = \<lparr>m_pBase = False, m_events = []\<rparr>"

definition LibeventReactor_init :: "bool \<Rightarrow> LibeventReactor \<Rightarrow> bool \<times> LibeventReactor" where
  "LibeventReactor_init base r = (if \<not> base then (False, r) else (True, r\<lparr>m_pBase := base\<rparr>))"

definition LibeventReactor_of :: "bool \<Rightarrow> LibeventReactor" where
  "LibeventReactor_of base = snd (LibeventReactor_init base LibeventReactor_new)"

definition LibeventReactor_shutdown :: "LibeventReactor \<Rightarrow> world \<Rightarrow> world" where
  "LibeventReactor_shutdown r w = act Loopexit w"

definition map_insert :: "int \<Rightarrow> nat option \<Rightarrow> (int \<times> nat option) list \<Rightarrow> (int \<times> nat option) list" where
  "map_insert fd ev m = (if map_of m fd = None then insort_key fst (fd, ev) m else m)"

definition map_erase :: "int \<Rightarrow> (int \<times> nat option) list \<Rightarrow> (int \<times> nat option) list" where
  "map_erase fd m = filter (\<lambda>e. fst e \<noteq> fd) m"

text \<open>The events created and not yet released.\<close>

fun live_step :: "nat list \<Rightarrow> action \<Rightarrow> nat list" where
  "live_step L (Event_new h _ _) = h # L"
| "live_step L (Event_free h) = removeAll h L"
| "live_step L _ = L"

definition live_events :: "action list \<Rightarrow> nat list" where
  "live_events tr = foldl live_step [] tr"

definition delete_event :: "env \<Rightarrow> nat \<Rightarrow> world \<Rightarrow> world" where
  "delete_event E ev w = act (Event_free ev) (act (Event_del ev) (next_call w))"

definition unregisterFdCallback :: "env \<Rightarrow> int \<Rightarrow> LibeventReactor \<Rightarrow> world \<Rightarrow> LibeventReactor \<times> world" where
  "unregisterFdCallback E fd r w =
     (let r = r\<lparr>m_events := map_insert fd None (m_events r)\<rparr>;
          w = (case the (map_of (m_events r) fd) of
                 Some ev \<Rightarrow> delete_event E ev w
               | None \<Rightarrow> w)
      in (r\<lparr>m_events := map_erase fd (m_events r)\<rparr>, w))"

definition libevent_flags :: "env \<Rightarrow> 32 word \<Rightarrow> bool \<Rightarrow> 16 word" where
  "libevent_flags E eventFlags oneshot =
     (let eventFlag = 0;
          eventFlag = (if eventFlags AND AEVENTIN \<noteq> 0 then eventFlag OR ev_read E else eventFlag);
          eventFlag = (if eventFlags AND AEVENTOUT \<noteq> 0 then eventFlag OR ev_write E else eventFlag)
      in if \<not> oneshot then eventFlag OR ev_persist E else eventFlag)"

definition registerFdCallback ::
  "env \<Rightarrow> int \<Rightarrow> 32 word \<Rightarrow> bool \<Rightarrow> bool \<Rightarrow> LibeventReactor \<Rightarrow> world \<Rightarrow> (LibeventReactor \<times> world) outcome" where
  "registerFdCallback E fd eventFlags oneshot modify r w =
     (if \<not> m_pBase r then ret (r, w)
      else let (r, w) = (if modify then unregisterFdCallback E fd r w else (r, w)) in
        case event_new E (tick w) (live_events (trace w)) of
          None \<Rightarrow> ret (r, next_call w)
        | Some ev \<Rightarrow>
            let w = act (Event_new ev fd (libevent_flags E eventFlags oneshot)) (next_call w);
                res = event_add E (tick w);
                w = act (Event_add ev) (next_call w)
            in bnd (assert_that (res \<noteq> - 1))
                 (\<lambda>_. ret (r\<lparr>m_events := map_insert fd (Some ev) (m_events r)\<rparr>, w)))"

definition LibeventReactor_delete :: "env \<Rightarrow> LibeventReactor \<Rightarrow> world \<Rightarrow> LibeventReactor \<times> world" where
  "LibeventReactor_delete E r w =
     (r\<lparr>m_events := []\<rparr>,
      fold (\<lambda>(fd, ev) w. case ev of Some h \<Rightarrow> delete_event E h w | None \<Rightarrow> w) (m_events r) w)"

text \<open>\<^verbatim>\<open>dispatchEvents\<close> calls the callback of the event data with its own flags, when it is set.\<close>

definition dispatchEvents :: "env \<Rightarrow> int \<Rightarrow> 16 word \<Rightarrow> (int \<Rightarrow> 16 word \<Rightarrow> 's \<Rightarrow> 's outcome) option \<Rightarrow> 's \<Rightarrow> 's outcome" where
  "dispatchEvents E fd what cb s =
     (let event = 0;
          event = (if what AND ev_read E \<noteq> 0 then event OR ucast AEVENTIN else event);
          event = (if what AND ev_write E \<noteq> 0 then event OR ucast AEVENTOUT else event)
      in case cb of Some f \<Rightarrow> f fd event s | None \<Rightarrow> ret s)"

section \<open>The map\<close>

lemma distinct_insort_fst:
  "distinct (map fst (insort_key fst (k, v) m)) \<longleftrightarrow> k \<notin> fst ` set m \<and> distinct (map fst m)"
  by (induction m) (auto simp: set_insort_key)

lemma map_insert_new:
  "k \<notin> fst ` set m \<Longrightarrow> map_insert k v m = insort_key fst (k, v) m"
  by (simp add: map_insert_def map_of_eq_None_iff)

lemma map_insert_old: "k \<in> fst ` set m \<Longrightarrow> map_insert k v m = m"
  by (simp add: map_insert_def map_of_eq_None_iff)

lemma map_erase_insort: "k \<notin> fst ` set m \<Longrightarrow> map_erase k (insort_key fst (k, v) m) = m"
  by (induction m) (auto simp: map_erase_def filter_id_conv rev_image_eqI)

lemma map_of_erase: "map_of (map_erase k m) = (map_of m)(k := None)"
  by (induction m) (auto simp: map_erase_def fun_eq_iff)

lemma map_of_insort: "k \<notin> fst ` set m \<Longrightarrow> map_of (insort_key fst (k, v) m) = (map_of m)(k \<mapsto> v)"
  by (induction m) (auto simp: fun_eq_iff split: if_splits)

lemma unregister_absent:
  "map_of (m_events r) fd = None \<Longrightarrow> unregisterFdCallback E fd r w = (r, w)"
  by (simp add: unregisterFdCallback_def Let_def map_of_eq_None_iff map_insert_new map_erase_insort
      map_of_insort)

lemma unregister_present:
  "map_of (m_events r) fd = Some (Some ev) \<Longrightarrow> unregisterFdCallback E fd r w =
     (r\<lparr>m_events := map_erase fd (m_events r)\<rparr>, delete_event E ev w)"
  using map_of_SomeD [of "m_events r" fd "Some ev"]
  by (simp add: unregisterFdCallback_def Let_def map_insert_old rev_image_eqI)

section \<open>Life of the events\<close>

fun usable :: "nat list \<Rightarrow> action \<Rightarrow> bool" where
  "usable L (Event_new h _ _) \<longleftrightarrow> h \<notin> set L"
| "usable L (Event_add h) \<longleftrightarrow> h \<in> set L"
| "usable L (Event_del h) \<longleftrightarrow> h \<in> set L"
| "usable L (Event_free h) \<longleftrightarrow> h \<in> set L"
| "usable L _ \<longleftrightarrow> True"

fun events_from :: "nat list \<Rightarrow> action list \<Rightarrow> bool" where
  "events_from L [] \<longleftrightarrow> True"
| "events_from L (a # tr) \<longleftrightarrow> usable L a \<and> events_from (live_step L a) tr"

definition events_ok :: "action list \<Rightarrow> bool" where
  "events_ok tr \<longleftrightarrow> events_from [] tr"

lemma events_from_append:
  "events_from L (tr @ tr') \<longleftrightarrow> events_from L tr \<and> events_from (foldl live_step L tr) tr'"
  by (induction tr arbitrary: L) simp_all

lemma live_Nil [simp]: "live_events [] = []" "events_ok []"
  by (simp_all add: live_events_def events_ok_def)

lemma live_append [simp]: "live_events (tr @ tr') = foldl live_step (live_events tr) tr'"
  by (simp add: live_events_def)

lemma events_ok_append [simp]:
  "events_ok (tr @ tr') \<longleftrightarrow> events_ok tr \<and> events_from (live_events tr) tr'"
  by (simp add: events_ok_def events_from_append live_events_def)

definition handles :: "(int \<times> nat option) list \<Rightarrow> nat list" where
  "handles m = map (the \<circ> snd) m"

text \<open>\<open>L\<close> are the events that are not released and that the map does not hold.\<close>

definition reactor_inv :: "nat set \<Rightarrow> LibeventReactor \<Rightarrow> world \<Rightarrow> bool" where
  "reactor_inv L r w \<longleftrightarrow>
     distinct (map fst (m_events r)) \<and> None \<notin> snd ` set (m_events r) \<and>
     distinct (handles (m_events r)) \<and> events_ok (trace w) \<and>
     set (live_events (trace w)) = set (handles (m_events r)) \<union> L \<and> set (handles (m_events r)) \<inter> L = {}"

definition fresh_events :: "env \<Rightarrow> bool" where
  "fresh_events E \<longleftrightarrow> (\<forall>t L h. event_new E t L = Some h \<longrightarrow> h \<notin> set L)"

lemma reactor_inv_lookup:
  "reactor_inv L r w \<Longrightarrow> map_of (m_events r) fd = Some e \<Longrightarrow>
   \<exists>ev. e = Some ev \<and> ev \<in> set (handles (m_events r))"
proof -
  assume inv: "reactor_inv L r w" and m: "map_of (m_events r) fd = Some e"
  have e: "(fd, e) \<in> set (m_events r)" using m by (rule map_of_SomeD)
  then obtain ev where "e = Some ev" using inv by (cases e) (auto simp: reactor_inv_def rev_image_eqI)
  moreover from this have "ev \<in> set (handles (m_events r))"
    using e by (auto simp: handles_def rev_image_eqI)
  ultimately show ?thesis by blast
qed

lemma handles_insort:
  "set (handles (insort_key fst (fd, Some ev) m)) = insert ev (set (handles m))"
  "distinct (handles (insort_key fst (fd, Some ev) m)) \<longleftrightarrow> ev \<notin> set (handles m) \<and> distinct (handles m)"
  by (induction m) (auto simp: handles_def set_insort_key)

lemma handles_erase:
  assumes "distinct (map fst m)" and "distinct (handles m)" and "map_of m fd = Some (Some ev)"
  shows "set (handles (map_erase fd m)) = set (handles m) - {ev}"
    and "distinct (handles (map_erase fd m))"
proof -
  show "distinct (handles (map_erase fd m))"
    using assms(2) by (induction m) (auto simp: handles_def map_erase_def)
  have i: "inj_on (the \<circ> snd) (set m)" and f: "(fd, Some ev) \<in> set m"
    using assms(2,3) by (simp_all add: handles_def distinct_map map_of_SomeD)
  have u: "x = Some ev" if "(fd, x) \<in> set m" for x
    using assms(1,3) map_of_is_SomeI [OF assms(1) that] by simp
  have "fst e \<noteq> fd \<longleftrightarrow> e \<noteq> (fd, Some ev)" if "e \<in> set m" for e
    using u [of "snd e"] that by (cases e) auto
  then have d: "{e \<in> set m. fst e \<noteq> fd} = set m - {(fd, Some ev)}"
    by blast
  have "set (handles (map_erase fd m)) = (the \<circ> snd) ` (set m - {(fd, Some ev)})"
    unfolding handles_def map_erase_def set_map set_filter d ..
  also have "\<dots> = (the \<circ> snd) ` set m - {ev}"
    using inj_on_image_set_diff [OF i, of "set m" "{(fd, Some ev)}"] f by simp
  finally show "set (handles (map_erase fd m)) = set (handles m) - {ev}"
    by (simp add: handles_def)
qed

lemma reactor_inv_irrelevant:
  "reactor_inv L r w \<Longrightarrow> live_step (live_events (trace w)) a = live_events (trace w) \<Longrightarrow>
   usable (live_events (trace w)) a \<Longrightarrow> reactor_inv L r (act a w)"
  by (simp add: reactor_inv_def)

lemma reactor_inv_trace:
  "reactor_inv L r w \<Longrightarrow> trace w' = trace w \<Longrightarrow> reactor_inv L r w'"
  by (simp add: reactor_inv_def)

lemma unregister_inv:
  assumes "reactor_inv L r w" and "unregisterFdCallback E fd r w = (r', w')"
  shows "reactor_inv L r' w'" and "map_of (m_events r') = (map_of (m_events r))(fd := None)"
    and "m_pBase r' = m_pBase r"
proof -
  have "reactor_inv L r' w' \<and> map_of (m_events r') = (map_of (m_events r))(fd := None) \<and> m_pBase r' = m_pBase r"
  proof (cases "map_of (m_events r) fd")
    case None
    with assms show ?thesis by (auto simp: unregister_absent fun_upd_idem)
  next
    case (Some e)
    obtain ev where e: "e = Some ev" and ev: "ev \<in> set (handles (m_events r))"
      using reactor_inv_lookup [OF assms(1) Some] by blast
    have eq: "r' = r\<lparr>m_events := map_erase fd (m_events r)\<rparr>" "w' = delete_event E ev w"
      using assms(2) Some e by (simp_all add: unregister_present)
    have "distinct (map fst (map_erase fd (m_events r)))"
      using assms(1) by (simp add: reactor_inv_def map_erase_def distinct_map_filter)
    moreover have "None \<notin> snd ` set (map_erase fd (m_events r))"
      using assms(1) by (auto simp: reactor_inv_def map_erase_def)
    ultimately have "reactor_inv L r' w'"
      using assms(1) ev handles_erase [of "m_events r" fd ev] Some e
      by (auto simp: reactor_inv_def eq delete_event_def)
    then show ?thesis by (simp add: eq map_of_erase)
  qed
  then show "reactor_inv L r' w'" and "map_of (m_events r') = (map_of (m_events r))(fd := None)"
    and "m_pBase r' = m_pBase r" by auto
qed

lemma register_inv:
  assumes E: "fresh_events E" and inv: "reactor_inv L r w"
    and new: "modify \<or> map_of (m_events r) fd = None"
  shows "post (\<lambda>(r', w'). reactor_inv L r' w' \<and> m_pBase r' = m_pBase r \<and>
      (\<forall>fd'. fd' \<noteq> fd \<longrightarrow> map_of (m_events r') fd' = map_of (m_events r) fd'))
    (registerFdCallback E fd flags oneshot modify r w)"
proof -
  obtain r1 w1 where u: "(if modify then unregisterFdCallback E fd r w else (r, w)) = (r1, w1)"
    by fastforce
  have r1: "reactor_inv L r1 w1" "map_of (m_events r1) = (map_of (m_events r))(fd := None)"
      "m_pBase r1 = m_pBase r"
    using unregister_inv [OF inv, of E fd r1 w1] u inv new by (auto simp: fun_upd_idem split: if_splits)
  have abs: "fd \<notin> fst ` set (m_events r1)"
    using r1(2) by (simp add: map_of_eq_None_iff [symmetric])
  have "reactor_inv L (r1\<lparr>m_events := insort_key fst (fd, Some ev) (m_events r1)\<rparr>)
      (act (Event_add ev) (next_call (act (Event_new ev fd fl) (next_call w1))))"
    if "event_new E (tick w1) (live_events (trace w1)) = Some ev" for ev fl
  proof -
    have "ev \<notin> set (live_events (trace w1))"
      using E that by (auto simp: fresh_events_def)
    then show ?thesis
      using r1(1) abs by (auto simp: reactor_inv_def handles_insort distinct_insort_fst set_insort_key)
  qed
  moreover have "reactor_inv L r1 (next_call w1)"
    using r1(1) by (rule reactor_inv_trace) simp
  ultimately show ?thesis
    using r1 abs inv
    by (auto simp: registerFdCallback_def Let_def u map_insert_new map_of_insort assert_that_def
        split: option.splits)
qed

section \<open>Any history of registrations\<close>

text \<open>
  A descriptor may be registered anew with \<^verbatim>\<open>modify\<close>, and also without it: then the event that is created
  is not stored. \<open>L\<close> collects these events.
\<close>

inductive reactor_reach :: "env \<Rightarrow> nat set \<Rightarrow> LibeventReactor \<Rightarrow> world \<Rightarrow> bool" for E where
  start: "trace w = [] \<Longrightarrow> reactor_reach E {} (LibeventReactor_of base) w"
| register: "reactor_reach E L r w \<Longrightarrow> modify \<or> map_of (m_events r) fd = None \<Longrightarrow>
    registerFdCallback E fd flags oneshot modify r w = ret (r', w') \<Longrightarrow> reactor_reach E L r' w'"
| again: "reactor_reach E L r w \<Longrightarrow> map_of (m_events r) fd \<noteq> None \<Longrightarrow>
    registerFdCallback E fd flags oneshot False r w = ret (r', w') \<Longrightarrow>
    reactor_reach E (L \<union> (set (live_events (trace w')) - set (live_events (trace w)))) r' w'"
| unregister: "reactor_reach E L r w \<Longrightarrow> unregisterFdCallback E fd r w = (r', w') \<Longrightarrow>
    reactor_reach E L r' w'"
| elsewhere: "reactor_reach E L r w \<Longrightarrow> trace w' = trace w \<Longrightarrow> reactor_reach E L r w'"

lemma register_again_inv:
  assumes "fresh_events E" and "reactor_inv L r w" and "map_of (m_events r) fd \<noteq> None"
    and "registerFdCallback E fd flags oneshot False r w = ret (r', w')"
  shows "reactor_inv (L \<union> (set (live_events (trace w')) - set (live_events (trace w)))) r' w'"
proof -
  have "fd \<in> fst ` set (m_events r)" using assms(3) by (simp add: map_of_eq_None_iff)
  then have "map_insert fd (Some ev) (m_events r) = m_events r" for ev by (rule map_insert_old)
  moreover have "ev \<notin> set (live_events (trace w))" if "event_new E (tick w) (live_events (trace w)) = Some ev" for ev
    using assms(1) that by (auto simp: fresh_events_def)
  ultimately show ?thesis
    using assms(2,4)
    by (auto simp: registerFdCallback_def Let_def reactor_inv_def assert_that_def bnd_eq_ret split: if_splits option.splits)
qed

lemma reactor_reach_inv:
  assumes "fresh_events E"
  shows "reactor_reach E L r w \<Longrightarrow> reactor_inv L r w"
proof (induction rule: reactor_reach.induct)
  case (start w base)
  then show ?case
    by (simp add: reactor_inv_def LibeventReactor_of_def LibeventReactor_init_def
        LibeventReactor_new_def handles_def)
next
  case (register L r w modify fd flags oneshot r' w')
  then show ?case
    using register_inv [OF assms register.IH register.hyps(2), of flags oneshot]
    by (simp add: post_iff)
next
  case (again L r w fd flags oneshot r' w')
  then show ?case by (intro register_again_inv [OF assms])
next
  case (unregister L r w fd r' w')
  then show ?case by (blast intro: unregister_inv(1))
next
  case (elsewhere L r w w')
  then show ?case by (blast intro: reactor_inv_trace)
qed

lemma delete_all:
  assumes "distinct (handles m)" and "None \<notin> snd ` set m" and "events_ok (trace w)"
    and "set (live_events (trace w)) = set (handles m) \<union> L" and "set (handles m) \<inter> L = {}"
  shows "let w' = fold (\<lambda>(fd, ev) w. case ev of Some h \<Rightarrow> delete_event E h w | None \<Rightarrow> w) m w
    in events_ok (trace w') \<and> set (live_events (trace w')) = L"
  using assms
proof (induction m arbitrary: w)
  case (Cons e m)
  obtain fd h where e: "e = (fd, Some h)" using Cons.prems(2) by (cases e; cases "snd e") auto
  have "events_ok (trace (delete_event E h w))"
      "set (live_events (trace (delete_event E h w))) = set (handles m) \<union> L"
    using Cons.prems e by (auto simp: delete_event_def handles_def)
  with Cons.IH [of "delete_event E h w"] Cons.prems e show ?case
    by (simp add: handles_def Let_def)
qed (simp add: handles_def)

text \<open>C17: life of the libevent events. After any sequence of registrations and unregistrations no
  libevent event was added, deleted or released after its release or without having been created. The
  map of the reactor holds one event per descriptor, and these are the events that are not released, except for
  those that were created by registering a descriptor that was registered, without \<^verbatim>\<open>modify\<close>.
  The destructor releases each event of the map once and nothing else: what leaks are exactly these
  exceptions, and nothing does when there are none.\<close>

theorem reactor_events_safe:
  assumes "fresh_events E" and "reactor_reach E L r w"
    and "LibeventReactor_delete E r w = (r', w')"
  shows "events_ok (trace w) \<and> set (live_events (trace w)) = set (handles (m_events r)) \<union> L \<and>
    set (handles (m_events r)) \<inter> L = {} \<and> distinct (map fst (m_events r)) \<and> distinct (handles (m_events r)) \<and>
    events_ok (trace w') \<and> set (live_events (trace w')) = L \<and> m_events r' = []"
proof -
  have "reactor_inv L r w" using assms(1,2) by (rule reactor_reach_inv)
  with assms(3) delete_all [of "m_events r" w L E] show ?thesis
    by (auto simp: reactor_inv_def LibeventReactor_delete_def Let_def)
qed

definition sample_env :: env where
  "sample_env = \<lparr>sys_socket = \<lambda>_. 5, sys_connect = \<lambda>_. 0, sys_read = \<lambda>_ n. Read (replicate n 0),
     sys_write = \<lambda>_. Written 1000, sys_eventfd = \<lambda>t. 10 + int t, sys_timerfd_create = \<lambda>t. 10 + int t,
     sys_timerfd_settime = \<lambda>_. 0, gethostbyname = \<lambda>_ h. Some [h], is_directory = \<lambda>_. False, open_write = \<lambda>_ _. True,
     boost_crc32 = \<lambda>_. 7, ev_read = 2, ev_write = 4, ev_persist = 0x10,
     event_new = \<lambda>_ L. Some (Suc (foldr max L 0)), event_add = \<lambda>_. 0, event_del = \<lambda>_. 0\<rparr>"

lemma sample_env_fresh: "fresh_events sample_env"
proof -
  have "x \<in> set L \<Longrightarrow> x \<le> foldr max L 0" for x and L :: "nat list"
    by (induction L) auto
  then have "Suc (foldr max L 0) \<notin> set L" for L :: "nat list"
    by (metis not_less_eq_eq order_refl)
  then show ?thesis by (simp add: fresh_events_def sample_env_def)
qed

lemma sample_env_flags [simp]:
  "ev_read sample_env = 2" "ev_write sample_env = 4" "ev_persist sample_env = 0x10"
  by (simp_all add: sample_env_def)

definition sample_world :: world where
  "sample_world = \<lparr>tick = 0, trace = [], files = \<lambda>_. None\<rparr>"

lemma sample_register:
  "registerFdCallback sample_env 7 AEVENTIN False False (LibeventReactor_of True) sample_world =
   ret (\<lparr>m_pBase = True, m_events = [(7, Some 1)]\<rparr>,
     sample_world\<lparr>tick := 2, trace := [Event_new 1 7 0x12, Event_add 1]\<rparr>)"
  by (simp add: registerFdCallback_def LibeventReactor_of_def LibeventReactor_init_def
      LibeventReactor_new_def sample_env_def sample_world_def libevent_flags_def AEVENTIN_def
      AEVENTOUT_def map_insert_def act_def next_call_def)

theorem reactor_events_safe_witness:
  "\<exists>r w r' w'. m_events r = [(7, Some 1)] \<and> LibeventReactor_delete sample_env r w = (r', w') \<and>
     live_events (trace w) = [1] \<and> live_events (trace w') = []"
proof -
  let ?r = "\<lparr>m_pBase = True, m_events = [(7 :: int, Some (1 :: nat))]\<rparr>"
  let ?w = "sample_world\<lparr>tick := 2, trace := [Event_new 1 7 0x12, Event_add 1]\<rparr>"
  have "reactor_reach sample_env {} (LibeventReactor_of True) sample_world"
    by (rule reactor_reach.start) (simp add: sample_world_def)
  then have "reactor_reach sample_env {} ?r ?w"
    by (rule reactor_reach.register [OF _ _ sample_register])
      (simp add: LibeventReactor_of_def LibeventReactor_init_def LibeventReactor_new_def)
  moreover obtain r' w' where "LibeventReactor_delete sample_env ?r ?w = (r', w')" by fastforce
  ultimately show ?thesis
    using reactor_events_safe [OF sample_env_fresh, of "{}" ?r ?w r' w']
    by (intro exI [of _ ?r] exI [of _ ?w] exI [of _ r'] exI [of _ w']) (simp add: live_events_def)
qed

text \<open>Re-registering. With \<^verbatim>\<open>modify\<close> the event of the descriptor is replaced: the old one, if
  any, is deleted and released, the new one has the flags asked for, and no other descriptor is
  touched. Without it, on a descriptor that is registered already, a second event is created and
  added and the map keeps the first: the new event is never released by the reactor.\<close>

theorem registerFdCallback_modify:
  assumes "fresh_events E" and "reactor_inv L r w" and "m_pBase r"
    and "(if modify then unregisterFdCallback E fd r w else (r, w)) = (r1, w1)"
    and "event_new E (tick w1) (live_events (trace w1)) = Some ev"
    and "event_add E (Suc (tick w1)) \<noteq> - 1"
  shows "\<exists>r' w'. registerFdCallback E fd flags oneshot modify r w = ret (r', w') \<and>
    trace w' = trace w1 @ [Event_new ev fd (libevent_flags E flags oneshot), Event_add ev] \<and>
    map_of (m_events r') = (if modify \<or> map_of (m_events r) fd = None
      then (map_of (m_events r))(fd \<mapsto> Some ev) else map_of (m_events r)) \<and>
    (ev \<in> set (handles (m_events r')) \<longleftrightarrow> modify \<or> map_of (m_events r) fd = None)"
proof -
  have r1: "reactor_inv L r1 w1" "map_of (m_events r1) = (if modify then (map_of (m_events r))(fd := None)
      else map_of (m_events r))"
    using assms(2,4) unregister_inv [OF assms(2), of E fd r1 w1] by (auto split: if_splits)
  have ev: "ev \<notin> set (handles (m_events r1))"
    using assms(1,5) r1(1) unfolding fresh_events_def reactor_inv_def by (metis UnI1)
  have reg: "registerFdCallback E fd flags oneshot modify r w =
      ret (r1\<lparr>m_events := map_insert fd (Some ev) (m_events r1)\<rparr>,
        act (Event_add ev) (next_call (act (Event_new ev fd (libevent_flags E flags oneshot)) (next_call w1))))"
    using assms(3-6) by (simp add: registerFdCallback_def Let_def)
  show ?thesis
  proof (cases "fd \<in> fst ` set (m_events r1)")
    case True
    then have "map_of (m_events r1) fd \<noteq> None" by (simp add: map_of_eq_None_iff)
    with r1(2) obtain y where "\<not> modify" "map_of (m_events r) fd = Some y" by (auto split: if_splits)
    with True ev r1(2) show ?thesis unfolding reg by (simp add: map_insert_old)
  next
    case False
    then have "map_of (m_events r1) fd = None" by (simp add: map_of_eq_None_iff)
    with r1(2) have "modify \<or> map_of (m_events r) fd = None" by (auto split: if_splits)
    with False r1(2) show ?thesis
      by (auto simp: reg map_insert_new map_of_insort handles_insort)
  qed
qed

theorem registerFdCallback_modify_witness:
  "\<exists>r' w'. registerFdCallback sample_env 7 AEVENTOUT False False
      \<lparr>m_pBase = True, m_events = [(7, Some 1)]\<rparr>
      (sample_world\<lparr>tick := 2, trace := [Event_new 1 7 0x12, Event_add 1]\<rparr>) = ret (r', w') \<and>
     map_of (m_events r') 7 = Some (Some 1) \<and> 2 \<notin> set (handles (m_events r'))"
proof -
  let ?r = "\<lparr>m_pBase = True, m_events = [(7 :: int, Some (1 :: nat))]\<rparr>"
  let ?w = "sample_world\<lparr>tick := 2, trace := [Event_new 1 7 0x12, Event_add 1]\<rparr>"
  have "reactor_inv {} ?r ?w" by (simp add: reactor_inv_def handles_def events_ok_def live_events_def)
  from registerFdCallback_modify [OF sample_env_fresh this, of False 7 ?r ?w 2 AEVENTOUT False]
  show ?thesis by (auto simp: sample_env_def live_events_def numeral_2_eq_2)
qed

text \<open>The flags survive libevent. When libevent reports for an event with the flags computed
  from \<^verbatim>\<open>AEVENTIN\<close> and \<^verbatim>\<open>AEVENTOUT\<close> that the descriptor is readable or writable (\<open>what\<close>, a subset of
  its flags), the callback is called once with exactly the corresponding bits.\<close>

theorem dispatchEvents_flags:
  assumes "ev_read E AND ev_write E = 0" and "ev_read E \<noteq> 0" and "ev_write E \<noteq> 0"
    and "what = (if readable then ev_read E else 0) OR (if writable then ev_write E else 0)"
  shows "dispatchEvents E fd what (Some cb) s =
    cb fd ((if readable then 1 else 0) OR (if writable then 2 else 0)) s"
proof -
  have z: "ev_write E AND ev_read E = 0" using assms(1) by (simp add: and.commute)
  have "what AND ev_read E = (if readable then ev_read E else 0)"
      "what AND ev_write E = (if writable then ev_write E else 0)"
    using assms(1,4) z by (simp_all add: bit.conj_disj_distrib2)
  then show ?thesis
    using assms(2,3) by (simp add: dispatchEvents_def Let_def AEVENTIN_def AEVENTOUT_def)
qed

theorem dispatchEvents_flags_witness:
  "dispatchEvents sample_env 7 2 (Some (\<lambda>fd ev s. ret (ev, fd))) (0, 0) = ret (1, 7)"
  by (subst dispatchEvents_flags [where readable = True and writable = False]) simp_all

end
