(* ===== verification/Event_Sources.thy ===== *)
theory Event_Sources
  imports Complex_Main Reactor
begin

text \<open>
  \<^verbatim>\<open>WakeupEventSource.cpp\<close> (an eventfd) and \<^verbatim>\<open>PeriodicEventSource.cpp\<close> (a timerfd). Both handle an
  event by reading eight bytes in a loop that retries on \<^verbatim>\<open>EINTR\<close>; whether it ends depends on the
  system, so it is a partial function and not returning is \<open>None\<close>. The result \<open>Some n\<close> of a handler
  says that the callback is called with \<open>n\<close>. A \<^verbatim>\<open>double\<close> is the number it denotes, as a fraction.
\<close>

section \<open>Reading the number of expirations\<close>

partial_function (option) read_wakeups ::
  "env \<Rightarrow> int \<Rightarrow> bool \<Rightarrow> world \<Rightarrow> (fault + (64 word option \<times> world)) option" where
  "read_wakeups E fd callback w =
     (let (res, w) = posix_read E fd 8 w in
      case res of
        Read_error e \<Rightarrow>
          if e = EINTR then read_wakeups E fd callback w
          else if e = EAGAIN then Some (Inr (None, w))
          else Some (Inl Assert_failed)
      | Read bs \<Rightarrow>
          if length bs \<noteq> 8 then Some (Inr (None, w))
          else if callback then Some (Inr (Some (mem_load bs), w))
          else read_wakeups E fd callback w)"

section \<open>Wakeup events\<close>

record WakeupEventSource =
  m_iWakeupFd :: int
  wk_event_flags :: "32 word"
  m_funOnWakeup :: bool

definition WakeupEventSource_new :: WakeupEventSource where
  "WakeupEventSource_new = \<lparr>m_iWakeupFd = - 1, wk_event_flags = AEVENTIN, m_funOnWakeup = False\<rparr>"

definition WakeupEventSource_init ::
  "env \<Rightarrow> WakeupEventSource \<Rightarrow> world \<Rightarrow> (WakeupEventSource \<times> world) outcome" where
  "WakeupEventSource_init E src w =
     (let src = src\<lparr>m_funOnWakeup := True\<rparr>;
          fd = sys_eventfd E (tick w);
          w = next_call w;
          src = src\<lparr>m_iWakeupFd := fd\<rparr>
      in bnd (assert_that (fd \<noteq> - 1)) (\<lambda>_. ret (src, w)))"

definition WakeupEventSource_of :: "env \<Rightarrow> world \<Rightarrow> (WakeupEventSource \<times> world) outcome" where
  "WakeupEventSource_of E w =
     WakeupEventSource_init E \<lparr>m_iWakeupFd = - 1, wk_event_flags = AEVENTIN, m_funOnWakeup = True\<rparr> w"

definition WakeupEventSource_wakeup :: "env \<Rightarrow> WakeupEventSource \<Rightarrow> world \<Rightarrow> world outcome" where
  "WakeupEventSource_wakeup E src w =
     (let value = 1 :: 64 word;
          (res, w) = posix_write E (m_iWakeupFd src) (mem_store 8 value) w
      in case res of
           Write_error e \<Rightarrow> stop Assert_failed
         | Written n \<Rightarrow> ret w)"

definition WakeupEventSource_handleEvent ::
  "env \<Rightarrow> WakeupEventSource \<Rightarrow> 16 word \<Rightarrow> world \<Rightarrow> (64 word option \<times> world) outcome" where
  "WakeupEventSource_handleEvent E src event w =
     (if event AND ucast AEVENTIN \<noteq> 0 then read_wakeups E (m_iWakeupFd src) (m_funOnWakeup src) w
      else ret (None, w))"

definition WakeupEventSource_delete :: "WakeupEventSource \<Rightarrow> world \<Rightarrow> world" where
  "WakeupEventSource_delete src w = posix_close (m_iWakeupFd src) w"

section \<open>Periodic events\<close>

record PeriodicEventSource =
  m_iTimerFd :: int
  pe_event_flags :: "32 word"
  m_dTimePeriodSeconds :: rat
  m_funOnTimeout :: bool

definition PeriodicEventSource_new :: PeriodicEventSource where
  "PeriodicEventSource_new =
     \<lparr>m_iTimerFd = - 1, pe_event_flags = AEVENTIN, m_dTimePeriodSeconds = 0, m_funOnTimeout = False\<rparr>"

text \<open>The split into seconds and nanoseconds; converting a number out of range is undefined.\<close>

definition timer_spec :: "rat \<Rightarrow> (64 word \<times> 64 word) outcome" where
  "timer_spec timePeriodSeconds =
     (if timePeriodSeconds \<le> - 1 \<or> 2 ^ 64 \<le> timePeriodSeconds then stop Undefined
      else let seconds = (if timePeriodSeconds < 0 then 0 else \<lfloor>timePeriodSeconds\<rfloor>);
               nsec = (timePeriodSeconds - of_int seconds) * 1000000000
           in if nsec \<le> - 1 then stop Undefined
              else ret (of_int seconds, of_int (if nsec < 0 then 0 else \<lfloor>nsec\<rfloor>)))"

definition posix_settime :: "env \<Rightarrow> int \<Rightarrow> 64 word \<Rightarrow> 64 word \<Rightarrow> world \<Rightarrow> int \<times> world" where
  "posix_settime E fd seconds nanoseconds w =
     (sys_timerfd_settime E (tick w), act (Settime fd seconds nanoseconds) (next_call w))"

definition PeriodicEventSource_init ::
  "env \<Rightarrow> rat \<Rightarrow> PeriodicEventSource \<Rightarrow> world \<Rightarrow> (PeriodicEventSource \<times> world) outcome" where
  "PeriodicEventSource_init E timePeriodSeconds src w =
     (let src = src\<lparr>m_dTimePeriodSeconds := timePeriodSeconds, m_funOnTimeout := True\<rparr>;
          fd = sys_timerfd_create E (tick w);
          w = next_call w;
          src = src\<lparr>m_iTimerFd := fd\<rparr>
      in bnd (assert_that (fd \<noteq> - 1)) (\<lambda>_.
         bnd (timer_spec timePeriodSeconds) (\<lambda>(seconds, nanoseconds).
         let (res, w) = posix_settime E fd seconds nanoseconds w
         in bnd (assert_that (res \<noteq> - 1)) (\<lambda>_. ret (src, w)))))"

definition PeriodicEventSource_of :: "env \<Rightarrow> rat \<Rightarrow> world \<Rightarrow> (PeriodicEventSource \<times> world) outcome" where
  "PeriodicEventSource_of E timePeriodSeconds w =
     PeriodicEventSource_init E timePeriodSeconds
       \<lparr>m_iTimerFd = - 1, pe_event_flags = AEVENTIN, m_dTimePeriodSeconds = timePeriodSeconds, m_funOnTimeout = True\<rparr> w"

definition update_timer :: "env \<Rightarrow> rat \<Rightarrow> PeriodicEventSource \<Rightarrow> world \<Rightarrow> world outcome" where
  "update_timer E timePeriodSeconds src w =
     bnd (timer_spec timePeriodSeconds) (\<lambda>(seconds, nanoseconds).
       let (res, w) = posix_settime E (m_iTimerFd src) seconds nanoseconds w
       in bnd (assert_that (res \<noteq> - 1)) (\<lambda>_. ret w))"

definition PeriodicEventSource_handleEvent ::
  "env \<Rightarrow> PeriodicEventSource \<Rightarrow> 16 word \<Rightarrow> world \<Rightarrow> (64 word option \<times> world) outcome" where
  "PeriodicEventSource_handleEvent E src event w =
     (if event AND ucast AEVENTIN \<noteq> 0 then read_wakeups E (m_iTimerFd src) (m_funOnTimeout src) w
      else ret (None, w))"

definition PeriodicEventSource_delete :: "PeriodicEventSource \<Rightarrow> world \<Rightarrow> world" where
  "PeriodicEventSource_delete src w = posix_close (m_iTimerFd src) w"

text \<open>The callers pass a number of milliseconds divided by 1000 in \<^verbatim>\<open>int32_t\<close>, truncating.\<close>

definition ms_to_seconds :: "Int32 \<Rightarrow> rat" where
  "ms_to_seconds ms = of_int (if sint ms < 0 then - ((- sint ms) div 1000) else sint ms div 1000)"

section \<open>Properties\<close>

lemma read_wakeups_interrupted:
  assumes "0 \<le> fd" and "\<forall>i<k. sys_read E (tick w + i) 8 = Read_error EINTR"
    and "tick w' = tick w + k" and "w' = w\<lparr>tick := tick w'\<rparr>"
  shows "read_wakeups E fd cb w = read_wakeups E fd cb w'"
  using assms
proof (induction k arbitrary: w)
  case 0
  then have "w' = w" by simp
  then show ?case by simp
next
  case (Suc k)
  have "read_wakeups E fd cb w = read_wakeups E fd cb (next_call w)"
    using Suc.prems(1) Suc.prems(2) [THEN spec, of 0]
    by (subst read_wakeups.simps) (simp add: posix_read_def)
  also have "\<dots> = read_wakeups E fd cb w'"
  proof (rule Suc.IH [OF Suc.prems(1)])
    show "\<forall>i<k. sys_read E (tick (next_call w) + i) 8 = Read_error EINTR"
      using Suc.prems(2) by (metis Suc_less_eq add_Suc_shift world_simps(5))
    show "tick w' = tick (next_call w) + k" using Suc.prems(3) by simp
    show "w' = next_call w\<lparr>tick := tick w'\<rparr>" using Suc.prems(4) by (simp add: next_call_def)
  qed
  finally show ?case .
qed

text \<open>C38: an event of an initialised wakeup or periodic source calls its callback exactly once,
  with the number read: however often the read is interrupted before (finitely often), the loop
  ends after the first read of eight bytes.\<close>

theorem wakeup_callback_once:
  assumes "0 \<le> fd" and "\<forall>i<k. sys_read E (tick w + i) 8 = Read_error EINTR"
    and "sys_read E (tick w + k) 8 = Read bs" and "length bs = 8" and "event AND 1 \<noteq> 0"
  shows "WakeupEventSource_handleEvent E \<lparr>m_iWakeupFd = fd, wk_event_flags = fl, m_funOnWakeup = True\<rparr> event w =
      ret (Some (mem_load bs), w\<lparr>tick := tick w + k + 1\<rparr>) \<and>
    PeriodicEventSource_handleEvent E
        \<lparr>m_iTimerFd = fd, pe_event_flags = fl, m_dTimePeriodSeconds = t, m_funOnTimeout = True\<rparr> event w =
      ret (Some (mem_load bs), w\<lparr>tick := tick w + k + 1\<rparr>)"
proof -
  let ?w = "w\<lparr>tick := tick w + k\<rparr>"
  have "read_wakeups E fd True w = read_wakeups E fd True ?w"
    using assms(1,2) by (rule read_wakeups_interrupted) simp_all
  also have "\<dots> = ret (Some (mem_load bs), w\<lparr>tick := tick w + k + 1\<rparr>)"
    using assms(1,3,4)
    by (subst read_wakeups.simps) (simp add: posix_read_def ret_def next_call_def)
  finally show ?thesis
    using assms(5) by (simp add: WakeupEventSource_handleEvent_def PeriodicEventSource_handleEvent_def
        AEVENTIN_def)
qed

theorem wakeup_callback_once_witness:
  "WakeupEventSource_handleEvent (sample_env\<lparr>sys_read := \<lambda>t n. if t = 0 then Read_error EINTR
       else Read [3, 0, 0, 0, 0, 0, 0, 0]\<rparr>)
     \<lparr>m_iWakeupFd = 9, wk_event_flags = AEVENTIN, m_funOnWakeup = True\<rparr> 1 sample_world =
   ret (Some 3, sample_world\<lparr>tick := 2\<rparr>)"
  using wakeup_callback_once [of 9 1 "sample_env\<lparr>sys_read := \<lambda>t n. if t = 0 then Read_error EINTR
      else Read [3, 0, 0, 0, 0, 0, 0, 0]\<rparr>" sample_world "[3, 0, 0, 0, 0, 0, 0, 0]" 1 AEVENTIN 0]
  by (simp add: sample_world_def)

text \<open>C39: what the timer is armed with. For a period given in milliseconds and divided by 1000 as
  an integer, as every caller in this program does, the timer gets that many whole seconds and no
  nanoseconds; a period below one second arms it with zero, which disarms a timerfd, so that its
  callback is never called.\<close>

theorem periodic_init_milliseconds:
  assumes "0 \<le> sint ms" and "sys_timerfd_create E (tick w) = fd" and "fd \<noteq> - 1"
    and "sys_timerfd_settime E (Suc (tick w)) \<noteq> - 1"
  shows "\<exists>src' w'. PeriodicEventSource_init E (ms_to_seconds ms) src w = ret (src', w') \<and>
    m_iTimerFd src' = fd \<and> trace w' = trace w @ [Settime fd (of_int (sint ms div 1000)) 0] \<and>
    (sint ms < 1000 \<longleftrightarrow> trace w' = trace w @ [Settime fd 0 0])"
proof -
  let ?s = "sint ms div 1000"
  have "sint ms < 2147483648" using sint_lt [of ms] by simp
  moreover have m: "?s * 1000 + sint ms mod 1000 = sint ms" "0 \<le> sint ms mod 1000"
      "sint ms mod 1000 < 1000"
    by simp_all
  ultimately have s: "0 \<le> ?s" "?s < 2147483648" using assms(1) by linarith+
  then have "(of_int ?s :: rat) < 2 ^ 64" by simp
  with s have sp: "timer_spec (of_int ?s) = ret (of_int ?s, 0)"
    by (simp add: timer_spec_def Let_def)
  have z: "(of_int ?s :: 64 word) = 0 \<longleftrightarrow> sint ms < 1000"
  proof -
    have "(of_int ?s :: 64 word) = 0 \<longleftrightarrow> ?s = 0"
      using s zdvd_not_zless [of ?s "2 ^ 64"] by (cases "?s = 0") (auto simp: word_of_int_eq_0_iff)
    moreover have "?s = 0 \<longleftrightarrow> sint ms < 1000" using m s(1) by linarith
    ultimately show ?thesis by simp
  qed
  show ?thesis
    using assms z
    by (simp add: PeriodicEventSource_init_def ms_to_seconds_def sp posix_settime_def Let_def)
qed

theorem periodic_init_milliseconds_witness:
  "\<exists>src' w'. PeriodicEventSource_init sample_env (ms_to_seconds 500)
     PeriodicEventSource_new sample_world = ret (src', w') \<and> trace w' = [Settime 10 0 0]"
  using periodic_init_milliseconds [of 500 sample_env sample_world 10 PeriodicEventSource_new]
  by (auto simp: sample_env_def sample_world_def)

end
