(* ===== verification/Socket_Utils.thy ===== *)
theory Socket_Utils
  imports System
begin

text \<open>
  The namespace \<^verbatim>\<open>utils\<close> of \<^verbatim>\<open>KafkaEndpointMP.h\<close>: connecting with back-off, resolving a host name,
  and reading a given number of bytes from a blocking socket.
\<close>

section \<open>connectServer\<close>

definition posix_connect :: "env \<Rightarrow> int \<Rightarrow> String \<Rightarrow> 16 word \<Rightarrow> world \<Rightarrow> int \<times> world" where
  "posix_connect E fd ip port w = (sys_connect E (tick w), act (Connect fd ip port) (next_call w))"

definition maxRetries :: nat where "maxRetries = 3"

function connect_retries :: "env \<Rightarrow> int \<Rightarrow> String \<Rightarrow> 16 word \<Rightarrow> nat \<Rightarrow> world \<Rightarrow> int \<times> world" where
  "connect_retries E sockFd ip port ii w =
     (if ii \<le> maxRetries
      then let timeout = push_bit (ii * 2) 1;
               w = sleep_ms (1000 * timeout) w;
               (res, w) = posix_connect E sockFd ip port w
           in if res = - 1
              then if ii = maxRetries then (- 1, posix_close sockFd w)
                   else connect_retries E sockFd ip port (Suc ii) w
              else (sockFd, w)
      else (sockFd, w))"
  by pat_completeness auto
termination
  by (relation "measure (\<lambda>(E, fd, ip, port, ii, w). Suc maxRetries - ii)") auto

declare connect_retries.simps [simp del]

definition connectServer :: "env \<Rightarrow> String \<Rightarrow> 16 word \<Rightarrow> world \<Rightarrow> int \<times> world" where
  "connectServer E ip port w =
     (let sockFd = sys_socket E (tick w); w = next_call w in
      if sockFd < 0 then (sockFd, w)
      else let (res, w) = posix_connect E sockFd (c_string ip) port w in
        if res = - 1 then connect_retries E sockFd (c_string ip) port 0 w else (sockFd, w))"

section \<open>hostnameToIp\<close>

text \<open>The result code and what is stored through the pointer, if anything is.\<close>

definition hostnameToIp :: "env \<Rightarrow> String \<Rightarrow> world \<Rightarrow> (int \<times> String option) \<times> world" where
  "hostnameToIp E hostname w =
     (let w' = next_call w in
      case gethostbyname E (tick w) (c_string hostname) of
        None \<Rightarrow> ((1, None), w')
      | Some addr_list \<Rightarrow> (case addr_list of
            [] \<Rightarrow> ((1, None), w')
          | addr # _ \<Rightarrow> ((0, Some (c_string addr)), w')))"

section \<open>readData\<close>

datatype read_status = Read_all | Read_closed | Read_failed errno

text \<open>The loop of \<^verbatim>\<open>readData\<close>, with the bytes stored so far; every round stores at least one.\<close>

function readData_loop ::
  "env \<Rightarrow> int \<Rightarrow> nat \<Rightarrow> Byte list \<Rightarrow> world \<Rightarrow> (read_status \<times> Byte list) \<times> world" where
  "readData_loop E sockFd tryRead data w =
     (if tryRead = 0 then ((Read_all, data), w)
      else let (res, w) = posix_read E sockFd tryRead w in
        case res of
          Read_error e \<Rightarrow> ((Read_failed e, data), w)
        | Read bs \<Rightarrow>
            if bs = [] then ((Read_closed, data), w)
            else readData_loop E sockFd (tryRead - length bs) (data @ bs) w)"
  by pat_completeness auto
termination
  by (relation "measure (\<lambda>(E, fd, n, data, w). n)") auto

declare readData_loop.simps [simp del]

text \<open>The \<^verbatim>\<open>int\<close> result: the size itself on success, converted from \<^verbatim>\<open>size_t\<close>; \<^verbatim>\<open>errno\<close> beside it.\<close>

definition readData ::
  "env \<Rightarrow> int \<Rightarrow> nat \<Rightarrow> world \<Rightarrow> (int \<times> errno option \<times> Byte list) \<times> world" where
  "readData E sockFd sz w =
     (let ((st, data), w) = readData_loop E sockFd sz [] w in
      case st of
        Read_all \<Rightarrow> ((sint (of_nat sz :: 32 word), None, data), w)
      | Read_closed \<Rightarrow> ((0, None, data), w)
      | Read_failed e \<Rightarrow> ((- 1, Some e, data), w))"

section \<open>Properties of connectServer\<close>

definition backoff :: "int \<Rightarrow> String \<Rightarrow> 16 word \<Rightarrow> nat list \<Rightarrow> action list" where
  "backoff fd ip port secs = concat (map (\<lambda>s. [Sleep_ms (1000 * s), Connect fd ip port]) secs)"

lemma connect_retries_step:
  "ii < 3 \<Longrightarrow> connect_retries E fd ip port ii w =
   (if sys_connect E (tick w) = - 1
    then connect_retries E fd ip port (Suc ii)
      (act (Connect fd ip port) (next_call (act (Sleep_ms (1000 * 4 ^ ii)) w)))
    else (fd, act (Connect fd ip port) (next_call (act (Sleep_ms (1000 * 4 ^ ii)) w))))"
  by (subst connect_retries.simps)
    (simp add: maxRetries_def posix_connect_def sleep_ms_def push_bit_eq_mult power_mult mult.commute [of ii])

lemma connect_retries_last:
  "connect_retries E fd ip port 3 w =
   (if sys_connect E (tick w) = - 1
    then (- 1, act (Close fd) (act (Connect fd ip port) (next_call (act (Sleep_ms (1000 * 64)) w))))
    else (fd, act (Connect fd ip port) (next_call (act (Sleep_ms (1000 * 64)) w))))"
  by (subst connect_retries.simps)
    (simp add: maxRetries_def posix_connect_def posix_close_def sleep_ms_def push_bit_eq_mult)

lemma connect_retries_run:
  "ii \<le> 3 \<Longrightarrow> k \<le> 4 - ii \<Longrightarrow> \<forall>i<k. sys_connect E (tick w + i) = - 1 \<Longrightarrow>
   k < 4 - ii \<longrightarrow> sys_connect E (tick w + k) \<noteq> - 1 \<Longrightarrow>
   \<exists>w'. connect_retries E fd ip port ii w = (if k < 4 - ii then fd else - 1, w') \<and>
     trace w' = trace w @ backoff fd ip port (map (\<lambda>j. 4 ^ j) [ii ..< min 4 (ii + k + 1)]) @
       (if k < 4 - ii then [] else [Close fd])"
proof (induction k arbitrary: ii w)
  case 0
  then have "sys_connect E (tick w) \<noteq> - 1" and "[ii ..< min 4 (ii + 0 + 1)] = [ii]" by simp_all
  with 0 show ?case
    by (cases "ii = 3")
      (simp_all add: connect_retries_step connect_retries_last backoff_def)
next
  case (Suc k)
  have f: "sys_connect E (tick w) = - 1" using Suc.prems(3) by force
  show ?case
  proof (cases "ii = 3")
    case True
    with Suc.prems f show ?thesis
      by (simp add: connect_retries_last backoff_def)
  next
    case False
    let ?w = "act (Connect fd ip port) (next_call (act (Sleep_ms (1000 * 4 ^ ii)) w))"
    have l: "[ii ..< min 4 (ii + Suc k + 1)] = ii # [Suc ii ..< min 4 (Suc ii + k + 1)]"
    proof -
      have "ii < min 4 (ii + Suc k + 1)" using False Suc.prems(1) by linarith
      then have "[ii ..< min 4 (ii + Suc k + 1)] = ii # [Suc ii ..< min 4 (ii + Suc k + 1)]"
        by (rule upt_conv_Cons)
      then show ?thesis by simp
    qed
    have "\<exists>w'. connect_retries E fd ip port (Suc ii) ?w = (if k < 4 - Suc ii then fd else - 1, w') \<and>
        trace w' = trace ?w @ backoff fd ip port (map (\<lambda>j. 4 ^ j) [Suc ii ..< min 4 (Suc ii + k + 1)]) @
          (if k < 4 - Suc ii then [] else [Close fd])"
    proof (rule Suc.IH)
      show "\<forall>i<k. sys_connect E (tick ?w + i) = - 1"
        using Suc.prems(3) by (auto dest: spec [of _ "Suc i" for i])
    qed (use False Suc.prems in auto)
    moreover have "k < 4 - Suc ii \<longleftrightarrow> Suc k < 4 - ii" by auto
    moreover have "connect_retries E fd ip port ii w = connect_retries E fd ip port (Suc ii) ?w"
      using f False Suc.prems(1) by (simp add: connect_retries_step)
    ultimately show ?thesis unfolding l by (auto simp: backoff_def)
  qed
qed

text \<open>Connecting. With a socket, the first connection attempt that succeeds ends the back-off:
  before attempt number \<open>k\<close> the client has waited 1, 4, 16 and 64 seconds in this order, and the
  result is the connected socket. When all five attempts fail, the socket is closed and the result
  is -1; nothing else is done.\<close>

theorem connectServer_backoff:
  assumes "sys_socket E (tick w) = fd" and "0 \<le> fd"
    and "k \<le> 5" and "\<forall>i<k. sys_connect E (Suc (tick w) + i) = - 1"
    and "k < 5 \<longrightarrow> sys_connect E (Suc (tick w) + k) \<noteq> - 1"
  shows "let (res, w') = connectServer E ip port w;
             attempts = Connect fd (c_string ip) port # backoff fd (c_string ip) port (take k [1, 4, 16, 64])
    in res = (if k < 5 then fd else - 1) \<and>
       trace w' = trace w @ attempts @ (if k < 5 then [] else [Close fd])"
proof (cases k)
  case 0
  with assms show ?thesis
    by (simp add: connectServer_def posix_connect_def Let_def backoff_def)
next
  case (Suc j)
  let ?w = "act (Connect fd (c_string ip) port) (next_call (next_call w))"
  have f: "sys_connect E (Suc (tick w)) = - 1" using assms(4) Suc by force
  have j: "j \<le> 4" "j < 4 \<longleftrightarrow> k < 5" using assms(3) Suc by auto
  have p: "map (\<lambda>j. 4 ^ j) [0 ..< min 4 (0 + j + 1)] = take k [1, 4, 16, 64 :: nat]"
  proof -
    have "j = 0 \<or> j = 1 \<or> j = 2 \<or> j = 3 \<or> j = 4" using j(1) by linarith
    then show ?thesis by (elim disjE) (simp_all add: Suc upt_rec eval_nat_numeral)
  qed
  have "\<exists>w'. connect_retries E fd (c_string ip) port 0 ?w = (if j < 4 - 0 then fd else - 1, w') \<and>
      trace w' = trace ?w @ backoff fd (c_string ip) port (map (\<lambda>j. 4 ^ j) [0 ..< min 4 (0 + j + 1)]) @
        (if j < 4 - 0 then [] else [Close fd])"
  proof (rule connect_retries_run)
    show "\<forall>i<j. sys_connect E (tick ?w + i) = - 1"
      using assms(4) Suc by (auto dest: spec [of _ "Suc i" for i])
    show "j < 4 - 0 \<longrightarrow> sys_connect E (tick ?w + j) \<noteq> - 1"
      using assms(5) Suc by simp
  qed (use j in simp_all)
  moreover have "connectServer E ip port w = connect_retries E fd (c_string ip) port 0 ?w"
    using assms(1,2) f by (simp add: connectServer_def posix_connect_def Let_def)
  ultimately show ?thesis unfolding p using j(2) by auto
qed

theorem connectServer_backoff_witness:
  "let (res, w') = connectServer (\<lparr>sys_socket = \<lambda>_. 5, sys_connect = \<lambda>t. if t < 3 then - 1 else 0,
       sys_read = \<lambda>_ _. Read [], sys_write = \<lambda>_. Written 0, sys_eventfd = \<lambda>_. 0,
       sys_timerfd_create = \<lambda>_. 0, sys_timerfd_settime = \<lambda>_. 0, gethostbyname = \<lambda>_ _. None,
       is_directory = \<lambda>_. False, open_write = \<lambda>_ _. True, boost_crc32 = \<lambda>_. 7, ev_read = 2, ev_write = 4, ev_persist = 16, event_new = \<lambda>_ _. None,
       event_add = \<lambda>_. 0, event_del = \<lambda>_. 0\<rparr>) [49] 9092 \<lparr>tick = 0, trace = [], files = \<lambda>_. None\<rparr>
   in res = 5 \<and> trace w' = [Connect 5 [49] 9092, Sleep_ms 1000, Connect 5 [49] 9092,
        Sleep_ms 4000, Connect 5 [49] 9092]"
  using connectServer_backoff [of "\<lparr>sys_socket = \<lambda>_. 5, sys_connect = \<lambda>t. if t < 3 then - 1 else 0,
       sys_read = \<lambda>_ _. Read [], sys_write = \<lambda>_. Written 0, sys_eventfd = \<lambda>_. 0,
       sys_timerfd_create = \<lambda>_. 0, sys_timerfd_settime = \<lambda>_. 0, gethostbyname = \<lambda>_ _. None,
       is_directory = \<lambda>_. False, open_write = \<lambda>_ _. True, boost_crc32 = \<lambda>_. 7, ev_read = 2, ev_write = 4, ev_persist = 16, event_new = \<lambda>_ _. None,
       event_add = \<lambda>_. 0, event_del = \<lambda>_. 0\<rparr>" "\<lparr>tick = 0, trace = [], files = \<lambda>_. None\<rparr>" 5 2 "[49]" 9092]
  by (simp add: backoff_def c_string_def case_prod_beta)

section \<open>Properties of readData\<close>

text \<open>The bytes of \<open>k\<close> consecutive reads.\<close>

fun chunks :: "env \<Rightarrow> nat \<Rightarrow> nat \<Rightarrow> nat \<Rightarrow> Byte list" where
  "chunks E t n 0 = []"
| "chunks E t n (Suc k) =
     (case sys_read E t n of
        Read bs \<Rightarrow> take n bs @ chunks E (Suc t) (n - length (take n bs)) k
      | Read_error e \<Rightarrow> [])"

text \<open>How a call of \<^verbatim>\<open>readData\<close> that asks for \<open>n\<close> bytes may end after \<open>k\<close> pieces.\<close>

fun ends_with :: "env \<Rightarrow> nat \<Rightarrow> nat \<Rightarrow> nat \<Rightarrow> read_status \<Rightarrow> nat \<Rightarrow> bool" where
  "ends_with E t n k Read_all t' \<longleftrightarrow> t' = t + k \<and> length (chunks E t n k) = n"
| "ends_with E t n k Read_closed t' \<longleftrightarrow> t' = Suc (t + k) \<and> length (chunks E t n k) < n \<and>
     sys_read E (t + k) (n - length (chunks E t n k)) = Read []"
| "ends_with E t n k (Read_failed e) t' \<longleftrightarrow> t' = Suc (t + k) \<and> length (chunks E t n k) < n \<and>
     sys_read E (t + k) (n - length (chunks E t n k)) = Read_error e"

lemma ends_with_more:
  assumes "sys_read E t n = Read bs" and "ends_with E (Suc t) (n - length (take n bs)) k st t'"
  shows "ends_with E t n (Suc k) st t'"
proof -
  define xs where "xs = take n bs"
  have c: "chunks E t n (Suc k) = xs @ chunks E (Suc t) (n - length xs) k" using assms(1) by (simp add: xs_def)
  have "length xs \<le> n" by (simp add: xs_def)
  with assms(2) show ?thesis
    unfolding xs_def [symmetric]
    by (cases st) (simp_all only: ends_with.simps c length_append, auto simp: diff_diff_left)
qed

lemma readData_loop_chunks:
  "0 \<le> fd \<Longrightarrow> readData_loop E fd n data w = ((st, data'), w') \<Longrightarrow>
   \<exists>k \<le> n. data' = data @ chunks E (tick w) n k \<and> trace w' = trace w \<and> files w' = files w \<and> ends_with E (tick w) n k st (tick w')"
proof (induction E fd n data w arbitrary: st data' w' rule: readData_loop.induct)
  case (1 E fd n data w)
  show ?case
  proof (cases "n = 0")
    case True
    with 1(3) show ?thesis by (subst (asm) readData_loop.simps) (intro exI [of _ 0], auto)
  next
    case False
    note eq = 1(3) [unfolded readData_loop.simps [of E fd n data w]]
    show ?thesis
    proof (cases "sys_read E (tick w) n")
      case (Read_error e)
      with eq False 1(2) show ?thesis
        by (intro exI [of _ 0]) (auto simp: posix_read_def)
    next
      case (Read bs)
      let ?bs = "take n bs"
      show ?thesis
      proof (cases "?bs = []")
        case True
        with eq False Read 1(2) show ?thesis
          by (intro exI [of _ 0]) (auto simp: posix_read_def)
      next
        case ne: False
        have rd: "posix_read E fd n w = (Read ?bs, next_call w)"
          using Read 1(2) by (simp add: posix_read_def)
        have "readData_loop E fd (n - length ?bs) (data @ ?bs) (next_call w) = ((st, data'), w')"
          using eq False ne rd by simp
        from 1(1) [OF False rd [symmetric] refl refl ne 1(2) this]
        obtain k where k: "k \<le> n - length ?bs"
          "data' = (data @ ?bs) @ chunks E (Suc (tick w)) (n - length ?bs) k"
          "trace w' = trace w" "files w' = files w" "ends_with E (Suc (tick w)) (n - length ?bs) k st (tick w')"
          by auto
        have "0 < length ?bs" "length ?bs \<le> n" using ne by auto
        then have "Suc k \<le> n" using k(1) by linarith
        with k Read ends_with_more [OF Read k(5)] show ?thesis by (intro exI [of _ "Suc k"]) auto
      qed
    qed
  qed
qed

text \<open>C23: reading a number of bytes, below \<open>2 ^ 31\<close>. Whatever the socket delivers, \<^verbatim>\<open>readData\<close> ends after at most that many
  reads that bring a piece, has stored exactly these pieces in their order, and has done nothing else.
  It returns the number of bytes asked for, and has stored exactly so many, or 0 when the next read
  found the end of the stream before the bytes were complete, or -1 with the error when the next read
  failed.\<close>

theorem readData_exact:
  assumes "0 \<le> fd" and "n < 2 ^ 31" and "readData E fd n w = ((res, err, data), w')"
  shows "trace w' = trace w \<and> files w' = files w \<and>
    (\<exists>k \<le> n. data = chunks E (tick w) n k \<and>
      (if length data = n then res = int n \<and> err = None \<and> tick w' = tick w + k
       else length data < n \<and> tick w' = Suc (tick w + k) \<and>
         (case sys_read E (tick w + k) (n - length data) of
            Read bs \<Rightarrow> bs = [] \<and> res = 0 \<and> err = None
          | Read_error e \<Rightarrow> res = - 1 \<and> err = Some e)))"
proof -
  obtain st where l: "readData_loop E fd n [] w = ((st, data), w')"
    using assms(3) by (auto simp: readData_def split: prod.splits read_status.splits)
  obtain k where k: "k \<le> n" "data = chunks E (tick w) n k" "trace w' = trace w" "files w' = files w"
      "ends_with E (tick w) n k st (tick w')"
    using readData_loop_chunks [OF assms(1) l] by auto
  have "sint (of_nat n :: 32 word) = int n" using assms(2) sint_of_nat_less [of n, where 'a = 32] by simp
  with k(2,5) assms(3) l
  have "if length data = n then res = int n \<and> err = None \<and> tick w' = tick w + k
       else length data < n \<and> tick w' = Suc (tick w + k) \<and>
         (case sys_read E (tick w + k) (n - length data) of
            Read bs \<Rightarrow> bs = [] \<and> res = 0 \<and> err = None
          | Read_error e \<Rightarrow> res = - 1 \<and> err = Some e)"
    by (cases st) (auto simp: readData_def)
  with k show ?thesis by blast
qed

definition drip_env :: env where
  "drip_env = \<lparr>sys_socket = \<lambda>_. 5, sys_connect = \<lambda>_. 0,
     sys_read = \<lambda>t n. Read (if t = 0 then [1, 2, 3] else [4, 5, 6]), sys_write = \<lambda>_. Written 0,
     sys_eventfd = \<lambda>_. 0, sys_timerfd_create = \<lambda>_. 0, sys_timerfd_settime = \<lambda>_. 0,
     gethostbyname = \<lambda>_ _. None, is_directory = \<lambda>_. False, open_write = \<lambda>_ _. True, boost_crc32 = \<lambda>_. 7, ev_read = 2, ev_write = 4, ev_persist = 16,
     event_new = \<lambda>_ _. None, event_add = \<lambda>_. 0, event_del = \<lambda>_. 0\<rparr>"

theorem readData_exact_witness:
  "\<exists>w'. readData drip_env 5 4 \<lparr>tick = 0, trace = [], files = \<lambda>_. None\<rparr> = ((4, None, [1, 2, 3, 4]), w') \<and>
     tick w' = 2 \<and> chunks drip_env 0 4 2 = [1, 2, 3, 4]"
proof -
  let ?w = "\<lparr>tick = 0, trace = [], files = \<lambda>_. None\<rparr> :: world"
  have l: "readData drip_env 5 4 ?w = ((4, None, [1, 2, 3, 4]), ?w\<lparr>tick := 2\<rparr>)"
    by (simp add: readData_def)
      (simp add: readData_loop.simps posix_read_def drip_env_def next_call_def numeral_2_eq_2)
  from readData_exact [OF _ _ l] obtain k where "k \<le> 4" "[1, 2, 3, 4] = chunks drip_env 0 4 k" "2 = k" by auto
  then show ?thesis using l by simp
qed

end
