(* ===== verification/Offset_Store.thy ===== *)
theory Offset_Store
  imports System
begin

text \<open>
  The text of the offset files of \<^verbatim>\<open>KafkaPartition::getKafkaOffset\<close> and \<^verbatim>\<open>commitKafkaOffset\<close>:
  decimal output of integers, the word loop \<^verbatim>\<open>while (file >> content)\<close> and \<^verbatim>\<open>std::stoll\<close>.
\<close>

section \<open>Decimal output\<close>

fun dec_nat :: "nat \<Rightarrow> Byte list" where
  "dec_nat n = (if n < 10 then [of_nat (48 + n)] else dec_nat (n div 10) @ [of_nat (48 + n mod 10)])"

declare dec_nat.simps [simp del]

definition dec_int :: "int \<Rightarrow> Byte list" where
  "dec_int i = (if i < 0 then 45 # dec_nat (nat (- i)) else dec_nat (nat i))"

section \<open>Input\<close>

definition is_space :: "Byte \<Rightarrow> bool" where
  "is_space b \<longleftrightarrow> b = 32 \<or> (9 \<le> b \<and> b \<le> 13)"

definition is_digit :: "Byte \<Rightarrow> bool" where
  "is_digit b \<longleftrightarrow> 48 \<le> b \<and> b \<le> 57"

text \<open>The last word of a file, nothing when there is none: a failed extraction leaves the string.\<close>

function last_word :: "Byte list \<Rightarrow> String \<Rightarrow> String" where
  "last_word bs content =
     (case dropWhile is_space bs of
        [] \<Rightarrow> content
      | c # cs \<Rightarrow> last_word (dropWhile (\<lambda>b. \<not> is_space b) cs) (c # takeWhile (\<lambda>b. \<not> is_space b) cs))"
  by pat_completeness auto
termination
proof (relation "measure (\<lambda>(bs, content). length bs)")
  fix bs c cs
  assume "dropWhile is_space bs = c # cs"
  then have "length (c # cs) \<le> length bs" by (metis length_dropWhile_le)
  moreover have "length (dropWhile (\<lambda>b. \<not> is_space b) cs) \<le> length cs" by (rule length_dropWhile_le)
  ultimately show "((dropWhile (\<lambda>b. \<not> is_space b) cs, c # takeWhile (\<lambda>b. \<not> is_space b) cs), bs, content)
      \<in> measure (\<lambda>(bs, content). length bs)" for content by simp
qed simp

declare last_word.simps [simp del]

definition digits_value :: "Byte list \<Rightarrow> nat" where
  "digits_value ds = foldl (\<lambda>n b. n * 10 + (unat b - 48)) 0 ds"

definition stoll :: "String \<Rightarrow> cpp_exn + Int64" where
  "stoll s =
     (let s = dropWhile is_space s;
          neg = (s \<noteq> [] \<and> hd s = 45);
          s = (if s \<noteq> [] \<and> (hd s = 45 \<or> hd s = 43) then tl s else s);
          ds = takeWhile is_digit s;
          v = (if neg then - int (digits_value ds) else int (digits_value ds))
      in if ds = [] then Inl Invalid_argument
         else if v < - (2 ^ 63) \<or> 2 ^ 63 \<le> v then Inl Out_of_range
         else Inr (of_int v))"

section \<open>Reading back\<close>

lemma digit_byte:
  "k < 10 \<Longrightarrow> is_digit (of_nat (48 + k))"
  "k < 10 \<Longrightarrow> unat (of_nat (48 + k) :: Byte) = 48 + k"
proof -
  show u: "k < 10 \<Longrightarrow> unat (of_nat (48 + k) :: Byte) = 48 + k"
    by (intro unat_of_nat_less) simp
  show "k < 10 \<Longrightarrow> is_digit (of_nat (48 + k))"
    unfolding is_digit_def word_le_nat_alt using u by simp
qed

lemma dec_nat_digits: "dec_nat n \<noteq> [] \<and> list_all is_digit (dec_nat n)"
proof (induction n rule: dec_nat.induct)
  case (1 n)
  then show ?case
    by (subst (1 2) dec_nat.simps) (simp add: digit_byte(1) del: of_nat_add)
qed

lemma digits_value_snoc: "digits_value (ds @ [b]) = digits_value ds * 10 + (unat b - 48)"
  by (simp add: digits_value_def)

lemma digits_value_dec: "digits_value (dec_nat n) = n"
proof (induction n rule: dec_nat.induct)
  case (1 n)
  show ?case
  proof (cases "n < 10")
    case True
    then show ?thesis
      by (subst dec_nat.simps) (simp add: digits_value_def digit_byte(2) del: of_nat_add)
  next
    case False
    have "n mod 10 < 10" by simp
    with 1 [OF False] False show ?thesis
      by (subst dec_nat.simps) (simp add: digits_value_snoc digit_byte(2) del: of_nat_add)
  qed
qed

lemma digit_not: "is_digit b \<Longrightarrow> \<not> is_space b" "is_digit b \<Longrightarrow> b \<noteq> 45" "is_digit b \<Longrightarrow> b \<noteq> 43"
  by (auto simp: is_digit_def is_space_def word_le_nat_alt)

lemma dec_nat_word:
  "dropWhile is_space (dec_nat n) = dec_nat n" "takeWhile is_digit (dec_nat n) = dec_nat n"
  "hd (dec_nat n) \<noteq> 45" "hd (dec_nat n) \<noteq> 43"
  using dec_nat_digits [of n] digit_not
  by (auto simp: dropWhile_eq_self_iff takeWhile_eq_all_conv list_all_iff)

lemma stoll_dec_nat:
  "stoll (dec_nat n) = (if n < 2 ^ 63 then Inr (of_nat n) else Inl Out_of_range)"
  using dec_nat_digits [of n] by (simp add: stoll_def dec_nat_word digits_value_dec Let_def)

lemma last_word_single:
  "bs \<noteq> [] \<Longrightarrow> list_all (\<lambda>b. \<not> is_space b) bs \<Longrightarrow> last_word bs content = bs"
  by (subst last_word.simps; cases bs)
    (simp_all add: takeWhile_eq_all_conv [THEN iffD2] list_all_iff last_word.simps [of "[]"]
      dropWhile_eq_Nil_conv [THEN iffD2])

lemma last_word_dec: "last_word (dec_nat n) content = dec_nat n"
  using dec_nat_digits [of n] digit_not(1)
  by (intro last_word_single) (auto simp: list_all_iff)

end
