(* ===== verification/Endpoint.thy ===== *)
theory Endpoint
  imports Request_Write Response_Read Event_Sources Socket_Utils Offset_Store
begin

text \<open>
  \<^verbatim>\<open>KafkaEndpointMP.h\<close> and \<^verbatim>\<open>KafkaEndpointMP.cpp\<close>: the configuration and the class
  \<^verbatim>\<open>KafkaPartition\<close>, one connection to the leader of one topic-partition. The state of a handler is
  the partition, the reactor it refers to and the process around it. The callbacks of the
  application are actions; that the application calls back into the library from inside them is
  not modelled. Only \<^verbatim>\<open>onWriteReady\<close> calls itself; it and the loop of the destructor are partial
  functions.
\<close>

section \<open>Configuration\<close>

datatype KafkaFetchOffest = FROM_BEGINNING | FROM_END | FROM_STORED

datatype KafkaPartitionType = CONSUMER_P | PRODUCER_P

datatype KafkaPartitioningMethod = ROUND_ROBIN | PARTITION_FUNCTION

definition KAFKA_ALL_PARTITIONS :: Int32 where "KAFKA_ALL_PARTITIONS = - 1"

record KafkaClientConfig =
  clientId :: String
  mRefreshIntervalMs :: Int32
  cMaxFetchWaitTimeMs :: Int32
  cMaxFetchBytes :: Int32
  cMinFetchBytes :: Int32
  cAutoCommitEnable :: bool
  cAutoCommitIntervalMs :: Int32
  cStartOffset :: KafkaFetchOffest
  cOffsetStorePath :: String
  pPartitioningMethod :: KafkaPartitioningMethod
  pRequiredAcks :: Int16
  pTimeout :: Int32
  pBatchNumMsgs :: Int32
  pMaxBatchWaitTimeMs :: Int32

definition defaultInit :: KafkaClientConfig where
  "defaultInit = \<lparr>clientId = str ''KafkaClient'', mRefreshIntervalMs = 300000,
     cMaxFetchWaitTimeMs = 1000, cMaxFetchBytes = 16 * 1024, cMinFetchBytes = 1,
     cAutoCommitEnable = True, cAutoCommitIntervalMs = 60000, cStartOffset = FROM_STORED,
     cOffsetStorePath = [], pPartitioningMethod = ROUND_ROBIN, pRequiredAcks = 1, pTimeout = 5000,
     pBatchNumMsgs = 1000, pMaxBatchWaitTimeMs = 5000\<rparr>"

record KafkaBroker =
  m_iId :: Int32
  m_strHost :: String
  m_strIp :: String
  m_iPort :: Int16

definition KafkaBroker_new :: KafkaBroker where
  "KafkaBroker_new = \<lparr>m_iId = - 1, m_strHost = [], m_strIp = [], m_iPort = - 1\<rparr>"

definition KafkaBroker_of :: "Int32 \<Rightarrow> String \<Rightarrow> String \<Rightarrow> Int16 \<Rightarrow> KafkaBroker" where
  "KafkaBroker_of i h ip p = \<lparr>m_iId = i, m_strHost = h, m_strIp = ip, m_iPort = p\<rparr>"

text \<open>The copy constructors, member by member as they are written: no member is forgotten.\<close>

definition KafkaClientConfig_copy :: "KafkaClientConfig \<Rightarrow> KafkaClientConfig" where
  "KafkaClientConfig_copy other =
     \<lparr>clientId = clientId other, mRefreshIntervalMs = mRefreshIntervalMs other,
      cMaxFetchWaitTimeMs = cMaxFetchWaitTimeMs other, cMaxFetchBytes = cMaxFetchBytes other,
      cMinFetchBytes = cMinFetchBytes other, cAutoCommitEnable = cAutoCommitEnable other,
      cAutoCommitIntervalMs = cAutoCommitIntervalMs other, cStartOffset = cStartOffset other,
      cOffsetStorePath = cOffsetStorePath other, pPartitioningMethod = pPartitioningMethod other,
      pRequiredAcks = pRequiredAcks other, pTimeout = pTimeout other, pBatchNumMsgs = pBatchNumMsgs other,
      pMaxBatchWaitTimeMs = pMaxBatchWaitTimeMs other\<rparr>"

definition KafkaBroker_copy :: "KafkaBroker \<Rightarrow> KafkaBroker" where
  "KafkaBroker_copy kOther =
     \<lparr>m_iId = m_iId kOther, m_strHost = m_strHost kOther, m_strIp = m_strIp kOther, m_iPort = m_iPort kOther\<rparr>"

lemma copies [simp]: "KafkaClientConfig_copy x = x" "KafkaBroker_copy b = b"
  by (simp_all add: KafkaClientConfig_copy_def KafkaBroker_copy_def)

section \<open>The partition\<close>

record KafkaPartition =
  m_produceEvent :: WakeupEventSource
  m_produceMsgQEvent :: WakeupEventSource
  m_fetchEvent :: WakeupEventSource
  m_mdTimerEvent :: PeriodicEventSource
  m_ocTimerEvent :: PeriodicEventSource
  m_pReqTimerEvent :: PeriodicEventSource
  m_strStoredOffsetFileName :: String
  m_iNextFetchOffset :: Int64
  m_iMsgCnt :: Int32
  m_bFetchPaused :: bool
  m_qMsgs :: "String list"
  m_dqWriteBuffers :: "(Int32 \<times> String) list"
  m_qInTransitProduceRequest :: "String list"
  m_iEventFlags :: "32 word"
  m_sBrokers :: "KafkaBroker list"
  m_sLeader :: KafkaBroker
  m_strTopic :: String
  m_iPartition :: Int32
  m_iSockFd :: int
  m_config :: KafkaClientConfig
  m_partitionType :: KafkaPartitionType
  onReceivedData :: bool
  onProduceResponse :: bool
  onMsgQueued :: bool

type_synonym pstate = "KafkaPartition \<times> LibeventReactor \<times> world"

definition selectFd :: "KafkaPartition \<Rightarrow> int" where
  "selectFd p = m_iSockFd p"

definition getEventFlags :: "KafkaPartition \<Rightarrow> 32 word" where
  "getEventFlags p = m_iEventFlags p"

text \<open>The members before the constructor body.\<close>

definition KafkaPartition_fields ::
  "KafkaPartitionType \<Rightarrow> String \<Rightarrow> Int32 \<Rightarrow> KafkaBroker list \<Rightarrow> KafkaBroker \<Rightarrow> KafkaClientConfig \<Rightarrow> KafkaPartition" where
  "KafkaPartition_fields partitionType topic p bs ldr config =
     \<lparr>m_produceEvent = WakeupEventSource_new, m_produceMsgQEvent = WakeupEventSource_new,
      m_fetchEvent = WakeupEventSource_new, m_mdTimerEvent = PeriodicEventSource_new,
      m_ocTimerEvent = PeriodicEventSource_new, m_pReqTimerEvent = PeriodicEventSource_new,
      m_strStoredOffsetFileName = [], m_iNextFetchOffset = 0, m_iMsgCnt = 0, m_bFetchPaused = False,
      m_qMsgs = [], m_dqWriteBuffers = [], m_qInTransitProduceRequest = [],
      m_iEventFlags = AEVENTIN OR AEVENTOUT, m_sBrokers = bs, m_sLeader = ldr, m_strTopic = topic,
      m_iPartition = p, m_iSockFd = - 1, m_config = config, m_partitionType = partitionType,
      onReceivedData = False, onProduceResponse = False, onMsgQueued = False\<rparr>"

section \<open>Offset file\<close>

definition offset_file_name :: "env \<Rightarrow> KafkaPartition \<Rightarrow> String" where
  "offset_file_name E p =
     (let ss = clientId (m_config p) @ str ''-'' @ m_strTopic p @ str ''-'' @
            dec_int (sint (m_iPartition p)) @ str ''-'' @ str ''start-offset'';
          storePath = cOffsetStorePath (m_config p)
      in if storePath \<noteq> []
         then if is_directory E (c_string storePath)
              then if last storePath = 47 then storePath @ ss else storePath @ str ''/'' @ ss
              else ss
         else ss)"

text \<open>
  The stream \<^verbatim>\<open>file\<close> is opened for reading and writing, which needs a file that exists and can be
  written.
\<close>

definition getKafkaOffset :: "env \<Rightarrow> KafkaPartition \<Rightarrow> world \<Rightarrow> (KafkaPartition \<times> world) outcome" where
  "getKafkaOffset E p w =
     (let p = p\<lparr>m_strStoredOffsetFileName := offset_file_name E p\<rparr>;
          good = open_write E (tick w) (m_strStoredOffsetFileName p);
          w = next_call w
      in case (if good then files w (m_strStoredOffsetFileName p) else None) of
        None \<Rightarrow> ret (p, write_file E (m_strStoredOffsetFileName p) (dec_int (sint (m_iNextFetchOffset p))) w)
      | Some file \<Rightarrow>
          if cStartOffset (m_config p) = FROM_STORED
          then let content = last_word file []
               in case stoll content of
                    Inl e \<Rightarrow> stop (Throws e)
                  | Inr off \<Rightarrow> ret (p\<lparr>m_iNextFetchOffset := off\<rparr>, w)
          else ret (p, w))"

text \<open>The subtraction is signed; \<^verbatim>\<open>commitOffset >= 0\<close> compares an unsigned number.\<close>

definition commitKafkaOffset :: "env \<Rightarrow> KafkaPartition \<Rightarrow> world \<Rightarrow> world outcome" where
  "commitKafkaOffset E p w =
     (if sint (m_iNextFetchOffset p) = - (2 ^ 63) then stop Undefined
      else let commitOffset = m_iNextFetchOffset p - 1 :: 64 word in
        if commitOffset \<ge> 0
        then ret (write_file E (m_strStoredOffsetFileName p) (dec_nat (unat commitOffset)) w)
        else ret w)"

section \<open>Connections\<close>

definition register :: "env \<Rightarrow> int \<Rightarrow> 32 word \<Rightarrow> bool \<Rightarrow> pstate \<Rightarrow> pstate outcome" where
  "register E fd flags modify s =
     (case s of (p, r, w) \<Rightarrow>
        bnd (registerFdCallback E fd flags False modify r w) (\<lambda>(r, w). ret (p, r, w)))"

definition connectLeader :: "env \<Rightarrow> pstate \<Rightarrow> (bool \<times> pstate) outcome" where
  "connectLeader E s =
     (case s of (p, r, w) \<Rightarrow>
        let (sockFd, w) = connectServer E (m_strIp (m_sLeader p)) (m_iPort (m_sLeader p)) w in
        if sockFd < 0 then ret (False, (p, r, w))
        else let p = p\<lparr>m_iSockFd := sockFd\<rparr>
             in bnd (register E (selectFd p) (getEventFlags p) False (p, r, w)) (\<lambda>s. ret (True, s)))"

definition disconnect :: "env \<Rightarrow> pstate \<Rightarrow> pstate" where
  "disconnect E s =
     (case s of (p, r, w) \<Rightarrow>
        let (r, w) = unregisterFdCallback E (m_iSockFd p) r w;
            w = posix_close (m_iSockFd p) w
        in (p\<lparr>m_iSockFd := - 1\<rparr>, r, w))"

text \<open>The first broker other than the leader; past the end of the vector when there is none.\<close>

definition other_broker :: "KafkaPartition \<Rightarrow> KafkaBroker outcome" where
  "other_broker p =
     (let leaderNodeID = m_iId (m_sLeader p);
          it = find_if (\<lambda>broker. m_iId broker \<noteq> leaderNodeID) (m_sBrokers p)
      in if it < length (m_sBrokers p) then ret (m_sBrokers p ! it) else stop Undefined)"

definition reconnect :: "env \<Rightarrow> pstate \<Rightarrow> (bool \<times> pstate) outcome" where
  "reconnect E s =
     (case disconnect E s of (p, r, w) \<Rightarrow>
        bnd (other_broker p) (\<lambda>b. connectLeader E (p\<lparr>m_sLeader := b\<rparr>, r, w)))"

definition wakeup_fetch :: "env \<Rightarrow> pstate \<Rightarrow> pstate outcome" where
  "wakeup_fetch E s =
     (case s of (p, r, w) \<Rightarrow>
        if m_partitionType p = CONSUMER_P
        then bnd (WakeupEventSource_wakeup E (m_fetchEvent p) w) (\<lambda>w. ret (p, r, w))
        else ret (p, r, w))"

section \<open>Requests\<close>

definition produce_request_bytes :: "env \<Rightarrow> KafkaPartition \<Rightarrow> ProduceRequest \<Rightarrow> String" where
  "produce_request_bytes E p request =
     WriteRequest ProduceRequest_ApiKey RequestMessageWireSize_Produce
       (WriteRequestMessage_Produce (boost_crc32 E)) request (clientId (m_config p)) []"

fun produce_loop ::
  "env \<Rightarrow> KafkaPartition \<Rightarrow> String list \<Rightarrow> ProduceRequest \<Rightarrow> 64 word \<Rightarrow> (Int32 \<times> String) list \<Rightarrow>
   ProduceRequest \<times> (Int32 \<times> String) list" where
  "produce_loop E p [] request req_size bufs = (request, bufs)"
| "produce_loop E p (msg # q) request req_size bufs =
     (let (request, req_size, bufs) =
            (if req_size \<ge> scast (cMaxFetchBytes (m_config p) - 1024)
             then (ProduceRequest_Clear request, 0,
                   bufs @ [(kApiKeyProduceRequest, produce_request_bytes E p request)])
             else (request, req_size, bufs));
          request = AddValue msg (m_strTopic p) (m_iPartition p) request;
          req_size = req_size + (of_nat (length msg) + 10)
      in produce_loop E p q request req_size bufs)"

definition createProduceRequest :: "env \<Rightarrow> pstate \<Rightarrow> pstate outcome" where
  "createProduceRequest E s =
     (case s of (p, r, w) \<Rightarrow>
        let request = set_correlation_id kApiKeyProduceRequest ProduceRequest_new;
            request = set_required_acks (pRequiredAcks (m_config p)) request;
            request = set_timeout (pTimeout (m_config p)) request;
            (request, bufs) = produce_loop E p (m_qMsgs p) request 0 (m_dqWriteBuffers p);
            p = p\<lparr>m_qMsgs := [],
                  m_dqWriteBuffers := bufs @ [(kApiKeyProduceRequest, produce_request_bytes E p request)]\<rparr>
        in register E (selectFd p) (getEventFlags p) True (p, r, w))"

definition createFetchRequest :: "env \<Rightarrow> pstate \<Rightarrow> pstate outcome" where
  "createFetchRequest E s =
     (case s of (p, r, w) \<Rightarrow>
        if m_bFetchPaused p then ret (p, r, w)
        else let request = set_correlation_id kApiKeyFetchRequest FetchRequest_new;
                 request = set_max_wait_time (cMaxFetchWaitTimeMs (m_config p)) request;
                 request = set_min_bytes (cMinFetchBytes (m_config p)) request;
                 request = FetchTopic (m_strTopic p) (m_iPartition p) (m_iNextFetchOffset p)
                   (cMaxFetchBytes (m_config p)) request;
                 os = WriteRequest FetchRequest_ApiKey RequestMessageWireSize_Fetch
                   WriteRequestMessage_Fetch request (clientId (m_config p)) [];
                 p = p\<lparr>m_dqWriteBuffers := m_dqWriteBuffers p @ [(kApiKeyFetchRequest, os)]\<rparr>
             in register E (selectFd p) (getEventFlags p) True (p, r, w))"

definition createMetadataRequest :: "env \<Rightarrow> pstate \<Rightarrow> pstate outcome" where
  "createMetadataRequest E s =
     (case s of (p, r, w) \<Rightarrow>
        let request = set_correlation_id kApiKeyMetadataRequest MetadataRequest_new;
            request = AddTopicName (m_strTopic p) request;
            os = WriteRequest MetadataRequest_ApiKey RequestMessageWireSize_Metadata
              WriteRequestMessage_Metadata request (clientId (m_config p)) [];
            p = p\<lparr>m_dqWriteBuffers := (kApiKeyMetadataRequest, os) # m_dqWriteBuffers p\<rparr>
        in register E (selectFd p) (getEventFlags p) True (p, r, w))"

definition createOffsetRequest :: "env \<Rightarrow> pstate \<Rightarrow> pstate outcome" where
  "createOffsetRequest E s =
     (case s of (p, r, w) \<Rightarrow>
        let request = set_correlation_id kApiKeyOffsetRequest OffsetRequest_new;
            offsetTime = (if cStartOffset (m_config p) = FROM_END then kOffsetTimeLatest
              else kOffsetTimeEarliest);
            request = FetchTopicOffset (m_strTopic p) (m_iPartition p) offsetTime
              kDefaultOffsetMaxNumberOfOffsets request;
            os = WriteRequest OffsetRequest_ApiKey RequestMessageWireSize_Offset
              WriteRequestMessage_Offset request (clientId (m_config p)) [];
            p = p\<lparr>m_dqWriteBuffers := (kApiKeyOffsetRequest, os) # m_dqWriteBuffers p\<rparr>
        in register E (selectFd p) (getEventFlags p) True (p, r, w))"

section \<open>Writing\<close>

text \<open>
  \<^verbatim>\<open>onWriteReady\<close> up to its call of itself; the result says whether that call follows (after a
  connection reset and a successful reconnection).
\<close>

definition writeOnce :: "env \<Rightarrow> pstate \<Rightarrow> (bool \<times> pstate) outcome" where
  "writeOnce E s =
     (case s of (p, r, w) \<Rightarrow>
        (case m_dqWriteBuffers p of
          [] \<Rightarrow> bnd (register E (selectFd p) AEVENTIN True (p, r, w)) (\<lambda>s. ret (False, s))
        | req # rest \<Rightarrow>
            let p = p\<lparr>m_dqWriteBuffers := rest\<rparr>;
                p = (if fst req = kApiKeyProduceRequest
                     then p\<lparr>m_qInTransitProduceRequest := m_qInTransitProduceRequest p @ [snd req]\<rparr>
                     else p);
                (res, w) = posix_write E (m_iSockFd p) (snd req) w
            in (case res of
                 Written n \<Rightarrow> ret (False, (p, r, w))
               | Write_error e \<Rightarrow>
                   if e = ECONNRESET
                   then bnd (reconnect E (p, r, w)) (\<lambda>(connected, s).
                     if \<not> connected
                     then (case s of (p, r, w) \<Rightarrow> ret (False, (p, r, LibeventReactor_shutdown r w)))
                     else bnd (createMetadataRequest E s) (\<lambda>s. ret (True, s)))
                   else ret (False, (p, r, w)))))"

partial_function (option) onWriteReady :: "env \<Rightarrow> pstate \<Rightarrow> (fault + pstate) option" where
  "onWriteReady E s =
     (case writeOnce E s of
        None \<Rightarrow> None
      | Some r \<Rightarrow>
          (case r of
             Inl f \<Rightarrow> Some (Inl f)
           | Inr (again, s) \<Rightarrow>
               if again
               then Option.bind (onWriteReady E s) (\<lambda>r.
                 case r of Inl f \<Rightarrow> Some (Inl f) | Inr s \<Rightarrow> wakeup_fetch E s)
               else Some (Inr s)))"

section \<open>Responses\<close>

definition handleKafkaError :: "env \<Rightarrow> int \<Rightarrow> pstate \<Rightarrow> pstate outcome" where
  "handleKafkaError E ec s =
     (if ec = kErrorOffsetOutOfRange then bnd (createOffsetRequest E s) (onWriteReady E)
      else if ec = kErrorLeaderNotAvailable \<or> ec = kErrorNotLeaderForPartition
      then bnd (createMetadataRequest E s) (onWriteReady E)
      else ret s)"

definition handleProduceResponse :: "env \<Rightarrow> istream \<Rightarrow> pstate \<Rightarrow> pstate outcome" where
  "handleProduceResponse E is s =
     (case ReadResponse ReadResponseMessage_Produce is \<lparr>response_correlation_id = 0, pr_topics = []\<rparr> no_error of
        Inl e \<Rightarrow> stop (Throws e)
      | Inr (response, ec, _) \<Rightarrow>
          if is_error ec
          then bnd (handleKafkaError E (ec_value ec) s) (\<lambda>(p, r, w).
            (case m_qInTransitProduceRequest p of
              [] \<Rightarrow> stop Undefined
            | req # rest \<Rightarrow>
                ret (p\<lparr>m_dqWriteBuffers := m_dqWriteBuffers p @ [(kApiKeyProduceRequest, c_string req)],
                       m_qInTransitProduceRequest := rest\<rparr>, r, w)))
          else (case s of (p, r, w) \<Rightarrow>
            (case m_qInTransitProduceRequest p of
              [] \<Rightarrow> stop Undefined
            | req # rest \<Rightarrow>
                (let p = p\<lparr>m_qInTransitProduceRequest := rest\<rparr>
                 in (case FindTopicPartition (m_strTopic p) (m_iPartition p) response of
                     None \<Rightarrow> ret (p, r, w)
                   | Some q \<Rightarrow>
                       if onProduceResponse p
                       then ret (p, r, act (On_produce_response (m_strTopic p) (m_iPartition p)
                              (pr_offset (partition_props q))) w)
                       else ret (p, r, w))))))"

text \<open>
  The loop over the messages: the next offset to fetch and the values to deliver. Offsets are
  signed, and there is none behind the largest.
\<close>

fun fetch_loop :: "MessageAndOffset list \<Rightarrow> Int64 \<Rightarrow> String list \<Rightarrow> (Int64 \<times> String list) outcome" where
  "fetch_loop [] next recvMsgs = ret (next, recvMsgs)"
| "fetch_loop (message # ms) next recvMsgs =
     (if sint (msg_offset message) \<ge> sint next
      then if sint (msg_offset message) = 2 ^ 63 - 1 then stop Undefined
        else let next = msg_offset message + 1 in
        (case msg_value message of
           Some bytes \<Rightarrow> fetch_loop ms next (recvMsgs @ [bytes])
         | None \<Rightarrow> fetch_loop ms next recvMsgs)
      else fetch_loop ms next recvMsgs)"

text \<open>The messages an iterator visits up to \<^verbatim>\<open>end()\<close>, with a bound on the number of steps.\<close>

fun iterate :: "nat \<Rightarrow> FetchResponseIterator \<Rightarrow> FetchResponse \<Rightarrow> MessageAndOffset list" where
  "iterate 0 it rsp = []"
| "iterate (Suc n) it rsp =
     (if iterator_equal it (FetchResponse_end rsp) then []
      else dereference it # iterate n (increment it) rsp)"

definition all_messages :: "FetchResponse \<Rightarrow> MessageAndOffset list" where
  "all_messages rsp =
     concat (map (\<lambda>t. concat (map (\<lambda>p. messages (partition_props p)) (partitions t))) (fr_topics rsp))"

definition handleFetchResponse :: "env \<Rightarrow> istream \<Rightarrow> pstate \<Rightarrow> pstate outcome" where
  "handleFetchResponse E is s =
     (case ReadResponse ReadResponseMessage_Fetch is \<lparr>response_correlation_id = 0, fr_topics = []\<rparr> no_error of
        Inl e \<Rightarrow> stop (Throws e)
      | Inr (rsp, ec, _) \<Rightarrow>
          bnd (if is_error ec then handleKafkaError E (ec_value ec) s
               else (case s of (p, r, w) \<Rightarrow>
                 bnd (fetch_loop (iterate (length (all_messages rsp)) (FetchResponse_begin rsp) rsp)
                         (m_iNextFetchOffset p) []) (\<lambda>(next, recvMsgs).
                 let p = p\<lparr>m_iNextFetchOffset := next\<rparr>
                 in if recvMsgs \<noteq> [] \<and> onReceivedData p
                    then ret (p, r, act (On_received_data recvMsgs) w)
                    else ret (p, r, w))))
            (wakeup_fetch E))"

text \<open>
  Following a new leader: the address is compared with the current one; the buffer for the address
  is not initialised when the name has no address.
\<close>

definition followLeader :: "env \<Rightarrow> MetadataResponse \<Rightarrow> pstate \<Rightarrow> pstate outcome" where
  "followLeader E rsp s =
     (case s of (p, r, w) \<Rightarrow>
        (case PartitionLeader (m_strTopic p) (m_iPartition p) rsp of
          None \<Rightarrow> ret (p, r, w)
        | Some ldr \<Rightarrow>
            (let ((_, ip_buffer), w) = hostnameToIp E (host ldr) w in
             (case ip_buffer of
                None \<Rightarrow> stop Undefined
              | Some ip \<Rightarrow>
                  if ip \<noteq> m_strIp (m_sLeader p) \<or> port ldr \<noteq> scast (m_iPort (m_sLeader p))
                  then let (p, r, w) = disconnect E (p, r, w);
                           p = p\<lparr>m_sLeader := \<lparr>m_iId = node_id ldr, m_strHost = host ldr,
                                  m_strIp = ip, m_iPort = ucast (port ldr)\<rparr>\<rparr>
                       in bnd (connectLeader E (p, r, w)) (\<lambda>(connected, p, r, w).
                            wakeup_fetch E
                              (p, r, if \<not> connected then LibeventReactor_shutdown r w else w))
                  else ret (p, r, w)))))"

definition handleMetadataResponse :: "env \<Rightarrow> istream \<Rightarrow> pstate \<Rightarrow> pstate outcome" where
  "handleMetadataResponse E is s =
     (case ReadResponse ReadResponseMessage_Metadata is
         \<lparr>response_correlation_id = 0, brokers = [], mr_topics = []\<rparr> no_error of
        Inl e \<Rightarrow> stop (Throws e)
      | Inr (rsp, ec, _) \<Rightarrow>
          bnd (if is_error ec then handleKafkaError E (ec_value ec) s else ret s) (followLeader E rsp))"

definition takeOffset :: "OffsetResponse \<Rightarrow> pstate \<Rightarrow> pstate outcome" where
  "takeOffset rsp s =
     (case s of (p, r, w) \<Rightarrow>
        (case TopicPartitionOffset (m_strTopic p) (m_iPartition p) rsp of
          None \<Rightarrow> ret (p, r, w)
        | Some q \<Rightarrow>
            (case offsets (partition_props q) of
               [] \<Rightarrow> ret (p, r, w)
             | newStartOffset # _ \<Rightarrow>
                 if cStartOffset (m_config p) = FROM_END
                 then ret (p\<lparr>m_iNextFetchOffset := newStartOffset\<rparr>, r, w)
                 else if sint (m_iNextFetchOffset p) < sint newStartOffset
                 then ret (p\<lparr>m_iNextFetchOffset := newStartOffset\<rparr>, r, w)
                 else ret (p, r, w))))"

definition handleOffsetResponse :: "env \<Rightarrow> istream \<Rightarrow> pstate \<Rightarrow> pstate outcome" where
  "handleOffsetResponse E is s =
     (case ReadResponse ReadResponseMessage_Offset is \<lparr>response_correlation_id = 0, or_topics = []\<rparr> no_error of
        Inl e \<Rightarrow> stop (Throws e)
      | Inr (rsp, ec, _) \<Rightarrow>
          bnd (if is_error ec then handleKafkaError E (ec_value ec) s else ret s) (takeOffset rsp))"

section \<open>Reading\<close>

definition readError :: "env \<Rightarrow> int \<Rightarrow> errno option \<Rightarrow> pstate \<Rightarrow> pstate outcome" where
  "readError E res err s =
     (if res = 0 \<or> (res = - 1 \<and> err = Some ECONNRESET)
      then bnd (reconnect E s) (\<lambda>(connected, s).
        if \<not> connected
        then (case s of (p, r, w) \<Rightarrow> ret (p, r, LibeventReactor_shutdown r w))
        else bnd (createMetadataRequest E s) (\<lambda>s. bnd (onWriteReady E s) (wakeup_fetch E)))
      else ret s)"

definition onReadReady :: "env \<Rightarrow> pstate \<Rightarrow> pstate outcome" where
  "onReadReady E s =
     (case s of (p, r, w) \<Rightarrow>
        let w = sleep_ms 1 w;
            ((res, err, data), w) = readData E (m_iSockFd p) 4 w
        in if res \<le> 0 then readError E res err (p, r, w)
           else let frame_size = unat (ntohl (mem_load data));
                    ((res, err, data), w) = readData E (m_iSockFd p) frame_size w
                in if res \<le> 0 then readError E res err (p, r, w)
                   else if frame_size < 4 then stop Undefined
                   else let correlation = ntohl (mem_load (take 4 data)) :: Int32;
                            is = open_istream data;
                            s = (p, r, w)
                        in bnd (assert_that (correlation \<noteq> - 1)) (\<lambda>_.
                             if correlation = kApiKeyProduceRequest then handleProduceResponse E is s
                             else if correlation = kApiKeyFetchRequest then handleFetchResponse E is s
                             else if correlation = kApiKeyMetadataRequest then handleMetadataResponse E is s
                             else if correlation = kApiKeyOffsetRequest then handleOffsetResponse E is s
                             else ret s))"

definition handleEvent :: "env \<Rightarrow> int \<Rightarrow> 16 word \<Rightarrow> pstate \<Rightarrow> pstate outcome" where
  "handleEvent E fd event s =
     (if fd \<noteq> selectFd (fst s) then ret s
      else if event AND ucast AEVENTIN \<noteq> 0 then onReadReady E s
      else if event AND ucast AEVENTOUT \<noteq> 0 then onWriteReady E s
      else ret s)"

section \<open>Life of a partition\<close>

definition init :: "env \<Rightarrow> pstate \<Rightarrow> pstate outcome" where
  "init E s =
     bnd (connectLeader E s) (\<lambda>(connected, s).
     if \<not> connected then stop Exit
     else bnd (createMetadataRequest E s) (\<lambda>s.
       bnd (onWriteReady E s) (\<lambda>s.
       bnd (onReadReady E s) (\<lambda>s.
       bnd (createOffsetRequest E s) (\<lambda>s.
       bnd (onWriteReady E s) (\<lambda>s.
       bnd (onReadReady E s) (\<lambda>(p, r, w).
       bnd (PeriodicEventSource_init E (ms_to_seconds (mRefreshIntervalMs (m_config p))) (m_mdTimerEvent p) w)
         (\<lambda>(src, w).
       register E (m_iTimerFd src) (pe_event_flags src) False (p\<lparr>m_mdTimerEvent := src\<rparr>, r, w)))))))))"

definition KafkaPartition_new ::
  "env \<Rightarrow> KafkaPartitionType \<Rightarrow> String \<Rightarrow> Int32 \<Rightarrow> KafkaBroker list \<Rightarrow> KafkaBroker \<Rightarrow> KafkaClientConfig \<Rightarrow>
   LibeventReactor \<Rightarrow> world \<Rightarrow> pstate outcome" where
  "KafkaPartition_new E partitionType topic part bs ldr config r w =
     (let p = KafkaPartition_fields partitionType topic part bs ldr config in
      bnd (if m_partitionType p = CONSUMER_P then getKafkaOffset E p w else ret (p, w))
        (\<lambda>(p, w). init E (p, r, w)))"

text \<open>The destructor: its body, then the destructors of the event sources in reverse order.\<close>

partial_function (option) write_all :: "env \<Rightarrow> pstate \<Rightarrow> (fault + pstate) option" where
  "write_all E s =
     (if m_dqWriteBuffers (fst s) = [] then Some (Inr s)
      else Option.bind (onWriteReady E s) (\<lambda>r.
        case r of Inl f \<Rightarrow> Some (Inl f) | Inr s \<Rightarrow> write_all E s))"

definition KafkaPartition_delete :: "env \<Rightarrow> pstate \<Rightarrow> pstate outcome" where
  "KafkaPartition_delete E s =
     bnd (createProduceRequest E s) (\<lambda>s.
     bnd (write_all E s) (\<lambda>(p, r, w).
     let w = posix_close (m_iSockFd p) (sleep_ms 10 w);
         w = PeriodicEventSource_delete (m_pReqTimerEvent p) w;
         w = PeriodicEventSource_delete (m_ocTimerEvent p) w;
         w = PeriodicEventSource_delete (m_mdTimerEvent p) w;
         w = WakeupEventSource_delete (m_fetchEvent p) w;
         w = WakeupEventSource_delete (m_produceMsgQEvent p) w;
         w = WakeupEventSource_delete (m_produceEvent p) w
     in ret (p, r, w)))"

definition startFetch :: "env \<Rightarrow> pstate \<Rightarrow> pstate outcome" where
  "startFetch E s =
     (case s of (p, r, w) \<Rightarrow>
        bnd (WakeupEventSource_init E (m_fetchEvent p) w) (\<lambda>(src, w).
        bnd (register E (m_iWakeupFd src) (wk_event_flags src) False (p\<lparr>m_fetchEvent := src\<rparr>, r, w))
          (\<lambda>(p, r, w).
        bnd (PeriodicEventSource_init E (ms_to_seconds (cAutoCommitIntervalMs (m_config p))) (m_ocTimerEvent p) w)
          (\<lambda>(src, w).
        bnd (register E (m_iTimerFd src) (pe_event_flags src) False (p\<lparr>m_ocTimerEvent := src\<rparr>, r, w))
          (wakeup_fetch E)))))"

definition startProduce :: "env \<Rightarrow> pstate \<Rightarrow> pstate outcome" where
  "startProduce E s =
     (case s of (p, r, w) \<Rightarrow>
        bnd (WakeupEventSource_init E (m_produceEvent p) w) (\<lambda>(src, w).
        bnd (register E (m_iWakeupFd src) (wk_event_flags src) False (p\<lparr>m_produceEvent := src\<rparr>, r, w))
          (\<lambda>(p, r, w).
        bnd (WakeupEventSource_init E (m_produceMsgQEvent p) w) (\<lambda>(src, w).
        bnd (register E (m_iWakeupFd src) (wk_event_flags src) False (p\<lparr>m_produceMsgQEvent := src\<rparr>, r, w))
          (\<lambda>(p, r, w).
        bnd (PeriodicEventSource_init E (ms_to_seconds (pMaxBatchWaitTimeMs (m_config p))) (m_pReqTimerEvent p) w)
          (\<lambda>(src, w).
        bnd (register E (m_iTimerFd src) (pe_event_flags src) False (p\<lparr>m_pReqTimerEvent := src\<rparr>, r, w))
          (\<lambda>(p, r, w).
        bnd (WakeupEventSource_wakeup E (m_produceMsgQEvent p) w) (\<lambda>w. ret (p, r, w)))))))))"

text \<open>Queueing one message, and the two overloads of \<^verbatim>\<open>produce\<close> with their \<^verbatim>\<open>int\<close> result.\<close>

definition enqueue :: "env \<Rightarrow> String \<Rightarrow> pstate \<Rightarrow> pstate outcome" where
  "enqueue E msg s =
     (case s of (p, r, w) \<Rightarrow>
        bnd (if m_iMsgCnt p = pBatchNumMsgs (m_config p) \<and> m_partitionType p = PRODUCER_P
             then bnd (WakeupEventSource_wakeup E (m_produceEvent p) w) (\<lambda>w. ret (p\<lparr>m_iMsgCnt := 0\<rparr>, w))
             else ret (p, w))
          (\<lambda>(p, w). ret (p\<lparr>m_qMsgs := m_qMsgs p @ [msg], m_iMsgCnt := m_iMsgCnt p + 1\<rparr>, r, w)))"

definition wakeup_msgq :: "env \<Rightarrow> pstate \<Rightarrow> (int \<times> pstate) outcome" where
  "wakeup_msgq E s =
     (case s of (p, r, w) \<Rightarrow>
        bnd (WakeupEventSource_wakeup E (m_produceMsgQEvent p) w) (\<lambda>w. ret (0, (p, r, w))))"

definition produce :: "env \<Rightarrow> String \<Rightarrow> pstate \<Rightarrow> (int \<times> pstate) outcome" where
  "produce E msg s = bnd (enqueue E msg s) (wakeup_msgq E)"

definition produce_list :: "env \<Rightarrow> String list \<Rightarrow> pstate \<Rightarrow> (int \<times> pstate) outcome" where
  "produce_list E msgs s =
     (if msgs = [] then ret (1, s)
      else bnd (fold_outcome (enqueue E) msgs s) (wakeup_msgq E))"

definition notifyProduceMsgQ :: "pstate \<Rightarrow> pstate outcome" where
  "notifyProduceMsgQ s =
     (case s of (p, r, w) \<Rightarrow> ret (p, r, if onMsgQueued p then act On_msg_queued w else w))"

definition pauseFetch :: "pstate \<Rightarrow> pstate" where
  "pauseFetch s = (case s of (p, r, w) \<Rightarrow> (p\<lparr>m_bFetchPaused := True\<rparr>, r, w))"

definition resumeFetch :: "env \<Rightarrow> pstate \<Rightarrow> pstate outcome" where
  "resumeFetch E s =
     (case s of (p, r, w) \<Rightarrow>
        if m_bFetchPaused p
        then let p = p\<lparr>m_bFetchPaused := False\<rparr>
             in bnd (WakeupEventSource_wakeup E (m_fetchEvent p) w) (\<lambda>w. ret (p, r, w))
        else ret (p, r, w))"

section \<open>Events of a running partition\<close>

text \<open>
  What the event loop and the application do with a partition: the callbacks bound to the event
  sources in \<^verbatim>\<open>init\<close>, \<^verbatim>\<open>startFetch\<close> and \<^verbatim>\<open>startProduce\<close>, the socket events, and the public members.
\<close>

datatype partition_event =
    Socket_event int "16 word"
  | Fetch_event "16 word" | Produce_event "16 word" | Msgq_event "16 word"
  | Metadata_timer "16 word" | Commit_timer "16 word" | Produce_timer "16 word"
  | Call_produce String | Call_produce_list "String list" | Call_pause | Call_resume

definition after_wakeup ::
  "(64 word option \<times> world) outcome \<Rightarrow> (pstate \<Rightarrow> pstate outcome) \<Rightarrow> KafkaPartition \<Rightarrow> LibeventReactor \<Rightarrow>
   pstate outcome" where
  "after_wakeup m callback p r =
     bnd m (\<lambda>(n, w). case n of Some _ \<Rightarrow> callback (p, r, w) | None \<Rightarrow> ret (p, r, w))"

fun partition_handle :: "env \<Rightarrow> partition_event \<Rightarrow> pstate \<Rightarrow> pstate outcome" where
  "partition_handle E (Socket_event fd event) (p, r, w) = handleEvent E fd event (p, r, w)"
| "partition_handle E (Fetch_event event) (p, r, w) =
     after_wakeup (WakeupEventSource_handleEvent E (m_fetchEvent p) event w) (createFetchRequest E) p r"
| "partition_handle E (Produce_event event) (p, r, w) =
     after_wakeup (WakeupEventSource_handleEvent E (m_produceEvent p) event w) (createProduceRequest E) p r"
| "partition_handle E (Msgq_event event) (p, r, w) =
     after_wakeup (WakeupEventSource_handleEvent E (m_produceMsgQEvent p) event w) notifyProduceMsgQ p r"
| "partition_handle E (Metadata_timer event) (p, r, w) =
     after_wakeup (PeriodicEventSource_handleEvent E (m_mdTimerEvent p) event w) (createMetadataRequest E) p r"
| "partition_handle E (Commit_timer event) (p, r, w) =
     after_wakeup (PeriodicEventSource_handleEvent E (m_ocTimerEvent p) event w)
       (\<lambda>(p, r, w). bnd (commitKafkaOffset E p w) (\<lambda>w. ret (p, r, w))) p r"
| "partition_handle E (Produce_timer event) (p, r, w) =
     after_wakeup (PeriodicEventSource_handleEvent E (m_pReqTimerEvent p) event w) (createProduceRequest E) p r"
| "partition_handle E (Call_produce msg) s = bnd (produce E msg s) (\<lambda>(_, s). ret s)"
| "partition_handle E (Call_produce_list msgs) s = bnd (produce_list E msgs s) (\<lambda>(_, s). ret s)"
| "partition_handle E Call_pause s = ret (pauseFetch s)"
| "partition_handle E Call_resume s = resumeFetch E s"

end
