(* ===== verification/Consumer.thy ===== *)
theory Consumer
  imports Endpoint
begin

text \<open>
  What a consumer delivers: the loop over the messages of a fetch response, whole fetch responses
  from their bytes, ranges of the log of a broker, and the stored offset across a restart.
\<close>

section \<open>The iterator loop\<close>

lemma iterate_rest:
  "iterator_valid it \<Longrightarrow> length (iterator_rest it) \<le> n \<Longrightarrow> iterate n it rsp = iterator_rest it"
proof (induction n arbitrary: it)
  case 0
  then show ?case by simp
next
  case (Suc n)
  show ?case
  proof (cases "it_topics it")
    case None
    then show ?thesis by (simp add: iterator_end [OF Suc.prems(1)] iterator_rest_def)
  next
    case (Some ts)
    note r = increment_rest [OF Suc.prems(1) Some]
    then have "iterate n (increment it) rsp = iterator_rest (increment it)"
      using Suc.prems(2) by (intro Suc.IH) simp_all
    with r show ?thesis by (simp add: iterator_end [OF Suc.prems(1)])
  qed
qed

lemma iterate_all: "iterate (length (all_messages rsp)) (FetchResponse_begin rsp) rsp = all_messages rsp"
proof -
  have "all_messages rsp = topic_messages (fr_topics rsp) 0"
    by (simp add: all_messages_def topic_messages_def partition_messages_def comp_def)
  then show ?thesis
    using iterate_rest [OF begin_rest(1), of rsp "length (all_messages rsp)" rsp] begin_rest(2) [of rsp]
    by simp
qed

section \<open>The fetch loop\<close>

definition offset_of :: "MessageAndOffset \<Rightarrow> int" where
  "offset_of m = sint (msg_offset m)"

definition in_order :: "MessageAndOffset list \<Rightarrow> bool" where
  "in_order ms \<longleftrightarrow> sorted_wrt (\<lambda>a b. offset_of a < offset_of b) ms \<and> (\<forall>m \<in> set ms. offset_of m < 2 ^ 63 - 1)"

lemma sint_add_one: "sint (x :: Int64) < 2 ^ 63 - 1 \<Longrightarrow> sint (x + 1) = sint x + 1"
  using sint_ge [of x] by (simp add: sint_word_ariths(1) signed_take_bit_int_eq_self)

lemma in_order_Cons:
  "in_order (m # ms) \<longleftrightarrow> in_order ms \<and> offset_of m < 2 ^ 63 - 1 \<and> (\<forall>x \<in> set ms. offset_of m < offset_of x)"
  by (auto simp: in_order_def)

lemma fetch_loop_in_order:
  assumes "in_order ms"
  shows "fetch_loop ms next acc = ret
    (let new = filter (\<lambda>m. sint next \<le> offset_of m) ms in
     (if new = [] then next else msg_offset (last new) + 1, acc @ List.map_filter msg_value new))"
  using assms
proof (induction ms arbitrary: "next" acc)
  case Nil
  show ?case by (simp add: map_filter_simps)
next
  case (Cons m ms)
  have o: "in_order ms" "offset_of m < 2 ^ 63 - 1" "\<forall>x \<in> set ms. offset_of m < offset_of x"
    using Cons.prems by (simp_all add: in_order_Cons)
  show ?case
  proof (cases "sint next \<le> offset_of m")
    case True
    have s: "sint (msg_offset m + 1) = offset_of m + 1"
      using o(2) by (simp add: offset_of_def sint_add_one)
    have "filter (\<lambda>x. sint (msg_offset m + 1) \<le> offset_of x) ms = ms"
        "filter (\<lambda>x. sint next \<le> offset_of x) ms = ms"
      using o(3) True by (auto simp: filter_id_conv s)
    then have "fetch_loop ms (msg_offset m + 1) acc' =
        ret (if ms = [] then msg_offset m + 1 else msg_offset (last ms) + 1, acc' @ List.map_filter msg_value ms)" for acc'
      using Cons.IH [OF o(1), of "msg_offset m + 1" acc'] by (simp add: Let_def)
    with True o(2) show ?thesis
      using \<open>filter (\<lambda>x. sint next \<le> offset_of x) ms = ms\<close>
      by (simp add: offset_of_def Let_def map_filter_simps split: option.splits)
  next
    case False
    then show ?thesis
      using Cons.IH [OF o(1), of "next" acc] by (simp add: offset_of_def Let_def)
  qed
qed

section \<open>A whole fetch response\<close>

lemma handleFetchResponse_delivers:
  assumes wire: "array_ok (topic_ok (fetch_partition_ok (boost_crc32 E))) (ts :: FetchResponseTopic list)"
      "\<forall>t \<in> set ts. \<forall>q \<in> set (partitions t). fr_error_code (partition_props q) = 0"
      "bytes = be_bytes 4 (corr :: Int32) @ wire_array (wire_topic (wire_fetch_partition (boost_crc32 E))) ts"
    and sent: "sent = concat (map (\<lambda>t. concat (map (\<lambda>q. messages (partition_props q)) (partitions t))) ts)"
    and order: "in_order sent"
    and p: "m_partitionType p = CONSUMER_P" "onReceivedData p" "0 \<le> m_iWakeupFd (m_fetchEvent p)"
    and E: "sys_write E (tick w) = Written n" "8 \<le> n"
  shows "let new = filter (\<lambda>m. sint (m_iNextFetchOffset p) \<le> offset_of m) sent;
             vals = List.map_filter (\<lambda>m. read_back (msg_value m)) new
    in \<exists>w'. handleFetchResponse E (open_istream bytes) (p, r, w) =
        ret (p\<lparr>m_iNextFetchOffset := if new = [] then m_iNextFetchOffset p else msg_offset (last new) + 1\<rparr>, r, w') \<and>
      trace w' = trace w @ (if vals = [] then [] else [On_received_data vals]) @
        [Write (m_iWakeupFd (m_fetchEvent p)) [1, 0, 0, 0, 0, 0, 0, 0]]"
proof -
  let ?rsp = "\<lparr>response_correlation_id = corr,
    fr_topics = map (\<lambda>t. t\<lparr>partitions := map received_partition (partitions t)\<rparr>) ts\<rparr>"
  have rd: "ReadResponse ReadResponseMessage_Fetch (open_istream bytes)
      \<lparr>response_correlation_id = 0, fr_topics = []\<rparr> no_error =
      Inr (?rsp, no_error, is_advance (length bytes) (open_istream bytes))"
    using ReadResponse_Fetch_written [OF wire, of "\<lparr>response_correlation_id = 0, fr_topics = []\<rparr>"] by simp
  have "map (\<lambda>q. messages (partition_props (received_partition q))) (partitions t) =
      map (\<lambda>q. map received (messages (partition_props q))) (partitions t)" if "t \<in> set ts" for t
    using wire(2) that by (simp add: received_partition_def)
  then have "all_messages ?rsp =
      concat (map (\<lambda>t. concat (map (\<lambda>q. map received (messages (partition_props q))) (partitions t))) ts)"
    by (simp add: all_messages_def comp_def cong: map_cong)
  also have "\<dots> = map received sent"
    by (simp add: sent map_concat comp_def)
  finally have all: "all_messages ?rsp = map received sent" .
  have off: "offset_of (received m) = offset_of m" "msg_offset (received m) = msg_offset m"
      "msg_value (received m) = read_back (msg_value m)" for m
    by (simp_all add: offset_of_def received_def)
  have "in_order (map received sent)"
    using order by (simp add: in_order_def sorted_wrt_map off)
  note ord = this
  define new where "new = filter (\<lambda>m. sint (m_iNextFetchOffset p) \<le> offset_of m) sent"
  define vals where "vals = List.map_filter (\<lambda>m. read_back (msg_value m)) new"
  have loop: "fetch_loop (map received sent) (m_iNextFetchOffset p) [] =
      ret (if new = [] then m_iNextFetchOffset p else msg_offset (last new) + 1, vals)"
    by (simp add: fetch_loop_in_order [OF ord] Let_def new_def vals_def filter_map comp_def off
        last_map map_filter_def)
  have wk: "WakeupEventSource_wakeup E (m_fetchEvent p) v =
      ret (act (Write (m_iWakeupFd (m_fetchEvent p)) [1, 0, 0, 0, 0, 0, 0, 0]) (next_call v))"
    if "tick v = tick w" for v
    using p(3) E that
    by (simp add: WakeupEventSource_wakeup_def posix_write_def Let_def eval_nat_numeral)
  have it: "iterate (length (all_messages ?rsp)) (FetchResponse_begin ?rsp) ?rsp = map received sent"
    using iterate_all [of ?rsp] by (simp only: all)
  have "\<not> is_error no_error" by (simp add: is_error_def no_error_def)
  then show ?thesis
    unfolding new_def [symmetric] vals_def [symmetric] Let_def
    using p(1,2)
    by (simp add: handleFetchResponse_def rd it loop wakeup_fetch_def wk del: length_map)
qed

definition sample_consumer :: KafkaPartition where
  "sample_consumer = (KafkaPartition_fields CONSUMER_P (str ''logs'') 3 [] KafkaBroker_new defaultInit)
     \<lparr>onReceivedData := True, m_fetchEvent := \<lparr>m_iWakeupFd = 9, wk_event_flags = AEVENTIN, m_funOnWakeup = True\<rparr>\<rparr>"

lemma sample_consumer_simps [simp]:
  "m_partitionType sample_consumer = CONSUMER_P" "onReceivedData sample_consumer"
  "m_iWakeupFd (m_fetchEvent sample_consumer) = 9" "m_iNextFetchOffset sample_consumer = 0"
  by (simp_all add: sample_consumer_def KafkaPartition_fields_def)

definition sample_answer :: FetchResponseTopic where
  "sample_answer = \<lparr>topic_props = (), topic_name = str ''logs'', partitions = [sample_fetch_partition 0]\<rparr>"

section \<open>Ranges of a log\<close>

text \<open>The messages of a log from an offset up to another.\<close>

definition log_range :: "MessageAndOffset list \<Rightarrow> int \<Rightarrow> int \<Rightarrow> MessageAndOffset list" where
  "log_range plog lo hi = filter (\<lambda>m. lo \<le> offset_of m \<and> offset_of m < hi) plog"

lemma log_range_split:
  "in_order plog \<Longrightarrow> a \<le> b \<Longrightarrow> b \<le> c \<Longrightarrow> log_range plog a c = log_range plog a b @ log_range plog b c"
proof (induction plog)
  case (Cons m ms)
  have IH: "log_range ms a c = log_range ms a b @ log_range ms b c"
    using Cons by (simp add: in_order_Cons)
  have "log_range ms a b = []" if "b \<le> offset_of m"
    using Cons.prems(1) that by (auto simp: log_range_def in_order_Cons filter_empty_conv)
  with IH Cons.prems(2,3) show ?case by (auto simp: log_range_def)
qed (simp add: log_range_def)

lemma in_order_filter: "in_order ms \<Longrightarrow> in_order (filter P ms)"
  by (simp add: in_order_def sorted_wrt_filter)

lemma in_order_last: "in_order ms \<Longrightarrow> m \<in> set ms \<Longrightarrow> offset_of m \<le> offset_of (last ms)"
  by (induction ms) (auto simp: in_order_Cons less_imp_le)

lemma fetch_loop_range:
  assumes plog: "in_order plog" and lo: "lo \<le> sint next"
    and f: "fetch_loop (log_range plog lo hi) next acc = ret (next', acc')"
  shows "sint next \<le> sint next' \<and> acc' = acc @ List.map_filter msg_value (log_range plog (sint next) (sint next'))"
proof -
  let ?new = "log_range plog (sint next) hi"
  have "filter (\<lambda>m. sint next \<le> offset_of m) (log_range plog lo hi) = ?new"
    using lo by (auto simp: log_range_def intro: filter_cong)
  then have r: "next' = (if ?new = [] then next else msg_offset (last ?new) + 1)"
      "acc' = acc @ List.map_filter msg_value ?new"
    using f fetch_loop_in_order [of "log_range plog lo hi" "next" acc] in_order_filter [OF plog]
    by (auto simp: log_range_def Let_def)
  show ?thesis
  proof (cases "?new = []")
    case True
    then have "log_range plog (sint next) (sint next) = []" by (auto simp: log_range_def filter_empty_conv)
    with True r show ?thesis by simp
  next
    case False
    have o: "in_order ?new" using plog by (simp add: log_range_def in_order_filter)
    have l: "last ?new \<in> set ?new" using False by (rule last_in_set)
    then have n: "sint next' = offset_of (last ?new) + 1"
      using o r(1) False by (simp add: in_order_def offset_of_def sint_add_one)
    have "log_range plog (sint next) (sint next') = ?new"
      unfolding log_range_def
    proof (rule filter_cong [OF refl])
      fix m assume "m \<in> set plog"
      then show "(sint next \<le> offset_of m \<and> offset_of m < sint next') =
          (sint next \<le> offset_of m \<and> offset_of m < hi)"
        using in_order_last [OF o, of m] l by (auto simp: n log_range_def)
    qed
    moreover have "sint next \<le> sint next'" using l by (simp add: n log_range_def)
    ultimately show ?thesis using r by simp
  qed
qed

section \<open>The stored offset\<close>

lemma unat_nonneg: "0 \<le> sint (x :: Int64) \<Longrightarrow> unat x < 2 ^ 63"
proof -
  assume x: "0 \<le> sint x"
  have lt: "sint x < 2 ^ 63" using sint_lt [of x] by simp
  have "uint x = take_bit 64 (sint x)" using uint_sint [of x] by simp
  also have "\<dots> = sint x" using x lt by (intro take_bit_int_eq_self) simp_all
  finally have "int (unat x) < int (2 ^ 63)" using lt by simp
  then show "unat x < 2 ^ 63" by linarith
qed

lemma unat_all_ones: "unat (- 1 :: Int64) = 2 ^ 64 - 1"
  by (simp add: unsigned_minus_1_eq_mask mask_eq_exp_minus_1)

text \<open>C27: committing and restarting. After a commit, a partition that is created again for the same
  client, topic and partition with \<^verbatim>\<open>FROM_STORED\<close> starts at the offset of the last message delivered,
  one below the next offset to fetch: the restarted consumer fetches that message again. When
  nothing was fetched and the next offset is 0, the commit writes 18446744073709551615 and the
  constructor of the restarted partition ends with an exception of \<^verbatim>\<open>std::stoll\<close>. This is so when the file
  can be opened for writing, by the commit and by the restart; when the commit cannot open it, the
  files stay as they were and the commit returns all the same.\<close>

theorem commit_then_restart:
  assumes "0 \<le> sint (m_iNextFetchOffset p)" and "cStartOffset (m_config q) = FROM_STORED"
    and "m_strStoredOffsetFileName p = offset_file_name E q"
  shows "\<exists>w'. commitKafkaOffset E p w = ret w' \<and>
    (if open_write E (tick w) (offset_file_name E q)
     then open_write E (tick w') (offset_file_name E q) \<longrightarrow> getKafkaOffset E q w' =
       (if m_iNextFetchOffset p = 0 then stop (Throws Out_of_range)
        else ret (q\<lparr>m_strStoredOffsetFileName := offset_file_name E q,
                    m_iNextFetchOffset := m_iNextFetchOffset p - 1\<rparr>, next_call w'))
     else files w' = files w)"
proof -
  let ?n = "m_iNextFetchOffset p"
  obtain w' where w': "commitKafkaOffset E p w = ret w'" "tick w' = Suc (tick w)"
      "files w' = (if open_write E (tick w) (offset_file_name E q)
        then (files w)(offset_file_name E q := Some (dec_nat (unat (?n - 1)))) else files w)"
    using assms(1,3) by (auto simp: commitKafkaOffset_def Let_def)
  have n: "unat (?n - 1) < 2 ^ 63 \<longleftrightarrow> ?n \<noteq> 0"
  proof (cases "?n = 0")
    case True
    then show ?thesis by (simp add: unat_all_ones)
  next
    case False
    then have "unat (?n - 1) < unat ?n"
      by (simp add: unat_minus_one word_less_nat_alt unat_gt_0)
    with unat_nonneg [OF assms(1)] False show ?thesis by simp
  qed
  have "of_nat (unat (?n - 1)) = ?n - 1" by simp
  with w' n assms(2) show ?thesis
    by (intro exI [of _ w']) (simp add: getKafkaOffset_def last_word_dec stoll_dec_nat Let_def)
qed

theorem commit_then_restart_witness:
  "let p = sample_consumer\<lparr>m_iNextFetchOffset := 42, m_strStoredOffsetFileName := offset_file_name sample_env sample_consumer\<rparr>
   in \<exists>w'. commitKafkaOffset sample_env p sample_world = ret w' \<and>
      returns (\<lambda>(q, w). m_iNextFetchOffset q = 41) (getKafkaOffset sample_env sample_consumer w')"
proof -
  have "open_write sample_env t f" for t f by (simp add: sample_env_def)
  then show ?thesis
    using commit_then_restart [of "sample_consumer\<lparr>m_iNextFetchOffset := 42,
      m_strStoredOffsetFileName := offset_file_name sample_env sample_consumer\<rparr>" sample_consumer sample_env sample_world]
    by (auto simp: sample_consumer_def KafkaPartition_fields_def defaultInit_def Let_def)
qed

end
