(* ===== verification/Handler_Laws.thy ===== *)
theory Handler_Laws
  imports Endpoint
begin

text \<open>
  What the handlers of a partition have in common. The locale \<open>handlers\<close> is about any property of a
  partition, its reactor and the process that survives a few small steps: registering and
  unregistering a descriptor, actions that have nothing to do with libevent or with requests, changes
  of members that hold no messages and no position, buffering a fetch, metadata or offset request, and
  writing the first request of the buffer. Inside it, one lemma per handler shows that the handler keeps the property, for all
  handlers that neither create produce requests nor handle their answers; \<open>moving_handlers\<close> adds those that
  deliver messages.
\<close>

section \<open>Actions that concern neither the reactor nor a message\<close>

text \<open>A write of at most eight bytes is one to an event source: no request is that short.\<close>

fun quiet :: "action \<Rightarrow> bool" where
  "quiet (Event_new _ _ _) \<longleftrightarrow> False"
| "quiet (Event_add _) \<longleftrightarrow> False"
| "quiet (Event_del _) \<longleftrightarrow> False"
| "quiet (Event_free _) \<longleftrightarrow> False"
| "quiet (Write _ bs) \<longleftrightarrow> length bs \<le> 8"
| "quiet (On_received_data _) \<longleftrightarrow> False"
| "quiet _ \<longleftrightarrow> True"

definition quietly :: "world \<Rightarrow> world \<Rightarrow> bool" where
  "quietly w w' \<longleftrightarrow> (\<exists>tr. trace w' = trace w @ tr \<and> list_all quiet tr)"

lemma quietly_refl [simp]: "quietly w w"
  by (simp add: quietly_def)

lemma quietly_trans: "quietly w w' \<Longrightarrow> quietly w' w'' \<Longrightarrow> quietly w w''"
  by (auto simp: quietly_def)

lemma quietly_next [simp]: "quietly w (next_call w') \<longleftrightarrow> quietly w w'"
  by (simp add: quietly_def)

lemma quietly_act [simp]: "quiet a \<Longrightarrow> quietly w w' \<Longrightarrow> quietly w (act a w')"
proof -
  assume a: "quiet a" and "quietly w w'"
  then obtain tr where "trace w' = trace w @ tr" "list_all quiet tr" by (auto simp: quietly_def)
  with a show ?thesis unfolding quietly_def by (intro exI [of _ "tr @ [a]"]) simp
qed

lemma quietly_write_file [simp]: "quietly w w' \<Longrightarrow> quietly w (write_file E f bs w')"
  using quietly_act [of "File_write f bs" w w'] by (simp add: quietly_def write_file_def)

lemma quietly_commit: "post (quietly w) (commitKafkaOffset E p w)"
  by (simp add: commitKafkaOffset_def Let_def)

lemma quietly_steps [simp]:
  "quietly w w' \<Longrightarrow> quietly w (posix_close fd w')"
  "quietly w w' \<Longrightarrow> quietly w (sleep_ms n w')"
  "quietly w w' \<Longrightarrow> quietly w (LibeventReactor_shutdown r w')"
  by (simp_all add: posix_close_def sleep_ms_def LibeventReactor_shutdown_def)

lemma quietly_posix:
  "posix_read E fd n w = (rd, w') \<Longrightarrow> quietly w w'"
  "posix_write E fd bs w = (wr, w') \<Longrightarrow> length bs \<le> 8 \<Longrightarrow> quietly w w'"
  "posix_connect E fd ip pt w = (res, w') \<Longrightarrow> quietly w w'"
  "posix_settime E fd s ns w = (res, w') \<Longrightarrow> quietly w w'"
  "hostnameToIp E h w = (hr, w') \<Longrightarrow> quietly w w'"
  by (auto simp: posix_read_def posix_write_def posix_connect_def posix_settime_def hostnameToIp_def
      Let_def split: if_splits read_result.splits write_result.splits option.splits list.splits)

lemma quietly_connect_retries: "quietly w (snd (connect_retries E fd ip pt ii w))"
proof (induction E fd ip pt ii w rule: connect_retries.induct)
  case (1 E fd ip pt ii w)
  show ?case
  proof (cases "ii \<le> maxRetries")
    case True
    let ?w = "sleep_ms (1000 * push_bit (ii * 2) 1) w"
    obtain res w2 where c: "posix_connect E fd ip pt ?w = (res, w2)" by fastforce
    have w2: "quietly w w2" using quietly_posix(3) [OF c] quietly_trans [of w ?w w2] by simp
    show ?thesis
    proof (cases "res = - 1 \<and> ii \<noteq> maxRetries")
      case t: True
      then show ?thesis
        using 1 [OF True refl refl c [symmetric] refl] True c w2
        by (subst connect_retries.simps) (auto simp: Let_def intro: quietly_trans)
    next
      case False
      with True c w2 show ?thesis by (subst connect_retries.simps) (auto simp: Let_def)
    qed
  qed (subst connect_retries.simps, simp)
qed

lemma quietly_connectServer: "connectServer E ip pt w = (fd, w') \<Longrightarrow> quietly w w'"
proof -
  assume c: "connectServer E ip pt w = (fd, w')"
  obtain res w1 where p: "posix_connect E (sys_socket E (tick w)) (c_string ip) pt (next_call w) = (res, w1)"
    by fastforce
  have "quietly w w1" using quietly_posix(3) [OF p] quietly_trans [of w "next_call w" w1] by simp
  with c p quietly_connect_retries [of w1 E "sys_socket E (tick w)" "c_string ip" pt 0] show ?thesis
    by (auto simp: connectServer_def Let_def split: if_splits intro: quietly_trans)
qed

lemma quietly_readData_loop: "quietly w (snd (readData_loop E fd n data w))"
proof (induction E fd n data w rule: readData_loop.induct)
  case (1 E fd n data w)
  obtain rd w1 where p: "posix_read E fd n w = (rd, w1)" by fastforce
  have w1: "quietly w w1" using p by (rule quietly_posix(1))
  show ?case
  proof (cases rd)
    case (Read bs)
    with 1 p w1 show ?thesis
      by (subst readData_loop.simps) (auto simp: Let_def intro: quietly_trans)
  next
    case (Read_error e)
    with p w1 show ?thesis by (subst readData_loop.simps) (simp add: Let_def)
  qed
qed

lemma quietly_readData: "readData E fd n w = (res, w') \<Longrightarrow> quietly w w'"
  using quietly_readData_loop [of w E fd n "[]"]
  by (auto simp: readData_def Let_def split: prod.splits read_status.splits)

lemma quietly_wakeup: "post (quietly w) (WakeupEventSource_wakeup E src w)"
  using quietly_posix(2) [of E "m_iWakeupFd src" "mem_store 8 (1 :: 64 word)" w]
  by (auto simp: WakeupEventSource_wakeup_def Let_def split: prod.splits write_result.splits)

lemma quietly_read_wakeups:
  "read_wakeups E fd cb w = Some res \<Longrightarrow> case res of Inr (n, w') \<Rightarrow> quietly w w' | Inl f \<Rightarrow> True"
proof (erule read_wakeups.raw_induct [rotated])
  fix rw E fd cb w res
  assume 1: "\<And>E fd cb w res. rw E fd cb w = Some res \<Longrightarrow>
        case res of Inl f \<Rightarrow> True | Inr (n, w') \<Rightarrow> quietly w w'"
    "(let (res, w) = posix_read E fd 8 w in
      case res of
        Read bs \<Rightarrow>
          if length bs \<noteq> 8 then Some (Inr (None, w))
          else if cb then Some (Inr (Some (mem_load bs), w))
          else rw E fd cb w
      | Read_error e \<Rightarrow>
          if e = EINTR then rw E fd cb w
          else if e = EAGAIN then Some (Inr (None, w))
          else Some (Inl Assert_failed)) = Some res"
  obtain rd w1 where p: "posix_read E fd 8 w = (rd, w1)" by fastforce
  have w1: "quietly w w1" using p by (rule quietly_posix(1))
  show "case res of Inl f \<Rightarrow> True | Inr (n, w') \<Rightarrow> quietly w w'"
  proof (cases rd)
    case (Read bs)
    with 1(2) p have "res = Inr (None, w1) \<or> res = Inr (Some (mem_load bs), w1) \<or> rw E fd cb w1 = Some res"
      by (simp split: if_splits)
    with 1(1) [of E fd cb w1 res] w1 show ?thesis by (auto split: sum.splits intro: quietly_trans)
  next
    case (Read_error e)
    with 1(2) p have "rw E fd cb w1 = Some res \<or> res = Inr (None, w1) \<or> res = Inl Assert_failed"
      by (simp split: if_splits)
    with 1(1) [of E fd cb w1 res] w1 show ?thesis by (auto split: sum.splits intro: quietly_trans)
  qed
qed

lemma quietly_handleEvent:
  "post (\<lambda>(n, w'). quietly w w') (WakeupEventSource_handleEvent E src event w)"
  "post (\<lambda>(n, w'). quietly w w') (PeriodicEventSource_handleEvent E psrc event w)"
  using quietly_read_wakeups
  by (auto simp: WakeupEventSource_handleEvent_def PeriodicEventSource_handleEvent_def post_iff ret_def
      split: if_splits; fastforce)+

lemma quietly_init:
  "post (\<lambda>(src', w'). quietly w w') (WakeupEventSource_init E src w)"
  "post (\<lambda>(src', w'). quietly w w') (PeriodicEventSource_init E t psrc w)"
proof -
  show "post (\<lambda>(src', w'). quietly w w') (WakeupEventSource_init E src w)"
    by (simp add: WakeupEventSource_init_def Let_def assert_that_def)
  show "post (\<lambda>(src', w'). quietly w w') (PeriodicEventSource_init E t psrc w)"
    by (cases "timer_spec t" rule: outcome_cases)
      (auto simp: PeriodicEventSource_init_def Let_def assert_that_def posix_settime_def)
qed

section \<open>Registering and unregistering\<close>

fun event_action :: "action \<Rightarrow> bool" where
  "event_action (Event_new _ _ _) \<longleftrightarrow> True"
| "event_action (Event_add _) \<longleftrightarrow> True"
| "event_action (Event_del _) \<longleftrightarrow> True"
| "event_action (Event_free _) \<longleftrightarrow> True"
| "event_action _ \<longleftrightarrow> False"

lemma unregister_acts:
  "unregisterFdCallback E fd r w = (r', w') \<Longrightarrow> \<exists>tr. trace w' = trace w @ tr \<and> list_all event_action tr"
  by (auto simp: unregisterFdCallback_def delete_event_def Let_def split: option.splits)

lemma register_acts:
  "post (\<lambda>(r', w'). \<exists>tr. trace w' = trace w @ tr \<and> list_all event_action tr)
     (registerFdCallback E fd flags oneshot modify r w)"
proof -
  obtain r1 w1 where u: "(if modify then unregisterFdCallback E fd r w else (r, w)) = (r1, w1)" by fastforce
  then obtain tr where "trace w1 = trace w @ tr" "list_all event_action tr"
    using unregister_acts [of E fd r w] by (fastforce split: if_splits)
  then show ?thesis
    by (simp add: registerFdCallback_def u Let_def assert_that_def split: option.splits)
qed

section \<open>Requests\<close>

text \<open>
  A request frame for an api key: key and correlation id in the header are that key.
\<close>

definition request_tag :: "Int32 \<Rightarrow> String \<Rightarrow> bool" where
  "request_tag k b \<longleftrightarrow> take 2 (drop 4 b) = be_bytes 2 (ucast k :: Int16) \<and> take 4 (drop 8 b) = be_bytes 4 k"

lemma written_tags:
  "correlation_id rq = kApiKeyProduceRequest \<Longrightarrow> request_tag kApiKeyProduceRequest (produce_request_bytes E p rq)"
  "correlation_id f = kApiKeyFetchRequest \<Longrightarrow> request_tag kApiKeyFetchRequest
     (WriteRequest FetchRequest_ApiKey RequestMessageWireSize_Fetch WriteRequestMessage_Fetch f cid [])"
  "correlation_id q = kApiKeyOffsetRequest \<Longrightarrow> request_tag kApiKeyOffsetRequest
     (WriteRequest OffsetRequest_ApiKey RequestMessageWireSize_Offset WriteRequestMessage_Offset q cid [])"
  "correlation_id m = kApiKeyMetadataRequest \<Longrightarrow> request_tag kApiKeyMetadataRequest
     (WriteRequest MetadataRequest_ApiKey RequestMessageWireSize_Metadata WriteRequestMessage_Metadata m cid [])"
  unfolding produce_request_bytes_def
    produce_request.write_request_frame fetch_request.write_request_frame
    offset_request.write_request_frame metadata_request.write_request_frame
    produce_request.frame_def fetch_request.frame_def
    offset_request.frame_def metadata_request.frame_def
  by (simp_all add: request_tag_def api_keys request_api_keys)

section \<open>Members without messages\<close>

definition same_core :: "KafkaPartition \<Rightarrow> KafkaPartition \<Rightarrow> bool" where
  "same_core p q \<longleftrightarrow>
     m_qMsgs q = m_qMsgs p \<and> m_dqWriteBuffers q = m_dqWriteBuffers p \<and>
     m_qInTransitProduceRequest q = m_qInTransitProduceRequest p \<and> m_iEventFlags q = m_iEventFlags p \<and>
     m_sBrokers q = m_sBrokers p \<and> m_strTopic q = m_strTopic p \<and> m_iPartition q = m_iPartition p \<and>
     m_config q = m_config p \<and> m_partitionType q = m_partitionType p \<and>
     m_iNextFetchOffset q = m_iNextFetchOffset p \<and> onReceivedData q = onReceivedData p"

lemma same_core_update [simp]:
  "same_core p p" "same_core p (p\<lparr>m_iSockFd := fd\<rparr>)" "same_core p (p\<lparr>m_sLeader := b\<rparr>)"
  "same_core p (p\<lparr>m_bFetchPaused := x\<rparr>)" "same_core p (p\<lparr>m_iMsgCnt := k\<rparr>)"
  "same_core p (p\<lparr>m_fetchEvent := src\<rparr>)" "same_core p (p\<lparr>m_produceEvent := src\<rparr>)"
  "same_core p (p\<lparr>m_produceMsgQEvent := src\<rparr>)" "same_core p (p\<lparr>m_mdTimerEvent := psrc\<rparr>)"
  "same_core p (p\<lparr>m_ocTimerEvent := psrc\<rparr>)" "same_core p (p\<lparr>m_pReqTimerEvent := psrc\<rparr>)"
  by (simp_all add: same_core_def)

text \<open>The first request of the buffer is taken out; a produce request is in transit then.\<close>

definition sent :: "Int32 \<times> String \<Rightarrow> (Int32 \<times> String) list \<Rightarrow> KafkaPartition \<Rightarrow> KafkaPartition" where
  "sent req rest p =
     (let p = p\<lparr>m_dqWriteBuffers := rest\<rparr> in
      if fst req = kApiKeyProduceRequest
      then p\<lparr>m_qInTransitProduceRequest := m_qInTransitProduceRequest p @ [snd req]\<rparr> else p)"

lemma sent_simps [simp]:
  "m_iSockFd (sent req rest p) = m_iSockFd p" "m_config (sent req rest p) = m_config p"
  "m_strTopic (sent req rest p) = m_strTopic p" "m_iPartition (sent req rest p) = m_iPartition p"
  "m_qMsgs (sent req rest p) = m_qMsgs p" "m_dqWriteBuffers (sent req rest p) = rest"
  by (simp_all add: sent_def Let_def)

lemma post_bndI: "post P m \<Longrightarrow> (\<And>x. P x \<Longrightarrow> post Q (k x)) \<Longrightarrow> post Q (bnd m k)"
  by (auto intro!: post_bnd elim: post_mono)

section \<open>The handlers\<close>

locale handlers =
  fixes E :: env and K :: "pstate \<Rightarrow> bool"
  assumes K_register: "K (p, r, w) \<Longrightarrow> post (\<lambda>(r', w'). K (p, r', w')) (registerFdCallback E fd flags oneshot modify r w)"
    and K_unregister: "K (p, r, w) \<Longrightarrow> unregisterFdCallback E fd r w = (r', w') \<Longrightarrow> K (p, r', w')"
    and K_quiet: "K (p, r, w) \<Longrightarrow> quietly w w' \<Longrightarrow> K (p, r, w')"
    and K_core: "K (p, r, w) \<Longrightarrow> same_core p q \<Longrightarrow> K (q, r, w)"
    and K_back: "K (p, r, w) \<Longrightarrow> request_tag kApiKeyFetchRequest b \<Longrightarrow>
      K (p\<lparr>m_dqWriteBuffers := m_dqWriteBuffers p @ [(kApiKeyFetchRequest, b)]\<rparr>, r, w)"
    and K_front: "K (p, r, w) \<Longrightarrow> k \<in> {kApiKeyOffsetRequest, kApiKeyMetadataRequest} \<Longrightarrow> request_tag k b \<Longrightarrow>
      K (p\<lparr>m_dqWriteBuffers := (k, b) # m_dqWriteBuffers p\<rparr>, r, w)"
    and K_sent: "K (p, r, w) \<Longrightarrow> m_dqWriteBuffers p = req # rest \<Longrightarrow>
      posix_write E (m_iSockFd p) (snd req) w = (res, w') \<Longrightarrow> K (sent req rest p, r, w')"
begin

lemma register_keeps: "K s \<Longrightarrow> post K (register E fd flags modify s)"
  unfolding register_def by (cases s) (auto intro!: post_bndI [OF K_register])

lemma connectLeader_keeps: "K s \<Longrightarrow> post (\<lambda>(c, s'). K s') (connectLeader E s)"
proof -
  assume s: "K s"
  obtain p r w where p: "s = (p, r, w)" by (cases s)
  obtain fd w1 where c: "connectServer E (m_strIp (m_sLeader p)) (m_iPort (m_sLeader p)) w = (fd, w1)" by fastforce
  have "K (p, r, w1)" using s K_quiet [OF _ quietly_connectServer [OF c]] by (simp add: p)
  with K_core [OF this] show ?thesis
    by (auto simp: connectLeader_def p c Let_def intro!: post_bndI [OF register_keeps])
qed

lemma disconnect_keeps: "K s \<Longrightarrow> K (disconnect E s)"
proof -
  assume s: "K s"
  obtain p r w where p: "s = (p, r, w)" by (cases s)
  obtain r' w' where u: "unregisterFdCallback E (m_iSockFd p) r w = (r', w')" by fastforce
  have "K (p, r', posix_close (m_iSockFd p) w')"
    using s K_quiet [OF K_unregister [OF _ u]] by (simp add: p)
  from K_core [OF this] show ?thesis by (simp add: disconnect_def p u)
qed

lemma reconnect_keeps: "K s \<Longrightarrow> post (\<lambda>(c, s'). K s') (reconnect E s)"
proof -
  assume "K s"
  then have d: "K (disconnect E s)" by (rule disconnect_keeps)
  obtain p r w where p: "disconnect E s = (p, r, w)" by (cases "disconnect E s")
  have "K (p\<lparr>m_sLeader := b\<rparr>, r, w)" for b using K_core d by (simp add: p)
  then show ?thesis
    unfolding reconnect_def p by (auto simp: other_broker_def Let_def intro!: connectLeader_keeps)
qed

lemma wakeup_keeps: "K (p, r, w) \<Longrightarrow> post (\<lambda>w'. K (p, r, w')) (WakeupEventSource_wakeup E src w)"
  by (rule post_mono [OF quietly_wakeup]) (rule K_quiet)

lemma wakeup_fetch_keeps: "K s \<Longrightarrow> post K (wakeup_fetch E s)"
  unfolding wakeup_fetch_def by (cases s) (auto intro!: post_bndI [OF wakeup_keeps])

lemma wakeup_msgq_keeps: "K s \<Longrightarrow> post (\<lambda>(n, s'). K s') (wakeup_msgq E s)"
  unfolding wakeup_msgq_def by (cases s) (auto intro!: post_bndI [OF wakeup_keeps])

lemma createFetchRequest_keeps: "K s \<Longrightarrow> post K (createFetchRequest E s)"
  unfolding createFetchRequest_def
  by (cases s) (auto simp: Let_def FetchTopic_def set_max_wait_time_def set_min_bytes_def
      set_correlation_id_def intro!: register_keeps K_back written_tags)

lemma createMetadataRequest_keeps: "K s \<Longrightarrow> post K (createMetadataRequest E s)"
  unfolding createMetadataRequest_def
  by (cases s) (auto simp: Let_def AddTopicName_def set_correlation_id_def
      intro!: register_keeps K_front written_tags)

lemma createOffsetRequest_keeps: "K s \<Longrightarrow> post K (createOffsetRequest E s)"
  unfolding createOffsetRequest_def
  by (cases s) (auto simp: Let_def FetchTopicOffset_def set_correlation_id_def
      intro!: register_keeps K_front written_tags)

lemma shutdown_keeps: "K (p, r, w) \<Longrightarrow> K (p, r, LibeventReactor_shutdown r w)"
  by (erule K_quiet) simp

lemma writeOnce_keeps: "K s \<Longrightarrow> post (\<lambda>(again, s'). K s') (writeOnce E s)"
proof -
  assume s: "K s"
  obtain p r w where p: "s = (p, r, w)" by (cases s)
  show ?thesis
  proof (cases "m_dqWriteBuffers p")
    case Nil
    then show ?thesis using s by (auto simp: writeOnce_def p intro!: post_bndI [OF register_keeps])
  next
    case (Cons req rest)
    let ?q = "sent req rest p"
    obtain res w1 where pw: "posix_write E (m_iSockFd ?q) (snd req) w = (res, w1)" by fastforce
    then have q: "K (?q, r, w1)" using K_sent [OF s [unfolded p] Cons] by simp
    have sh: "K s' \<Longrightarrow> post (\<lambda>(again, s'). K s')
        (case s' of (p, r, w) \<Rightarrow> ret (False, p, r, LibeventReactor_shutdown r w))" for s'
      by (cases s') (simp add: shutdown_keeps)
    have md: "K s' \<Longrightarrow> post (\<lambda>(again, s'). K s') (bnd (createMetadataRequest E s') (\<lambda>s. ret (True, s)))" for s'
      by (auto intro!: post_bndI [OF createMetadataRequest_keeps])
    have "post (\<lambda>(again, s'). K s') (bnd (reconnect E (?q, r, w1)) (\<lambda>(connected, s).
        if \<not> connected then (case s of (p, r, w) \<Rightarrow> ret (False, p, r, LibeventReactor_shutdown r w))
        else bnd (createMetadataRequest E s) (\<lambda>s. ret (True, s))))"
      by (rule post_bndI [OF reconnect_keeps [OF q]]) (use sh md in \<open>auto split: if_splits\<close>)
    with q show ?thesis
      using pw Cons unfolding writeOnce_def p Let_def
      by (simp only: prod.case list.case sent_def [unfolded Let_def, symmetric]) (simp split: write_result.splits)
  qed
qed

lemma onWriteReady_some:
  "onWriteReady E' s = Some res \<Longrightarrow> E' = E \<longrightarrow> K s \<longrightarrow> post K (Some res)"
proof (erule onWriteReady.raw_induct [rotated])
  fix f E' s res
  assume IH: "\<And>E' s res. f E' s = Some res \<Longrightarrow> E' = E \<longrightarrow> K s \<longrightarrow> post K (Some res)"
    and body: "(case writeOnce E' s of None \<Rightarrow> None
      | Some r \<Rightarrow>
          (case r of Inl f \<Rightarrow> Some (Inl f)
           | Inr (again, s) \<Rightarrow>
               if again
               then Option.bind (f E' s) (\<lambda>r. case r of Inl f \<Rightarrow> Some (Inl f) | Inr s \<Rightarrow> wakeup_fetch E' s)
               else Some (Inr s))) = Some res"
  show "E' = E \<longrightarrow> K s \<longrightarrow> post K (Some res)"
  proof (intro impI)
    assume E': "E' = E" and s: "K s"
    note once = writeOnce_keeps [OF s]
    show "post K (Some res)"
    proof (cases "writeOnce E s" rule: outcome_cases)
      case (ret x)
      obtain again s1 where x: "x = (again, s1)" by (cases x)
      have s1: "K s1" using once ret x by simp
      show ?thesis
      proof (cases again)
        case False
        then have "res = Inr s1" using body ret x E' by (simp add: ret_def)
        with s1 show ?thesis by (simp add: post_def)
      next
        case True
        then obtain r1 where r1: "f E s1 = Some r1"
            "(case r1 of Inl f \<Rightarrow> Some (Inl f) | Inr s \<Rightarrow> wakeup_fetch E s) = Some res"
          using body ret x E' by (auto simp: ret_def split: Option.bind_splits)
        show ?thesis
        proof (cases r1)
          case (Inr s2)
          then have "K s2" using IH [OF r1(1)] s1 by (simp add: post_def)
          from wakeup_fetch_keeps [OF this] r1(2) Inr show ?thesis by simp
        qed (use r1(2) in \<open>auto simp: post_def\<close>)
      qed
    qed (use body E' in \<open>auto simp: stop_def post_def\<close>)
  qed
qed

lemma onWriteReady_keeps: "K s \<Longrightarrow> post K (onWriteReady E s)"
  using onWriteReady_some [of E s] by (cases "onWriteReady E s") simp_all

lemma write_all_keeps: "K s \<Longrightarrow> post K (write_all E s)"
proof -
  have "write_all E' s = Some res \<Longrightarrow> E' = E \<longrightarrow> K s \<longrightarrow> post K (Some res)" for E' s res
  proof (erule write_all.raw_induct [rotated])
    fix f E' s res
    assume IH: "\<And>E' s res. f E' s = Some res \<Longrightarrow> E' = E \<longrightarrow> K s \<longrightarrow> post K (Some res)"
      and body: "(if m_dqWriteBuffers (fst s) = [] then Some (Inr s)
        else Option.bind (onWriteReady E' s) (\<lambda>r. case r of Inl f \<Rightarrow> Some (Inl f) | Inr s \<Rightarrow> f E' s)) = Some res"
    show "E' = E \<longrightarrow> K s \<longrightarrow> post K (Some res)"
    proof (intro impI)
      assume E': "E' = E" and s: "K s"
      show "post K (Some res)"
      proof (cases "m_dqWriteBuffers (fst s) = []")
        case False
        with body E' show ?thesis
          using IH [of E _ res] onWriteReady_keeps [OF s]
          by (cases "onWriteReady E s" rule: outcome_cases) (simp_all add: ret_def stop_def post_def)
      qed (use body s in \<open>auto simp: post_def\<close>)
    qed
  qed
  then show "K s \<Longrightarrow> post K (write_all E s)" by (cases "write_all E s") simp_all
qed

lemma handleKafkaError_keeps: "K s \<Longrightarrow> post K (handleKafkaError E ec s)"
  unfolding handleKafkaError_def
  by (auto intro!: post_bndI [OF createOffsetRequest_keeps] post_bndI [OF createMetadataRequest_keeps] onWriteReady_keeps)

lemma switch_keeps:
  assumes "K s"
  shows "post K (let (p, r, w) = disconnect E s; p = p\<lparr>m_sLeader := l\<rparr>
      in bnd (connectLeader E (p, r, w)) (\<lambda>(connected, p, r, w).
        wakeup_fetch E (p, r, if \<not> connected then LibeventReactor_shutdown r w else w)))"
proof -
  obtain p r w where d: "disconnect E s = (p, r, w)" by (cases "disconnect E s")
  have "K (p\<lparr>m_sLeader := l\<rparr>, r, w)"
    using K_core disconnect_keeps [OF assms] by (simp add: d)
  from connectLeader_keeps [OF this] show ?thesis
    by (auto simp: d Let_def intro!: post_bndI wakeup_fetch_keeps intro: shutdown_keeps)
qed

lemma followLeader_keeps: "K s \<Longrightarrow> post K (followLeader E rsp s)"
proof -
  assume s: "K s"
  obtain p r w where p: "s = (p, r, w)" by (cases s)
  have "K (p, r, w')" if "hostnameToIp E h w = (x, w')" for h x w'
    using s K_quiet [OF _ quietly_posix(5) [OF that]] by (simp add: p)
  with s switch_keeps show ?thesis
    by (simp add: followLeader_def p split: prod.splits option.splits)
qed

lemma handleMetadataResponse_keeps: "K s \<Longrightarrow> post K (handleMetadataResponse E is s)"
  unfolding handleMetadataResponse_def
  by (auto intro!: post_bndI [OF handleKafkaError_keeps] followLeader_keeps split: sum.splits)

lemma readError_keeps: "K s \<Longrightarrow> post K (readError E res err s)"
proof -
  assume s: "K s"
  have "post K (if \<not> connected then (case s' of (p, r, w) \<Rightarrow> ret (p, r, LibeventReactor_shutdown r w))
      else bnd (createMetadataRequest E s') (\<lambda>s. bnd (onWriteReady E s) (wakeup_fetch E)))"
    if "K s'" for connected s'
    using that by (cases s') (auto intro!: post_bndI [OF createMetadataRequest_keeps]
        post_bndI [OF onWriteReady_keeps] wakeup_fetch_keeps intro: shutdown_keeps)
  with s show ?thesis
    unfolding readError_def by (auto intro!: post_bndI [OF reconnect_keeps] simp: split_beta)
qed

lemma enqueue_post:
  assumes "K s" and "\<And>p r w. K (p, r, w) \<Longrightarrow> Q (p\<lparr>m_qMsgs := m_qMsgs p @ [m], m_iMsgCnt := m_iMsgCnt p + 1\<rparr>, r, w)"
  shows "post Q (enqueue E m s)"
proof -
  obtain p r w where p: "s = (p, r, w)" by (cases s)
  have "post (\<lambda>(p, w). K (p, r, w))
      (if m_iMsgCnt p = pBatchNumMsgs (m_config p) \<and> m_partitionType p = PRODUCER_P
       then bnd (WakeupEventSource_wakeup E (m_produceEvent p) w) (\<lambda>w. ret (p\<lparr>m_iMsgCnt := 0\<rparr>, w))
       else ret (p, w))"
    using assms(1) K_core unfolding p by (auto intro!: post_bndI [OF wakeup_keeps])
  then show ?thesis
    unfolding enqueue_def p prod.case by (rule post_bndI) (auto intro: assms(2))
qed

text \<open>The two ways to handle the answer to a produce request.\<close>

lemma handleProduceResponse_post:
  assumes "K s"
    and acknowledged: "\<And>p r w w' req rest. K (p, r, w) \<Longrightarrow> m_qInTransitProduceRequest p = req # rest \<Longrightarrow> quietly w w' \<Longrightarrow>
      Q (p\<lparr>m_qInTransitProduceRequest := rest\<rparr>, r, w')"
    and refused: "\<And>p r w req rest. K (p, r, w) \<Longrightarrow> m_qInTransitProduceRequest p = req # rest \<Longrightarrow>
      Q (p\<lparr>m_dqWriteBuffers := m_dqWriteBuffers p @ [(kApiKeyProduceRequest, c_string req)],
           m_qInTransitProduceRequest := rest\<rparr>, r, w)"
  shows "post Q (handleProduceResponse E is s)"
proof -
  have "post Q (case s' of (p, r, w) \<Rightarrow>
      (case m_qInTransitProduceRequest p of
        [] \<Rightarrow> stop Undefined
      | req # rest \<Rightarrow>
          ret (p\<lparr>m_dqWriteBuffers := m_dqWriteBuffers p @ [(kApiKeyProduceRequest, c_string req)],
                 m_qInTransitProduceRequest := rest\<rparr>, r, w)))" if "K s'" for s'
    using that refused by (cases s') (auto split: list.splits)
  then show ?thesis
    using assms(1) unfolding handleProduceResponse_def
    by (cases s) (auto simp: Let_def intro!: post_bndI [OF handleKafkaError_keeps] acknowledged
        split: sum.splits list.splits option.splits)
qed

lemma after_wakeup_keeps:
  assumes "K (p, r, w)" and "post (\<lambda>(n, w'). quietly w w') m" and "\<And>s. K s \<Longrightarrow> post K (k s)"
  shows "post K (after_wakeup m k p r)"
proof -
  have "K (p, r, w')" if "quietly w w'" for w' using assms(1) that by (rule K_quiet)
  with assms(3) show ?thesis
    unfolding after_wakeup_def by (auto intro!: post_bndI [OF assms(2)] split: option.splits)
qed

lemma resumeFetch_keeps: "K s \<Longrightarrow> post K (resumeFetch E s)"
  unfolding resumeFetch_def using K_core
  by (cases s) (auto simp: Let_def intro!: post_bndI [OF wakeup_keeps])

lemma pauseFetch_keeps: "K s \<Longrightarrow> K (pauseFetch s)"
  using K_core by (cases s) (auto simp: pauseFetch_def)

lemma commit_keeps: "K s \<Longrightarrow> post K ((\<lambda>(p, r, w). bnd (commitKafkaOffset E p w) (\<lambda>w. ret (p, r, w))) s)"
  using K_quiet by (cases s) (auto intro!: post_bndI [OF quietly_commit])

lemma notifyProduceMsgQ_keeps: "K s \<Longrightarrow> post K (notifyProduceMsgQ s)"
  using K_quiet by (cases s) (auto simp: notifyProduceMsgQ_def)

lemma source_init_keeps:
  assumes "K (p, r, w)"
  shows "post (\<lambda>(src, w'). K (p, r, w')) (WakeupEventSource_init E wsrc w)"
    and "post (\<lambda>(src, w'). K (p, r, w')) (PeriodicEventSource_init E t psrc w)"
  using K_quiet [OF assms] by (auto intro!: post_mono [OF quietly_init(1)] post_mono [OF quietly_init(2)])

lemma source_set_keeps:
  assumes "K (p, r, w)"
  shows "K (p\<lparr>m_fetchEvent := src\<rparr>, r, w)" "K (p\<lparr>m_produceEvent := src\<rparr>, r, w)" "K (p\<lparr>m_produceMsgQEvent := src\<rparr>, r, w)"
    "K (p\<lparr>m_mdTimerEvent := psrc\<rparr>, r, w)" "K (p\<lparr>m_ocTimerEvent := psrc\<rparr>, r, w)" "K (p\<lparr>m_pReqTimerEvent := psrc\<rparr>, r, w)"
  using K_core [OF assms] by simp_all

lemma startFetch_keeps: "K s \<Longrightarrow> post K (startFetch E s)"
  unfolding startFetch_def
  by (cases s) (auto intro!: post_bndI [OF source_init_keeps(1)] post_bndI [OF source_init_keeps(2)]
      post_bndI [OF register_keeps] source_set_keeps wakeup_fetch_keeps)

lemma startProduce_keeps: "K s \<Longrightarrow> post K (startProduce E s)"
  unfolding startProduce_def
  by (cases s) (auto intro!: post_bndI [OF source_init_keeps(1)] post_bndI [OF source_init_keeps(2)]
      post_bndI [OF register_keeps] post_bndI [OF wakeup_keeps] source_set_keeps)

end

text \<open>The handlers that deliver messages or move the next offset, for properties that do not mind.\<close>

locale moving_handlers = handlers +
  assumes K_offset: "K (p, r, w) \<Longrightarrow> K (p\<lparr>m_iNextFetchOffset := n\<rparr>, r, w)"
    and K_deliver: "K (p, r, w) \<Longrightarrow> K (p, r, act (On_received_data ms) w)"
begin

lemma handleFetchResponse_keeps: "K s \<Longrightarrow> post K (handleFetchResponse E is s)"
proof -
  assume s: "K s"
  obtain p r w where p: "s = (p, r, w)" by (cases s)
  have "K (p\<lparr>m_iNextFetchOffset := n\<rparr>, r, w)" "K (p\<lparr>m_iNextFetchOffset := n\<rparr>, r, act (On_received_data ms) w)" for n ms
    using s K_offset K_deliver by (simp_all add: p)
  then have "post K (bnd (fetch_loop ms n []) (\<lambda>(next, recvMsgs).
       let p = p\<lparr>m_iNextFetchOffset := next\<rparr>
       in if recvMsgs \<noteq> [] \<and> onReceivedData p
          then ret (p, r, act (On_received_data recvMsgs) w) else ret (p, r, w)))" for ms n
    by (auto simp: Let_def post_iff bnd_eq_ret split: prod.splits)
  then show ?thesis
    using s unfolding handleFetchResponse_def
    by (auto simp: p intro!: post_bndI [OF _ wakeup_fetch_keeps] handleKafkaError_keeps split: sum.splits)
qed

lemma takeOffset_keeps: "K s \<Longrightarrow> post K (takeOffset rsp s)"
  unfolding takeOffset_def using K_offset by (cases s) (auto split: option.splits list.splits)

lemma handleOffsetResponse_keeps: "K s \<Longrightarrow> post K (handleOffsetResponse E is s)"
  unfolding handleOffsetResponse_def
  by (auto intro!: post_bndI [OF handleKafkaError_keeps] takeOffset_keeps split: sum.splits)

lemma onReadReady_post:
  assumes "\<And>is s. K s \<Longrightarrow> post Q (handleProduceResponse E is s)" and "\<And>s. K s \<Longrightarrow> Q s"
  shows "K s \<Longrightarrow> post Q (onReadReady E s)"
proof -
  assume s: "K s"
  obtain p r w where p: "s = (p, r, w)" by (cases s)
  obtain res err data w1 where r1: "readData E (m_iSockFd p) 4 (sleep_ms 1 w) = ((res, err, data), w1)"
    by (metis prod_cases3 surj_pair)
  have w1: "quietly w w1"
    using quietly_readData [OF r1] quietly_trans [of w "sleep_ms 1 w" w1] by simp
  let ?n = "unat (ntohl (mem_load data))"
  obtain res2 err2 data2 w2 where r2: "readData E (m_iSockFd p) ?n w1 = ((res2, err2, data2), w2)"
    by (metis prod_cases3 surj_pair)
  have "quietly w w2" using w1 quietly_readData [OF r2] by (rule quietly_trans)
  then have "K (p, r, w1)" "K (p, r, w2)" using s w1 by (auto simp: p intro: K_quiet)
  moreover note keeps = readError_keeps handleFetchResponse_keeps handleMetadataResponse_keeps handleOffsetResponse_keeps
  have "K s \<Longrightarrow> post Q (readError E x y s)" "K s \<Longrightarrow> post Q (handleFetchResponse E is s)"
    "K s \<Longrightarrow> post Q (handleMetadataResponse E is s)" "K s \<Longrightarrow> post Q (handleOffsetResponse E is s)" for s x y "is"
    using keeps [THEN post_mono, OF _ assms(2)] by simp_all
  ultimately show ?thesis
    unfolding onReadReady_def by (simp add: p r1 r2 Let_def assert_that_def assms del: One_nat_def)
qed

lemma onReadReady_keeps:
  "(\<And>is s. K s \<Longrightarrow> post K (handleProduceResponse E is s)) \<Longrightarrow> K s \<Longrightarrow> post K (onReadReady E s)"
  by (rule onReadReady_post)

end

end
