(* ===== verification/Connection.thy ===== *)
theory Connection
  imports Handler_Laws
begin

text \<open>
  What a partition keeps, whatever it handles. The partition relies on the reactor only through a small
  interface (locale \<open>event_registry\<close>): a property of the reactor and the process that registering and
  unregistering keep and that actions other than those on libevent events cannot break. Together with
  the invariant of the partition it satisfies the laws of \<open>moving_handlers\<close>, so all handlers keep it, and so do
  all sequences of events.
\<close>

section \<open>The invariant of a partition\<close>

text \<open>
  A buffered request is a frame for its api key; a produce request that is sent again is the C string
  of one.
\<close>

definition tagged :: "Int32 \<times> String \<Rightarrow> bool" where
  "tagged b \<longleftrightarrow> fst b \<in> {kApiKeyProduceRequest, kApiKeyFetchRequest, kApiKeyOffsetRequest, kApiKeyMetadataRequest} \<and>
     (request_tag (fst b) (snd b) \<or>
      fst b = kApiKeyProduceRequest \<and> (\<exists>req. request_tag (fst b) req \<and> snd b = c_string req))"

definition partition_ok :: "KafkaPartition \<Rightarrow> KafkaPartition \<Rightarrow> bool" where
  "partition_ok p0 p \<longleftrightarrow>
     m_strTopic p = m_strTopic p0 \<and> m_iPartition p = m_iPartition p0 \<and> m_config p = m_config p0 \<and>
     m_partitionType p = m_partitionType p0 \<and> m_sBrokers p = m_sBrokers p0 \<and>
     m_iEventFlags p = AEVENTIN OR AEVENTOUT \<and>
     list_all tagged (m_dqWriteBuffers p) \<and>
     list_all (\<lambda>b. tagged (kApiKeyProduceRequest, b)) (m_qInTransitProduceRequest p)"

lemma c_string_twice: "c_string (c_string b) = c_string b"
  by (simp add: c_string_def takeWhile_takeWhile)

lemma tagged_resend: "tagged (kApiKeyProduceRequest, b) \<Longrightarrow> tagged (kApiKeyProduceRequest, c_string b)"
  by (auto simp: tagged_def c_string_twice)

lemma produce_loop_tags:
  "correlation_id rq = kApiKeyProduceRequest \<Longrightarrow> list_all tagged bufs \<Longrightarrow>
   produce_loop E p q rq n bufs = (rq', bufs') \<Longrightarrow>
   correlation_id rq' = kApiKeyProduceRequest \<and> list_all tagged bufs'"
proof (induction E p q rq n bufs rule: produce_loop.induct)
  case (2 E p msg q rq n bufs)
  have "correlation_id (AddValue m t i x) = correlation_id x" for m t i x
    by (simp add: AddValue_def AddMessage_frame)
  moreover have "tagged (kApiKeyProduceRequest, produce_request_bytes E p rq)"
    using 2(2) by (simp add: tagged_def written_tags)
  moreover have "correlation_id (ProduceRequest_Clear x) = correlation_id x" for x
    by (simp add: ProduceRequest_Clear_def)
  ultimately show ?case
    using 2 by (cases "scast (cMaxFetchBytes (m_config p) - 1024) \<le> n") (simp_all add: Let_def)
qed simp

section \<open>Handlers over the interface of the reactor\<close>

locale event_registry =
  fixes E :: env and I :: "LibeventReactor \<Rightarrow> world \<Rightarrow> bool"
  assumes I_register: "I r w \<Longrightarrow> post (\<lambda>(r', w'). I r' w') (registerFdCallback E fd flags oneshot modify r w)"
    and I_unregister: "I r w \<Longrightarrow> unregisterFdCallback E fd r w = (r', w') \<Longrightarrow> I r' w'"
    and I_quiet: "I r w \<Longrightarrow> quietly w w' \<Longrightarrow> I r w'"
    and I_write: "I r w \<Longrightarrow> posix_write E fd bs w = (res, w') \<Longrightarrow> I r w'"
    and I_deliver: "I r w \<Longrightarrow> I r (act (On_received_data ms) w)"
begin

definition ok :: "KafkaPartition \<Rightarrow> pstate \<Rightarrow> bool" where
  "ok p0 s \<longleftrightarrow> (case s of (p, r, w) \<Rightarrow> partition_ok p0 p \<and> I r w)"

lemma ok_iff: "ok p0 (p, r, w) \<longleftrightarrow> partition_ok p0 p \<and> I r w"
  by (simp add: ok_def)

lemma ok_quiet: "ok p0 (p, r, w) \<Longrightarrow> quietly w w' \<Longrightarrow> ok p0 (p, r, w')"
  by (auto simp: ok_iff intro: I_quiet)

end

sublocale event_registry \<subseteq> kept: moving_handlers E "ok p0" for p0
proof
  show "ok p0 (p, r, w) \<Longrightarrow> post (\<lambda>(r', w'). ok p0 (p, r', w')) (registerFdCallback E fd flags oneshot modify r w)"
    for p r w fd flags oneshot modify
    using I_register [of r w] by (auto simp: ok_iff post_iff)
qed (auto simp: ok_iff partition_ok_def same_core_def sent_def tagged_def Let_def intro: I_quiet I_write I_deliver I_unregister)

context event_registry
begin

lemmas startFetch_ok = kept.startFetch_keeps
lemmas startProduce_ok = kept.startProduce_keeps
lemmas resumeFetch_ok = kept.resumeFetch_keeps

lemma createProduceRequest_ok: "ok p0 s \<Longrightarrow> post (ok p0) (createProduceRequest E s)"
proof -
  assume s: "ok p0 s"
  obtain p r w where p: "s = (p, r, w)" by (cases s)
  let ?rq = "set_timeout (pTimeout (m_config p)) (set_required_acks (pRequiredAcks (m_config p))
      (set_correlation_id kApiKeyProduceRequest ProduceRequest_new))"
  obtain rq bufs where l: "produce_loop E p (m_qMsgs p) ?rq 0 (m_dqWriteBuffers p) = (rq, bufs)" by fastforce
  have c: "correlation_id ?rq = kApiKeyProduceRequest"
    by (simp add: set_timeout_def set_required_acks_def set_correlation_id_def)
  have b: "list_all tagged (m_dqWriteBuffers p)" using s by (simp add: p ok_iff partition_ok_def)
  note produce_loop_tags [OF c b l]
  then have "tagged (kApiKeyProduceRequest, produce_request_bytes E p rq)" "list_all tagged bufs"
    by (simp_all add: tagged_def written_tags)
  then show ?thesis
    using s l by (auto simp: createProduceRequest_def p Let_def ok_iff partition_ok_def intro!: kept.register_keeps)
qed

lemma handleProduceResponse_ok: "ok p0 s \<Longrightarrow> post (ok p0) (handleProduceResponse E is s)"
  by (erule kept.handleProduceResponse_post) (auto simp: ok_iff partition_ok_def tagged_resend intro: I_quiet)

lemma handleEvent_ok: "ok p0 s \<Longrightarrow> post (ok p0) (handleEvent E fd event s)"
  by (simp add: handleEvent_def kept.onReadReady_keeps [OF handleProduceResponse_ok] kept.onWriteReady_keeps)

lemma enqueue_ok: "ok p0 s \<Longrightarrow> post (ok p0) (enqueue E msg s)"
  by (erule kept.enqueue_post) (auto simp: ok_iff partition_ok_def)

lemma produce_ok: "ok p0 s \<Longrightarrow> post (\<lambda>(n, s'). ok p0 s') (produce E msg s)"
  unfolding produce_def by (auto intro!: post_bndI [OF enqueue_ok] kept.wakeup_msgq_keeps)

lemma produce_list_ok: "ok p0 s \<Longrightarrow> post (\<lambda>(n, s'). ok p0 s') (produce_list E msgs s)"
  unfolding produce_list_def
  by (auto intro!: post_bndI [OF post_fold [of "ok p0"]] enqueue_ok kept.wakeup_msgq_keeps)

lemma partition_handle_ok: "ok p0 s \<Longrightarrow> post (ok p0) (partition_handle E ev s)"
proof -
  assume s: "ok p0 s"
  obtain p r w where p: "s = (p, r, w)" by (cases s)
  note s' = s [unfolded p]
  note after = kept.after_wakeup_keeps [OF s' quietly_handleEvent(1)] kept.after_wakeup_keeps [OF s' quietly_handleEvent(2)]
  have "post (ok p0) (bnd (produce E msg s) (\<lambda>(_, s). ret s))"
      "post (ok p0) (bnd (produce_list E msgs s) (\<lambda>(_, s). ret s))" for msg msgs
    using s by (auto intro!: post_bndI [OF produce_ok] post_bndI [OF produce_list_ok])
  with s' show ?thesis
    by (cases ev) (simp_all add: p handleEvent_ok kept.resumeFetch_keeps kept.pauseFetch_keeps after
        kept.createFetchRequest_keeps createProduceRequest_ok kept.createMetadataRequest_keeps
        kept.notifyProduceMsgQ_keeps kept.commit_keeps)
qed

lemma callbacks_set_ok:
  "ok p0 (p, r, w) \<Longrightarrow> ok p0 (p\<lparr>onReceivedData := a, onProduceResponse := b, onMsgQueued := c\<rparr>, r, w)"
  by (simp add: ok_iff partition_ok_def)

lemma init_ok: "ok p0 s \<Longrightarrow> post (ok p0) (init E s)"
proof -
  assume s: "ok p0 s"
  have t: "post (ok p0) (bnd (PeriodicEventSource_init E t src w) (\<lambda>(src, w).
      register E (m_iTimerFd src) (pe_event_flags src) False (p\<lparr>m_mdTimerEvent := src\<rparr>, r, w)))"
    if "ok p0 (p, r, w)" for p r w t src
    using that by (auto intro!: post_bndI [OF kept.source_init_keeps(2)] kept.register_keeps kept.source_set_keeps)
  have "post (ok p0) (bnd (createMetadataRequest E s1) (\<lambda>s.
       bnd (onWriteReady E s) (\<lambda>s.
       bnd (onReadReady E s) (\<lambda>s.
       bnd (createOffsetRequest E s) (\<lambda>s.
       bnd (onWriteReady E s) (\<lambda>s.
       bnd (onReadReady E s) (\<lambda>(p, r, w).
       bnd (PeriodicEventSource_init E (ms_to_seconds (mRefreshIntervalMs (m_config p))) (m_mdTimerEvent p) w)
         (\<lambda>(src, w).
       register E (m_iTimerFd src) (pe_event_flags src) False (p\<lparr>m_mdTimerEvent := src\<rparr>, r, w)))))))))"
    if "ok p0 s1" for s1
    using that by (auto intro!: post_bndI [OF kept.createMetadataRequest_keeps] post_bndI [OF kept.onWriteReady_keeps]
        post_bndI [OF kept.onReadReady_keeps [OF handleProduceResponse_ok]] post_bndI [OF kept.createOffsetRequest_keeps] t)
  then show ?thesis
    unfolding init_def
    by (intro post_bndI [OF kept.connectLeader_keeps [OF s]]) (auto simp: split_beta)
qed

lemma KafkaPartition_new_ok:
  assumes "I r w"
  shows "post (ok (KafkaPartition_fields ty topic part bs ldr config))
    (KafkaPartition_new E ty topic part bs ldr config r w)"
proof -
  let ?p = "KafkaPartition_fields ty topic part bs ldr config"
  have p: "partition_ok ?p ?p" by (simp add: partition_ok_def KafkaPartition_fields_def)
  have "post (\<lambda>(p, w'). partition_ok ?p p \<and> quietly w w') (getKafkaOffset E ?p w)"
    using p by (auto simp: getKafkaOffset_def Let_def partition_ok_def split: option.splits sum.splits)
  then have "post (\<lambda>(p, w'). ok ?p (p, r, w'))
      (if m_partitionType ?p = CONSUMER_P then getKafkaOffset E ?p w else ret (?p, w))"
    using assms p by (auto simp: ok_iff intro: I_quiet elim!: post_mono)
  then show ?thesis
    unfolding KafkaPartition_new_def Let_def by (rule post_bndI) (auto intro: init_ok)
qed

lemma ok_close:
  "ok p0 (p, r, w) \<Longrightarrow> ok p0 (p, r, posix_close fd w)"
  "ok p0 (p, r, w) \<Longrightarrow> ok p0 (p, r, sleep_ms n w)"
  by (auto intro: ok_quiet)

lemma KafkaPartition_delete_ok: "ok p0 s \<Longrightarrow> post (ok p0) (KafkaPartition_delete E s)"
  unfolding KafkaPartition_delete_def PeriodicEventSource_delete_def WakeupEventSource_delete_def Let_def
  by (auto intro!: post_bndI [OF createProduceRequest_ok] post_bndI [OF kept.write_all_keeps] ok_close)

end

section \<open>No event is used after its release\<close>

text \<open>
  The part of the reactor's invariant that also survives a second registration of a descriptor
  without \<^verbatim>\<open>modify\<close>, which a partition cannot exclude: the system chooses the descriptors.
\<close>

definition reactor_safe :: "LibeventReactor \<Rightarrow> world \<Rightarrow> bool" where
  "reactor_safe r w \<longleftrightarrow>
     distinct (map fst (m_events r)) \<and> None \<notin> snd ` set (m_events r) \<and>
     distinct (handles (m_events r)) \<and> events_ok (trace w) \<and>
     set (handles (m_events r)) \<subseteq> set (live_events (trace w))"

lemma reactor_safe_unregister:
  assumes "reactor_safe r w" and "unregisterFdCallback E fd r w = (r', w')"
  shows "reactor_safe r' w' \<and> fd \<notin> fst ` set (m_events r')"
proof (cases "map_of (m_events r) fd")
  case None
  with assms show ?thesis by (auto simp: unregister_absent map_of_eq_None_iff)
next
  case (Some e)
  have e: "(fd, e) \<in> set (m_events r)" using Some by (rule map_of_SomeD)
  then obtain ev where ev: "e = Some ev" using assms(1) by (cases e) (auto simp: reactor_safe_def rev_image_eqI)
  have "ev \<in> set (handles (m_events r))" using e ev by (auto simp: handles_def rev_image_eqI)
  moreover have "distinct (map fst (map_erase fd (m_events r)))" "None \<notin> snd ` set (map_erase fd (m_events r))"
      "fd \<notin> fst ` set (map_erase fd (m_events r))"
    using assms(1) by (auto simp: reactor_safe_def map_erase_def distinct_map_filter)
  ultimately show ?thesis
    using assms Some ev handles_erase [of "m_events r" fd ev]
    by (auto simp: unregister_present reactor_safe_def delete_event_def)
qed

lemma reactor_safe_register:
  assumes E: "fresh_events E" and safe: "reactor_safe r w"
  shows "post (\<lambda>(r', w'). reactor_safe r' w') (registerFdCallback E fd flags oneshot modify r w)"
proof -
  obtain r1 w1 where u: "(if modify then unregisterFdCallback E fd r w else (r, w)) = (r1, w1)" by fastforce
  have r1: "reactor_safe r1 w1" using reactor_safe_unregister [OF safe, of E fd r1 w1] u safe by (auto split: if_splits)
  have "reactor_safe (r1\<lparr>m_events := map_insert fd (Some ev) (m_events r1)\<rparr>)
      (act (Event_add ev) (next_call (act (Event_new ev fd fl) (next_call w1))))"
    if "event_new E (tick w1) (live_events (trace w1)) = Some ev" for ev fl
  proof -
    have "ev \<notin> set (live_events (trace w1))" using E that by (auto simp: fresh_events_def)
    then show ?thesis
      using r1 by (cases "fd \<in> fst ` set (m_events r1)")
        (auto simp: reactor_safe_def map_insert_old map_insert_new handles_insort distinct_insort_fst set_insort_key)
  qed
  moreover have "reactor_safe r1 (next_call w1)" using r1 by (simp add: reactor_safe_def)
  ultimately show ?thesis
    using r1 safe by (auto simp: registerFdCallback_def Let_def u assert_that_def split: option.splits)
qed

lemma reactor_safe_quiet:
  assumes "reactor_safe r w" and "quietly w w'"
  shows "reactor_safe r w'"
proof -
  obtain tr where tr: "trace w' = trace w @ tr" "list_all quiet tr" using assms(2) by (auto simp: quietly_def)
  have "live_step L a = L" "usable L a" if "quiet a" for L a using that by (cases a; simp)+
  then have "foldl live_step L tr = L \<and> events_from L tr" for L
    using tr(2) by (induction tr) auto
  with assms(1) tr(1) show ?thesis by (simp add: reactor_safe_def)
qed

lemma reactor_safe_write: "reactor_safe r w \<Longrightarrow> posix_write E fd bs w = (res, w') \<Longrightarrow> reactor_safe r w'"
  by (auto simp: posix_write_def reactor_safe_def Let_def split: if_splits write_result.splits)

lemma reactor_safe_deliver: "reactor_safe r w \<Longrightarrow> reactor_safe r (act (On_received_data ms) w)"
  by (simp add: reactor_safe_def)

definition events_safe :: "env \<Rightarrow> LibeventReactor \<Rightarrow> world \<Rightarrow> bool" where
  "events_safe E r w \<longleftrightarrow> (fresh_events E \<longrightarrow> reactor_safe r w)"

interpretation safe: event_registry E "events_safe E" for E
  by unfold_locales
    (auto simp: events_safe_def post_iff dest: reactor_safe_unregister reactor_safe_quiet reactor_safe_write reactor_safe_deliver reactor_safe_register [unfolded post_iff])

text \<open>What a partition keeps. From a safe state, whatever event a running partition handles, on the
  socket, from its timers and wakeups, or a call of the application, if the handler returns, no
  libevent event was used after its release or without having been created, every request in its
  buffers carries its own api key as correlation id (so the answer is dispatched to the handler of
  that request), only produce requests are in transit, and topic, partition, type, brokers,
  configuration and event flags are what they were.\<close>

lemma partition_handle_safe:
  assumes "fresh_events E" and "partition_ok p0 p" and "reactor_safe r w"
    and "fold_outcome (partition_handle E) events (p, r, w) = ret (p', r', w')"
  shows "partition_ok p0 p' \<and> reactor_safe r' w'"
proof -
  have "post (safe.ok E p0) (fold_outcome (partition_handle E) events (p, r, w))"
    by (rule post_fold) (use assms in \<open>simp_all add: safe.ok_iff events_safe_def safe.partition_handle_ok\<close>)
  with assms(1,4) show ?thesis by (simp add: safe.ok_iff events_safe_def)
qed

definition sample_partition :: KafkaPartition where
  "sample_partition = (KafkaPartition_fields PRODUCER_P (str ''logs'') 3 [] KafkaBroker_new defaultInit)
     \<lparr>m_produceMsgQEvent := \<lparr>m_iWakeupFd = 9, wk_event_flags = AEVENTIN, m_funOnWakeup = True\<rparr>,
      m_produceEvent := \<lparr>m_iWakeupFd = 10, wk_event_flags = AEVENTIN, m_funOnWakeup = True\<rparr>\<rparr>"

lemma createProduceRequest_shape:
  "\<exists>bufs. createProduceRequest E (p, r, w) =
     register E (m_iSockFd p) (m_iEventFlags p) True (p\<lparr>m_qMsgs := [], m_dqWriteBuffers := bufs\<rparr>, r, w)"
  by (auto simp: createProduceRequest_def Let_def selectFd_def getEventFlags_def split: prod.splits)

lemma sample_produces:
  "\<exists>p' r' w'. fold_outcome (partition_handle sample_env) [Call_produce [1], Produce_event 1]
     (sample_partition, LibeventReactor_of True, sample_world) = ret (p', r', w') \<and> m_qMsgs p' = []"
proof -
  let ?p = "sample_partition\<lparr>m_qMsgs := [[1]], m_iMsgCnt := 1\<rparr>"
  let ?w = "act (Write 9 (mem_store 8 (1 :: 64 word))) (next_call sample_world)"
  have p: "m_iMsgCnt sample_partition = 0" "pBatchNumMsgs (m_config sample_partition) = 1000"
      "m_produceMsgQEvent sample_partition = \<lparr>m_iWakeupFd = 9, wk_event_flags = AEVENTIN, m_funOnWakeup = True\<rparr>"
      "m_produceEvent sample_partition = \<lparr>m_iWakeupFd = 10, wk_event_flags = AEVENTIN, m_funOnWakeup = True\<rparr>"
      "m_qMsgs sample_partition = []"
    by (simp_all add: sample_partition_def KafkaPartition_fields_def defaultInit_def)
  have w: "sys_write sample_env t = Written 1000" "sys_read sample_env t n = Read (replicate n 0)"
      "event_add sample_env t \<noteq> - 1" for t n
    by (simp_all add: sample_env_def)
  have 1: "partition_handle sample_env (Call_produce [1]) (sample_partition, LibeventReactor_of True, sample_world) =
      ret (?p, LibeventReactor_of True, ?w)"
    by (simp add: produce_def enqueue_def p wakeup_msgq_def WakeupEventSource_wakeup_def posix_write_def w)
  have 2: "WakeupEventSource_handleEvent sample_env (m_produceEvent ?p) 1 ?w =
      ret (Some (mem_load (replicate 8 0)), next_call ?w)"
    by (simp add: WakeupEventSource_handleEvent_def AEVENTIN_def p)
      (subst read_wakeups.simps, simp add: posix_read_def w ret_def)
  have 3: "\<exists>r' w'. register sample_env fd fl True (q, r, x) = ret (q, r', w')" for fd fl q r x
    using w(3) by (auto simp: register_def registerFdCallback_def assert_that_def Let_def
        split: option.splits prod.splits)
  have "\<exists>p' r' w'. createProduceRequest sample_env (?p, LibeventReactor_of True, next_call ?w) = ret (p', r', w') \<and>
      m_qMsgs p' = []"
    using createProduceRequest_shape [of sample_env ?p "LibeventReactor_of True" "next_call ?w"]
    by (elim exE) (use 3 in \<open>fastforce\<close>)
  with 1 2 show ?thesis by (auto simp: after_wakeup_def)
qed

end
