(* ===== verification/Dispatch.thy ===== *)
theory Dispatch
  imports Connection
begin

text \<open>
  A partition and its broker: frames are dispatched by their correlation id, a lost connection is
  replaced by one to another broker, the metadata say whom to talk to, the offset response and the
  fetch request agree on where to read.
\<close>

section \<open>Frames\<close>

lemma ntohl_be_bytes: "ntohl (mem_load (be_bytes 4 x)) = x"
proof -
  have "mem_store 4 (mem_load (be_bytes 4 x) :: Int32) = be_bytes 4 x"
    using mem_store_load [of "be_bytes 4 x", where 'a = 32] by simp
  then show ?thesis by (simp add: ntohl_def be_bytes_def mem_load_store take_bit_word_eq_self)
qed

lemma readData_full:
  assumes "0 \<le> fd" and "0 < n" and "n < 2 ^ 31" and "sys_read E (tick w) n = Read bs" and "length bs = n"
  shows "readData E fd n w = ((int n, None, bs), next_call w)"
proof -
  have "readData_loop E fd n [] w = ((Read_all, bs), next_call w)"
    using assms by (subst readData_loop.simps) (auto simp: posix_read_def readData_loop.simps [of _ _ 0])
  then show ?thesis using assms(3) sint_of_nat_less [of n, where 'a = 32] by (simp add: readData_def)
qed

lemma frame_size_word: "n < 2 ^ 31 \<Longrightarrow> unat (of_nat n :: Int32) = n"
  by (simp add: unsigned_of_nat take_bit_nat_eq_self)

lemma onReadReady_frame:
  assumes "body = be_bytes 4 (corr :: Int32) @ payload" and "length body < 2 ^ 31"
    and "readData E (m_iSockFd p) 4 (sleep_ms 1 w) = ((4, None, be_bytes 4 (of_nat (length body) :: Int32)), w1)"
    and "readData E (m_iSockFd p) (length body) w1 = ((int (length body), None, body), w2)"
  shows "onReadReady E (p, r, w) =
    (if corr = - 1 then stop Assert_failed
     else if corr = 0 then handleProduceResponse E (open_istream body) (p, r, w2)
     else if corr = 1 then handleFetchResponse E (open_istream body) (p, r, w2)
     else if corr = 3 then handleMetadataResponse E (open_istream body) (p, r, w2)
     else if corr = 2 then handleOffsetResponse E (open_istream body) (p, r, w2)
     else ret (p, r, w2))"
proof -
  have "4 \<le> length body" "take 4 body = be_bytes 4 corr" using assms(1) by simp_all
  moreover from this have "body \<noteq> []" by auto
  ultimately show ?thesis
    using assms(2-4)
    by (simp add: onReadReady_def Let_def ntohl_be_bytes frame_size_word api_keys del: One_nat_def)
qed

text \<open>C18: dispatch. When the bytes of one frame arrive, in whatever pieces, the handler called is the one
  of the request whose api key is the correlation id of the frame, with exactly the bytes of the
  frame behind its size; a frame with another correlation id is ignored, and with -1 the process
  ends.\<close>

theorem onReadReady_dispatch:
  assumes "body = be_bytes 4 (corr :: Int32) @ payload" and "length body < 2 ^ 31"
    and "readData E (m_iSockFd p) 4 (sleep_ms 1 w) = ((4, None, be_bytes 4 (of_nat (length body) :: Int32)), w1)"
    and "readData E (m_iSockFd p) (length body) w1 = ((int (length body), None, body), w2)"
  shows "onReadReady E (p, r, w) =
    (if corr = - 1 then stop Assert_failed
     else if corr = 0 then handleProduceResponse E (open_istream body) (p, r, w2)
     else if corr = 1 then handleFetchResponse E (open_istream body) (p, r, w2)
     else if corr = 3 then handleMetadataResponse E (open_istream body) (p, r, w2)
     else if corr = 2 then handleOffsetResponse E (open_istream body) (p, r, w2)
     else ret (p, r, w2))"
  using assms by (rule onReadReady_frame)

section \<open>Losing the connection\<close>

lemma other_broker_eq:
  "other_broker p =
   (case filter (\<lambda>b. m_iId b \<noteq> m_iId (m_sLeader p)) (m_sBrokers p) of [] \<Rightarrow> stop Undefined | b # _ \<Rightarrow> ret b)"
proof -
  have "(if find_if P bs < length bs then ret (bs ! find_if P bs) else stop Undefined) =
      (case filter P bs of [] \<Rightarrow> stop Undefined | b # _ \<Rightarrow> ret b)" for P and bs :: "KafkaBroker list"
    by (induction bs) auto
  then show ?thesis by (simp add: other_broker_def Let_def)
qed

text \<open>C20: a lost connection. When the broker closes the connection while a frame is awaited, the
  partition gives up the socket, makes the first broker that is not its leader the leader and
  connects to it; connected, it asks it for the metadata and, as a consumer, wakes up its fetching;
  when it cannot connect, it ends the event loop. With no other broker it reads past the end of the
  vector of brokers: a client of a single broker does not survive a restart of that broker.\<close>

theorem connection_lost:
  assumes "readData E (m_iSockFd p) 4 (sleep_ms 1 w) = ((0, None, data), w1)"
  shows "onReadReady E (p, r, w) =
    (case filter (\<lambda>b. m_iId b \<noteq> m_iId (m_sLeader p)) (m_sBrokers p) of
       [] \<Rightarrow> stop Undefined
     | b # _ \<Rightarrow>
         let (r1, w2) = unregisterFdCallback E (m_iSockFd p) r w1 in
         bnd (connectLeader E (p\<lparr>m_iSockFd := - 1, m_sLeader := b\<rparr>, r1, posix_close (m_iSockFd p) w2))
           (\<lambda>(connected, s).
              if connected
              then bnd (createMetadataRequest E s) (\<lambda>s. bnd (onWriteReady E s) (wakeup_fetch E))
              else (case s of (p, r, w) \<Rightarrow> ret (p, r, act Loopexit w))))"
proof -
  obtain r1 w2 where u: "unregisterFdCallback E (m_iSockFd p) r w1 = (r1, w2)" by fastforce
  show ?thesis
    using assms u
    by (auto simp: onReadReady_def readError_def reconnect_def disconnect_def other_broker_eq
        LibeventReactor_shutdown_def bnd_assoc Let_def split: list.splits prod.splits simp del: One_nat_def
        intro!: arg_cong2 [where f = bnd])
qed

theorem onReadReady_dispatch_witness:
  "let E = sample_env\<lparr>sys_read := \<lambda>t n. Read (if t = 0 then be_bytes 4 (5 :: Int32) else be_bytes 4 (42 :: Int32) @ [0])\<rparr>;
       w' = next_call (next_call (sleep_ms 1 sample_world))
   in onReadReady E (sample_partition\<lparr>m_iSockFd := 5\<rparr>, LibeventReactor_new, sample_world) =
      ret (sample_partition\<lparr>m_iSockFd := 5\<rparr>, LibeventReactor_new, w')"
proof -
  let ?body = "be_bytes 4 (42 :: Int32) @ [0]"
  let ?E = "sample_env\<lparr>sys_read := \<lambda>t n. Read (if t = 0 then be_bytes 4 (5 :: Int32) else ?body)\<rparr>"
  let ?w = "sleep_ms 1 sample_world" and ?p = "sample_partition\<lparr>m_iSockFd := 5\<rparr>"
  have t: "tick ?w = 0" by (simp add: sleep_ms_def sample_world_def)
  have 1: "readData ?E (m_iSockFd ?p) 4 ?w = ((4, None, be_bytes 4 (of_nat (length ?body) :: Int32)), next_call ?w)"
    using readData_full [of 5 4 ?E ?w "be_bytes 4 (5 :: Int32)"] t by simp
  have 2: "readData ?E (m_iSockFd ?p) (length ?body) (next_call ?w) =
      ((int (length ?body), None, ?body), next_call (next_call ?w))"
    using readData_full [of 5 5 ?E "next_call ?w" ?body] t by simp
  show ?thesis
    using onReadReady_dispatch [OF refl _ 1 2] by simp
qed

theorem connection_lost_witness:
  "onReadReady (sample_env\<lparr>sys_read := \<lambda>t n. Read []\<rparr>)
     (sample_partition\<lparr>m_iSockFd := 5\<rparr>, LibeventReactor_new, sample_world) = stop Undefined"
proof -
  let ?E = "sample_env\<lparr>sys_read := \<lambda>t n. Read []\<rparr>"
  have "readData ?E 5 4 (sleep_ms 1 sample_world) = ((0, None, []), next_call (sleep_ms 1 sample_world))"
    by (simp add: readData_def readData_loop.simps posix_read_def)
  moreover have "m_sBrokers sample_partition = []"
    by (simp add: sample_partition_def KafkaPartition_fields_def)
  ultimately show ?thesis
    using connection_lost [of ?E "sample_partition\<lparr>m_iSockFd := 5\<rparr>" sample_world "[]"] by simp
qed

section \<open>Following the leader\<close>

lemma port_in_16_bits:
  assumes "0 \<le> sint q" and "sint q < 65536"
  shows "(q :: Int32) = scast (ucast q :: Int16) \<longleftrightarrow> sint q < 32768"
proof -
  let ?v = "ucast q :: Int16"
  have b: "- 32768 \<le> sint ?v" "sint ?v < 32768" using sint_ge [of ?v] sint_lt [of ?v] by simp_all
  then have "sint (scast ?v :: Int32) = sint ?v"
    by (simp add: signed_scast_eq signed_take_bit_int_eq_self)
  then have e: "q = scast ?v \<longleftrightarrow> sint q = sint ?v"
    using word_eq_iff_signed [where ?'a = int, of q "scast ?v"] by simp
  have "uint q = take_bit 32 (sint q)" using uint_sint [of q] by simp
  also have "\<dots> = sint q" using assms by (intro take_bit_int_eq_self) simp_all
  finally have u: "uint q = sint q" .
  have "sint ?v = signed_take_bit 15 (uint q)" by (subst signed_ucast_eq) simp
  then have v: "sint ?v = signed_take_bit 15 (sint q)" by (simp only: u)
  have "sint ?v = sint q" if "sint q < 32768"
    unfolding v using assms(1) that by (intro signed_take_bit_int_eq_self) simp_all
  with b(2) show ?thesis unfolding e by metis
qed

text \<open>C33: ports are kept in 16 bits with a sign. A partition that is connected to its leader, as the
  metadata describe it, stays connected when a metadata answer confirms that leader on a port below
  32768. On a higher port the stored port is negative and never equals the port in the answer, so
  every metadata answer, one per refresh interval, makes the partition drop its connection and
  connect again to the same leader.\<close>

theorem followLeader_same_leader:
  assumes "PartitionLeader (m_strTopic p) (m_iPartition p) rsp = Some ldr"
    and "gethostbyname E (tick w) (c_string (host ldr)) = Some (ip # ips)"
    and "m_sLeader p = \<lparr>m_iId = node_id ldr, m_strHost = host ldr, m_strIp = c_string ip, m_iPort = ucast (port ldr)\<rparr>"
    and "0 \<le> sint (port ldr)" and "sint (port ldr) < 65536"
  shows "followLeader E rsp (p, r, w) =
    (if sint (port ldr) < 32768 then ret (p, r, next_call w)
     else let (p, r, w) = disconnect E (p, r, next_call w)
       in bnd (connectLeader E (p, r, w)) (\<lambda>(connected, p, r, w).
            wakeup_fetch E (p, r, if \<not> connected then LibeventReactor_shutdown r w else w)))"
proof -
  have eq: "port ldr = scast (ucast (port ldr) :: Int16) \<longleftrightarrow> sint (port ldr) < 32768"
    using assms(4,5) by (rule port_in_16_bits)
  obtain p1 r1 w1 where d: "disconnect E (p, r, next_call w) = (p1, r1, w1)" by (cases "disconnect E (p, r, next_call w)")
  then have "m_sLeader p1 = m_sLeader p" by (auto simp: disconnect_def Let_def split: prod.splits)
  then have "p1\<lparr>m_sLeader := m_sLeader p\<rparr> = p1" by simp
  with assms(1-3) eq d show ?thesis
    by (simp add: followLeader_def hostnameToIp_def Let_def)
qed

theorem followLeader_same_leader_witness:
  "let ldr = \<lparr>node_id = 1, host = str ''kafka'', port = 40000\<rparr>;
       rsp = \<lparr>response_correlation_id = 3, brokers = [ldr], mr_topics =
         [\<lparr>topic_props = \<lparr>mt_error_code = 0\<rparr>, topic_name = str ''logs'', partitions =
           [\<lparr>partition_props = \<lparr>mp_error_code = 0, leader = 1, replicas = [], isr = []\<rparr>, partition_id = 3\<rparr>]\<rparr>]\<rparr>;
       p = sample_partition\<lparr>m_iSockFd := 5, m_sLeader := \<lparr>m_iId = 1, m_strHost = str ''kafka'', m_strIp = str ''kafka'',
         m_iPort = 40000\<rparr>\<rparr>
   in returns (\<lambda>(p', r', w'). trace w' = [Close 5, Connect 5 (str ''kafka'') 40000])
        (followLeader sample_env rsp (p, LibeventReactor_new, sample_world))"
proof -
  define ldr where "ldr = \<lparr>node_id = (1 :: Int32), host = str ''kafka'', port = 40000\<rparr>"
  define rsp where "rsp = \<lparr>response_correlation_id = 3, brokers = [ldr], mr_topics =
         [\<lparr>topic_props = \<lparr>mt_error_code = 0\<rparr>, topic_name = str ''logs'', partitions =
           [\<lparr>partition_props = \<lparr>mp_error_code = 0, leader = 1, replicas = [], isr = []\<rparr>, partition_id = 3\<rparr>]\<rparr>]\<rparr>"
  define p where "p = sample_partition\<lparr>m_iSockFd := 5, m_sLeader := \<lparr>m_iId = 1, m_strHost = str ''kafka'', m_strIp = str ''kafka'',
         m_iPort = 40000\<rparr>\<rparr>"
  have 1: "PartitionLeader (m_strTopic p) (m_iPartition p) rsp = Some ldr"
    by (simp add: PartitionLeader_def p_def sample_partition_def KafkaPartition_fields_def rsp_def ldr_def
        FindTopicByName_const_def FindTopicPartitionByNumber_const_def IsTopicWithName_def IsTopicPartition_def
        FindBrokerById_def IsBrokerWithId_def kMetadataLeaderUndecided_def)
  have k: "c_string (str ''kafka'') = str ''kafka''" by (simp add: c_string_def str_def)
  have 2: "gethostbyname sample_env (tick sample_world) (c_string (host ldr)) = Some (str ''kafka'' # [])"
    by (simp add: sample_env_def ldr_def k)
  have "followLeader sample_env rsp (p, LibeventReactor_new, sample_world) =
     (let (p, r, w) = disconnect sample_env (p, LibeventReactor_new, next_call sample_world)
       in bnd (connectLeader sample_env (p, r, w)) (\<lambda>(connected, p, r, w).
            wakeup_fetch sample_env (p, r, if \<not> connected then LibeventReactor_shutdown r w else w)))"
    using followLeader_same_leader [OF 1 2, of LibeventReactor_new] by (simp add: p_def ldr_def k)
  then have "returns (\<lambda>(p', r', w'). trace w' = [Close 5, Connect 5 (str ''kafka'') 40000])
        (followLeader sample_env rsp (p, LibeventReactor_new, sample_world))"
    by (simp add: disconnect_def p_def unregister_absent LibeventReactor_new_def connectLeader_def connectServer_def
        posix_connect_def sample_env_def k register_def registerFdCallback_def wakeup_fetch_def sample_partition_def
        KafkaPartition_fields_def posix_close_def sample_world_def)
  then show ?thesis by (simp add: rsp_def ldr_def p_def)
qed

section \<open>Where to read\<close>

text \<open>C31: the start offset. From the answer to its offset request the partition takes the first
  offset: always when it starts at the end, and otherwise only when its own next offset is below it,
  which is when the log no longer holds that offset. A next offset above the answered start is
  kept, also when it is out of range because it lies behind the end of the log, for which the description of
  the configuration promises the oldest offset. An answer without offsets changes nothing.\<close>

theorem handleOffsetResponse_start:
  assumes "topic_ok offset_partition_ok (t :: (OffsetResponseProps, unit) TopicPartitionBlock)"
    and "topic_name t = m_strTopic p" and "partitions t = [q]" and "partition_id q = m_iPartition p"
    and "or_error_code (partition_props q) = 0"
    and "bytes = be_bytes 4 (corr :: Int32) @ wire_array (wire_topic wire_offset_partition) [t]"
  shows "handleOffsetResponse E (open_istream bytes) (p, r, w) =
    ret (p\<lparr>m_iNextFetchOffset :=
      (case offsets (partition_props q) of
         [] \<Rightarrow> m_iNextFetchOffset p
       | start # _ \<Rightarrow> if cStartOffset (m_config p) = FROM_END \<or> sint (m_iNextFetchOffset p) < sint start
                     then start else m_iNextFetchOffset p)\<rparr>, r, w)"
proof -
  have "array_ok (topic_ok offset_partition_ok) [t]" using assms(1) by (simp add: array_ok_def)
  then obtain is' where rd: "ReadResponse ReadResponseMessage_Offset (open_istream bytes)
      \<lparr>response_correlation_id = 0, or_topics = []\<rparr> no_error =
      Inr (\<lparr>response_correlation_id = corr, or_topics = [t]\<rparr>, no_error, is')"
    using ReadResponse_Offset_written [of "[t]" corr "\<lparr>response_correlation_id = 0, or_topics = []\<rparr>"] assms(3,5,6)
    by auto
  have "TopicPartitionOffset (m_strTopic p) (m_iPartition p) \<lparr>response_correlation_id = corr, or_topics = [t]\<rparr> = Some q"
    using assms(2-4) by (simp add: TopicPartitionOffset_def FindTopicByName_const_def
        FindTopicPartitionByNumber_const_def IsTopicWithName_def IsTopicPartition_def Let_def)
  then show ?thesis
    by (simp add: handleOffsetResponse_def rd takeOffset_def split: list.splits)
qed

theorem handleOffsetResponse_start_witness:
  "handleOffsetResponse sample_env (open_istream (be_bytes 4 (2 :: Int32) @
       wire_array (wire_topic wire_offset_partition) [\<lparr>topic_props = (), topic_name = str ''logs'', partitions =
         [\<lparr>partition_props = \<lparr>or_error_code = 0, offsets = [17]\<rparr>, partition_id = 3\<rparr>]\<rparr>]))
     (sample_partition, LibeventReactor_new, sample_world) =
   ret (sample_partition\<lparr>m_iNextFetchOffset := 17\<rparr>, LibeventReactor_new, sample_world)"
  by (subst handleOffsetResponse_start [where q = "\<lparr>partition_props = \<lparr>or_error_code = 0, offsets = [17]\<rparr>,
        partition_id = 3\<rparr>", OF _ _ _ _ _ refl])
    (simp_all add: topic_ok_def array_ok_def short_string_def str_def offset_partition_ok_def sample_partition_def
      KafkaPartition_fields_def defaultInit_def)

text \<open>C32: what a fetch asks for. Unless fetching is paused, in which case nothing happens, one fetch
  request is buffered behind the others: a frame with api key and correlation id 1 that asks for the
  topic-partition of the partition and nothing else, from its next offset on, with the configured
  limits. So the loop of wakeup, fetch and response of a paused consumer stands still, and a resumed
  one goes on where it stopped.\<close>

theorem createFetchRequest_asks:
  "createFetchRequest E (p, r, w) =
    (if m_bFetchPaused p then ret (p, r, w)
     else let rq = \<lparr>correlation_id = 1, request_client_id = [], max_wait_time = cMaxFetchWaitTimeMs (m_config p),
              min_bytes = cMinFetchBytes (m_config p),
              fetch_topics = [\<lparr>topic_props = (), topic_name = m_strTopic p,
                partitions = [\<lparr>partition_props = \<lparr>fetch_offset = m_iNextFetchOffset p,
                  max_bytes = cMaxFetchBytes (m_config p)\<rparr>, partition_id = m_iPartition p\<rparr>]\<rparr>]\<rparr>;
            frame = framed (request_header 1 1 (clientId (m_config p)) @ WriteRequestMessage_Fetch rq [])
       in register E (m_iSockFd p) (m_iEventFlags p) True
            (p\<lparr>m_dqWriteBuffers := m_dqWriteBuffers p @ [(1, frame)]\<rparr>, r, w))"
proof -
  have "FetchTopic t i n b (set_min_bytes m (set_max_wait_time x (set_correlation_id 1 FetchRequest_new))) =
      \<lparr>correlation_id = 1, request_client_id = [], max_wait_time = x, min_bytes = m,
       fetch_topics = [\<lparr>topic_props = (), topic_name = t,
         partitions = [\<lparr>partition_props = \<lparr>fetch_offset = n, max_bytes = b\<rparr>, partition_id = i\<rparr>]\<rparr>]\<rparr>"
    for t i n b m x
    by (simp add: FetchTopic_def set_min_bytes_def set_max_wait_time_def set_correlation_id_def FetchRequest_new_def
        with_topic_partition_def empty_topic_def fetch_partition_def FindTopicByName_def FindTopicPartitionByNumber_def)
  then show ?thesis
    unfolding createFetchRequest_def fetch_request.write_request_frame fetch_request.frame_def
    by (simp add: Let_def selectFd_def getEventFlags_def framed_def request_header_def api_keys request_api_keys)
qed

end
