(* ===== verification/Consumer_Run.thy ===== *)
theory Consumer_Run
  imports Consumer Dispatch
begin

text \<open>
  The life of a consumer against the log of its broker. Between two answers with messages nothing
  moves the next offset and nothing is delivered (\<open>stays\<close>, which satisfies the laws of \<open>handlers\<close>); an
  answer moves the offset over a range of the log and delivers exactly that range.
\<close>

section \<open>What is delivered\<close>

fun deliveries :: "action list \<Rightarrow> String list" where
  "deliveries [] = []"
| "deliveries (On_received_data ms # tr) = ms @ deliveries tr"
| "deliveries (_ # tr) = deliveries tr"

lemma deliveries_append: "deliveries (tr @ tr') = deliveries tr @ deliveries tr'"
  by (induction tr rule: deliveries.induct) simp_all

lemma deliveries_quiet: "list_all quiet tr \<Longrightarrow> deliveries tr = []"
  by (induction tr rule: deliveries.induct) simp_all

lemma deliveries_events: "list_all event_action tr \<Longrightarrow> deliveries tr = []"
  by (induction tr rule: deliveries.induct) simp_all

definition stays :: "KafkaPartition \<Rightarrow> Int64 \<Rightarrow> String list \<Rightarrow> pstate \<Rightarrow> bool" where
  "stays p0 next ds s \<longleftrightarrow>
     (case s of (p, r, w) \<Rightarrow>
        m_config p = m_config p0 \<and> m_strTopic p = m_strTopic p0 \<and> m_iPartition p = m_iPartition p0 \<and>
        onReceivedData p \<and> m_iNextFetchOffset p = next \<and> deliveries (trace w) = ds)"

interpretation still: handlers E "stays p0 next ds" for E p0 "next" ds
proof
  show "stays p0 next ds (p, r, w) \<Longrightarrow> post (\<lambda>(r', w'). stays p0 next ds (p, r', w'))
      (registerFdCallback E fd flags oneshot modify r w)" for p r w fd flags oneshot modify
    by (rule post_mono [OF register_acts]) (auto simp: stays_def deliveries_append deliveries_events)
  show "stays p0 next ds (p, r, w) \<Longrightarrow> quietly w w' \<Longrightarrow> stays p0 next ds (p, r, w')" for p r w w'
    by (auto simp: stays_def quietly_def deliveries_append deliveries_quiet)
  show "stays p0 next ds (p, r, w) \<Longrightarrow> m_dqWriteBuffers p = req # rest \<Longrightarrow>
      posix_write E (m_iSockFd p) (snd req) w = (res, w') \<Longrightarrow> stays p0 next ds (sent req rest p, r, w')"
    for p r w req rest res w'
    by (auto simp: stays_def sent_def posix_write_def deliveries_append Let_def split: if_splits write_result.splits)
qed (auto simp: stays_def same_core_def deliveries_append deliveries_events dest!: unregister_acts)

section \<open>The answers of the broker\<close>

text \<open>An answer to a fetch request: an error, or messages of a range of the log from the offset asked for
  or below. An answer to an offset request that does not move the next offset.\<close>

definition serves :: "MessageAndOffset list \<Rightarrow> Int64 \<Rightarrow> istream \<Rightarrow> bool" where
  "serves plog next is \<longleftrightarrow>
     (case ReadResponse ReadResponseMessage_Fetch is \<lparr>response_correlation_id = 0, fr_topics = []\<rparr> no_error of
        Inl e \<Rightarrow> True
      | Inr (rsp, ec, _) \<Rightarrow> is_error ec \<or> (\<exists>lo hi. lo \<le> sint next \<and> all_messages rsp = log_range plog lo hi))"

definition no_reset :: "KafkaPartition \<Rightarrow> Int64 \<Rightarrow> istream \<Rightarrow> bool" where
  "no_reset p next is \<longleftrightarrow>
     (case ReadResponse ReadResponseMessage_Offset is \<lparr>response_correlation_id = 0, or_topics = []\<rparr> no_error of
        Inl e \<Rightarrow> True
      | Inr (rsp, ec, _) \<Rightarrow>
          (case TopicPartitionOffset (m_strTopic p) (m_iPartition p) rsp of
             None \<Rightarrow> True
           | Some q \<Rightarrow>
               (case offsets (partition_props q) of
                  [] \<Rightarrow> True
                | start # _ \<Rightarrow> cStartOffset (m_config p) \<noteq> FROM_END \<and> sint start \<le> sint next)))"

text \<open>The messages of the log between two offsets have been delivered.\<close>

definition moved :: "MessageAndOffset list \<Rightarrow> KafkaPartition \<Rightarrow> Int64 \<Rightarrow> String list \<Rightarrow> pstate \<Rightarrow> bool" where
  "moved plog p0 next ds s \<longleftrightarrow>
     (\<exists>next'. sint next \<le> sint next' \<and>
        stays p0 next' (ds @ List.map_filter msg_value (log_range plog (sint next) (sint next'))) s)"

lemma log_range_empty: "log_range plog n n = []"
  by (auto simp: log_range_def filter_empty_conv)

lemma stays_moved: "stays p0 next ds s \<Longrightarrow> moved plog p0 next ds s"
  unfolding moved_def by (intro exI [of _ "next"]) (simp add: log_range_empty map_filter_def)

lemma handleFetchResponse_moves:
  assumes "in_order plog" and "serves plog next is" and "stays p0 next ds s"
  shows "post (moved plog p0 next ds) (handleFetchResponse E is s)"
proof -
  obtain p r w where p: "s = (p, r, w)" by (cases s)
  have wake: "post (moved plog p0 next ds) (wakeup_fetch E s')" if "moved plog p0 next ds s'" for s'
    using that still.wakeup_fetch_keeps unfolding moved_def post_iff by meson
  have err: "post (moved plog p0 next ds) (handleKafkaError E ec s)" for ec
    by (rule post_mono [OF still.handleKafkaError_keeps [OF assms(3)]]) (rule stays_moved)
  have loop: "moved plog p0 next ds (p\<lparr>m_iNextFetchOffset := n\<rparr>, r, w')"
    if "lo \<le> sint next" "fetch_loop (log_range plog lo hi) next [] = ret (n, vs)" "deliveries (trace w') = ds @ vs" for lo hi n vs w'
    using fetch_loop_range [OF assms(1) that(1,2)] assms(3) that(3)
    by (auto simp: moved_def stays_def p)
  from assms(3) have "deliveries (trace (act (On_received_data vs) w)) = ds @ vs" "deliveries (trace w) = ds @ []" for vs
    by (simp_all add: p stays_def deliveries_append)
  note loop = loop [OF _ _ this(1)] loop [OF _ _ this(2)]
  from assms(3) have "m_iNextFetchOffset p = next" "onReceivedData p" by (simp_all add: p stays_def)
  with loop have "post (moved plog p0 next ds) (bnd (fetch_loop (log_range plog lo hi) (m_iNextFetchOffset p) [])
      (\<lambda>(next, recvMsgs). let p = p\<lparr>m_iNextFetchOffset := next\<rparr>
       in if recvMsgs \<noteq> [] \<and> onReceivedData p then ret (p, r, act (On_received_data recvMsgs) w) else ret (p, r, w)))"
    if "lo \<le> sint next" for lo hi
    using that by (auto simp: Let_def post_iff bnd_eq_ret split: if_splits)
  with wake err assms(2) show ?thesis
    unfolding handleFetchResponse_def serves_def
    by (auto simp: p iterate_all intro!: post_bndI [of "moved plog p0 next ds"] split: sum.splits)
qed

lemma handleOffsetResponse_stays:
  assumes "no_reset p0 next is" and "stays p0 next ds s"
  shows "post (stays p0 next ds) (handleOffsetResponse E is s)"
proof -
  have "post (stays p0 next ds) (takeOffset rsp s')"
    if "ReadResponse ReadResponseMessage_Offset is \<lparr>response_correlation_id = 0, or_topics = []\<rparr> no_error = Inr (rsp, ec, is')"
      "stays p0 next ds s'" for rsp ec is' s'
    using assms(1) that by (cases s') (auto simp: no_reset_def takeOffset_def stays_def split: option.splits list.splits)
  with assms(2) show ?thesis
    unfolding handleOffsetResponse_def
    by (cases s) (auto intro!: post_bndI [OF still.handleKafkaError_keeps] split: sum.splits)
qed

text \<open>A consumer has no produce requests to be answered: this is the same handler all the same.\<close>

lemma handleProduceResponse_stays:
  "stays p0 next ds s \<Longrightarrow> post (stays p0 next ds) (handleProduceResponse E is s)"
  by (erule still.handleProduceResponse_post)
    (auto simp: stays_def quietly_def deliveries_append deliveries_quiet)

section \<open>Events\<close>

text \<open>The frame that reading from the socket would give: its correlation id and its bytes.\<close>

definition incoming :: "env \<Rightarrow> pstate \<Rightarrow> (Int32 \<times> istream) option" where
  "incoming E s =
     (case s of (p, r, w) \<Rightarrow>
        let ((res, err, data), w) = readData E (m_iSockFd p) 4 (sleep_ms 1 w);
            n = unat (ntohl (mem_load data));
            ((res', err', body), w) = readData E (m_iSockFd p) n w
        in if res \<le> 0 \<or> res' \<le> 0 \<or> n < 4 then None
           else Some (ntohl (mem_load (take 4 body)), open_istream body))"

definition reading :: "partition_event \<Rightarrow> pstate \<Rightarrow> bool" where
  "reading ev s \<longleftrightarrow>
     (case ev of Socket_event fd event \<Rightarrow> fd = selectFd (fst s) \<and> event AND ucast AEVENTIN \<noteq> 0 | _ \<Rightarrow> False)"

definition honest :: "env \<Rightarrow> MessageAndOffset list \<Rightarrow> partition_event \<Rightarrow> pstate \<Rightarrow> bool" where
  "honest E plog ev s \<longleftrightarrow>
     (reading ev s \<longrightarrow>
        (case incoming E s of
           None \<Rightarrow> True
         | Some (corr, is) \<Rightarrow>
             (corr = kApiKeyFetchRequest \<longrightarrow> serves plog (m_iNextFetchOffset (fst s)) is) \<and>
             (corr = kApiKeyOffsetRequest \<longrightarrow> no_reset (fst s) (m_iNextFetchOffset (fst s)) is)))"

text \<open>The broker is honest in every state that a sequence of events goes through.\<close>

fun honest_run :: "env \<Rightarrow> MessageAndOffset list \<Rightarrow> partition_event list \<Rightarrow> pstate \<Rightarrow> bool" where
  "honest_run E plog [] s \<longleftrightarrow> True"
| "honest_run E plog (ev # evs) s \<longleftrightarrow>
     honest E plog ev s \<and> post (honest_run E plog evs) (partition_handle E ev s)"

lemma no_reset_same: "stays p0 next ds (p, r, w) \<Longrightarrow> no_reset p next is = no_reset p0 next is"
proof -
  assume "stays p0 next ds (p, r, w)"
  then have "m_config p = m_config p0" "m_strTopic p = m_strTopic p0" "m_iPartition p = m_iPartition p0"
    by (simp_all add: stays_def)
  then show ?thesis unfolding no_reset_def by metis
qed

lemma onReadReady_moves:
  assumes "in_order plog" and s: "stays p0 next ds s"
    and h: "\<And>corr is. incoming E s = Some (corr, is) \<Longrightarrow>
      (corr = kApiKeyFetchRequest \<longrightarrow> serves plog next is) \<and> (corr = kApiKeyOffsetRequest \<longrightarrow> no_reset (fst s) next is)"
  shows "post (moved plog p0 next ds) (onReadReady E s)"
proof -
  obtain p r w where p: "s = (p, r, w)" by (cases s)
  obtain res err data w1 where r1: "readData E (m_iSockFd p) 4 (sleep_ms 1 w) = ((res, err, data), w1)"
    by (metis prod_cases3 surj_pair)
  have w1: "quietly w w1"
    using quietly_readData [OF r1] quietly_trans [of w "sleep_ms 1 w" w1] by simp
  let ?n = "unat (ntohl (mem_load data))"
  obtain res2 err2 body w2 where r2: "readData E (m_iSockFd p) ?n w1 = ((res2, err2, body), w2)"
    by (metis prod_cases3 surj_pair)
  have "quietly w w2" using w1 quietly_readData [OF r2] by (rule quietly_trans)
  then have st: "stays p0 next ds (p, r, w1)" "stays p0 next ds (p, r, w2)" using s w1 by (auto simp: p intro: still.K_quiet)
  note moved = still.readError_keeps [THEN post_mono, OF _ stays_moved]
    handleProduceResponse_stays [THEN post_mono, OF _ stays_moved]
    still.handleMetadataResponse_keeps [THEN post_mono, OF _ stays_moved]
    handleOffsetResponse_stays [THEN post_mono, OF _ _ stays_moved] handleFetchResponse_moves [OF assms(1) _ st(2)]
  have i: "incoming E s = Some (ntohl (mem_load (take 4 body)), open_istream body)" if "0 < res" "0 < res2" "4 \<le> ?n"
    using that by (simp add: incoming_def p r1 r2 Let_def del: One_nat_def)
  from h [OF i] st moved show ?thesis
    unfolding onReadReady_def
    by (auto simp: p r1 r2 Let_def assert_that_def no_reset_same [OF st(2)] intro: stays_moved simp del: One_nat_def)
qed

lemma enqueue_stays: "stays p0 next ds s \<Longrightarrow> post (stays p0 next ds) (enqueue E m s)"
  by (erule still.enqueue_post) (simp add: stays_def)

lemma produce_stays:
  assumes "stays p0 next ds s"
  shows "post (stays p0 next ds) (bnd (produce E m s) (\<lambda>(_, s). ret s))"
    "post (stays p0 next ds) (bnd (produce_list E ms s) (\<lambda>(_, s). ret s))"
proof -
  have msgq: "post (stays p0 next ds) (bnd (wakeup_msgq E s') (\<lambda>(_, s). ret s))" if "stays p0 next ds s'" for s'
    using that by (auto intro!: post_bndI [OF still.wakeup_msgq_keeps])
  show "post (stays p0 next ds) (bnd (produce E m s) (\<lambda>(_, s). ret s))"
    unfolding produce_def bnd_assoc by (rule post_bndI [OF enqueue_stays [OF assms] msgq])
  show "post (stays p0 next ds) (bnd (produce_list E ms s) (\<lambda>(_, s). ret s))"
    using assms by (auto simp: produce_list_def bnd_assoc
        intro!: post_bndI [OF post_fold [of "stays p0 next ds"]] enqueue_stays msgq)
qed

lemma createProduceRequest_stays: "stays p0 next ds s \<Longrightarrow> post (stays p0 next ds) (createProduceRequest E s)"
  unfolding createProduceRequest_def
  by (cases s) (auto simp: Let_def stays_def intro!: still.register_keeps split: prod.splits)

lemma event_moves:
  assumes "in_order plog" and "honest E plog ev s" and "stays p0 next ds s"
  shows "post (moved plog p0 next ds) (partition_handle E ev s)"
proof (cases "reading ev s")
  case True
  then have e: "partition_handle E ev s = onReadReady E s"
    by (cases s) (auto simp: reading_def handleEvent_def split: partition_event.splits)
  have "m_iNextFetchOffset (fst s) = next" using assms(3) by (cases s) (simp add: stays_def)
  with assms(2) True have h: "(corr = kApiKeyFetchRequest \<longrightarrow> serves plog next is) \<and>
      (corr = kApiKeyOffsetRequest \<longrightarrow> no_reset (fst s) next is)" if "incoming E s = Some (corr, is)" for corr "is"
    using that unfolding honest_def by simp
  show ?thesis unfolding e by (rule onReadReady_moves [OF assms(1,3) h])
next
  case False
  obtain p r w where p: "s = (p, r, w)" by (cases s)
  note s = assms(3) [unfolded p]
  note after = still.after_wakeup_keeps [OF s quietly_handleEvent(1)] still.after_wakeup_keeps [OF s quietly_handleEvent(2)]
  have "post (stays p0 next ds) (partition_handle E ev s)"
    using False s produce_stays [OF s]
    by (cases ev) (simp_all add: p reading_def handleEvent_def still.onWriteReady_keeps still.resumeFetch_keeps
        still.pauseFetch_keeps after createProduceRequest_stays still.createFetchRequest_keeps
        still.createMetadataRequest_keeps still.notifyProduceMsgQ_keeps still.commit_keeps)
  then show ?thesis by (rule post_mono) (rule stays_moved)
qed

lemma moved_trans:
  assumes "in_order plog" and "sint a \<le> sint b"
    and "moved plog p0 b (ds @ List.map_filter msg_value (log_range plog (sint a) (sint b))) s"
  shows "moved plog p0 a ds s"
proof -
  obtain c where c: "sint b \<le> sint c"
      "stays p0 c (ds @ List.map_filter msg_value (log_range plog (sint a) (sint b) @ log_range plog (sint b) (sint c))) s"
    using assms(3) by (auto simp: moved_def map_filter_def)
  with assms(2) log_range_split [OF assms(1,2) c(1)] show ?thesis
    unfolding moved_def by (intro exI [of _ c]) simp
qed

lemma run_moves:
  "in_order plog \<Longrightarrow> honest_run E plog evs s \<Longrightarrow> stays p0 next ds s \<Longrightarrow>
   post (moved plog p0 next ds) (fold_outcome (partition_handle E) evs s)"
proof (induction evs arbitrary: "next" ds s)
  case Nil
  then show ?case by (simp add: stays_moved)
next
  case (Cons ev evs)
  have "post (moved plog p0 next ds) (fold_outcome (partition_handle E) evs s')"
    if "moved plog p0 next ds s'" "honest_run E plog evs s'" for s'
    using that Cons.IH [OF Cons.prems(1) that(2)] moved_trans [OF Cons.prems(1)]
    unfolding moved_def [of plog p0 "next" ds s'] by (fastforce simp: post_iff)
  with event_moves [OF Cons.prems(1) _ Cons.prems(3), of E ev] Cons.prems(2) show ?case
    by (auto simp: post_iff bnd_eq_ret simp del: partition_handle.simps)
qed

text \<open>C4: exactly once, in order. Let the broker have a log in the order of its offsets, and let every answer
  to a fetch request be, as the consumer reads it,
  an error or the messages of a range of the log that starts at or below the offset then asked for
  (also overlapping ranges, and empty ones), and let no answer to an offset request move the start (the
  consumer does not start \<^verbatim>\<open>FROM_END\<close>, and no start above the offset it has reached is answered).
  Then, whatever events a consumer with a callback handles, on its socket (in
  whatever pieces the bytes arrive, also lost connections, changes of the leader and answers that are
  errors), from its timers and wakeups and from the application, the application is given every message
  of the log from the offset the consumer starts at up to the offset it has reached, each once and in
  the order of the log, and nothing else, and the offset does not go back.\<close>

theorem consumer_exactly_once:
  assumes "fold_outcome (partition_handle E) evs (p0, r0, w0) = ret (p, r, w)"
    and "in_order plog" and "honest_run E plog evs (p0, r0, w0)" and "onReceivedData p0"
  shows "sint (m_iNextFetchOffset p0) \<le> sint (m_iNextFetchOffset p) \<and>
    deliveries (trace w) = deliveries (trace w0) @ List.map_filter msg_value
      (filter (\<lambda>m. sint (m_iNextFetchOffset p0) \<le> offset_of m \<and> offset_of m < sint (m_iNextFetchOffset p)) plog)"
proof -
  have "stays p0 (m_iNextFetchOffset p0) (deliveries (trace w0)) (p0, r0, w0)"
    using assms(4) by (simp add: stays_def)
  from run_moves [OF assms(2,3) this] assms(1) show ?thesis
    by (auto simp: moved_def stays_def log_range_def)
qed

section \<open>An arrival\<close>

text \<open>One answer with a message arrives at the sample consumer, its size first and then the rest.\<close>

definition sample_body :: String where
  "sample_body = be_bytes 4 (1 :: Int32) @ wire_array (wire_topic (wire_fetch_partition (\<lambda>_. 7))) [sample_answer]"

definition arrival_env :: env where
  "arrival_env = sample_env\<lparr>sys_read := \<lambda>t n. Read (if t = 0 then be_bytes 4 (of_nat (length sample_body) :: Int32) else sample_body)\<rparr>"

abbreviation arrival_consumer :: KafkaPartition where
  "arrival_consumer \<equiv> sample_consumer\<lparr>m_iSockFd := 5\<rparr>"

lemma arrival_env_simps [simp]:
  "boost_crc32 arrival_env = (\<lambda>_. 7)" "sys_write arrival_env t = Written 1000"
  by (simp_all add: arrival_env_def sample_env_def)

lemma sample_body_length: "0 < length sample_body" "length sample_body < 2 ^ 31"
  by (simp_all add: sample_body_def wire_array_def wire_topic_def wire_fetch_partition_def sample_answer_def
      sample_fetch_partition_def wire_string_def str_def sample_sizes be_bytes_def)

lemma sample_answer_ok: "array_ok (topic_ok (fetch_partition_ok (\<lambda>_. 7))) [sample_answer]"
  by (simp add: array_ok_def topic_ok_def fetch_partition_ok_def sample_answer_def sample_fetch_partition_def
      short_string_def str_def sample_sizes)

lemma sample_answer_messages:
  "[sample_message] = concat (map (\<lambda>t. concat (map (\<lambda>q. messages (partition_props q)) (partitions t))) [sample_answer])"
  "\<forall>t \<in> set [sample_answer]. \<forall>q \<in> set (partitions t). fr_error_code (partition_props q) = 0"
  "in_order [sample_message]"
  "offset_of sample_message = 41" "msg_offset sample_message = 41"
  "List.map_filter (\<lambda>m. read_back (msg_value m)) [sample_message] = [str ''hello, broker!'']"
  by (simp_all add: sample_answer_def sample_fetch_partition_def in_order_def offset_of_def sample_message_def
      read_back_def map_filter_simps str_def)

lemma arrival_reads:
  "readData arrival_env 5 4 (sleep_ms 1 sample_world) =
    ((4, None, be_bytes 4 (of_nat (length sample_body) :: Int32)), next_call (sleep_ms 1 sample_world))"
  "readData arrival_env 5 (length sample_body) (next_call (sleep_ms 1 sample_world)) =
    ((int (length sample_body), None, sample_body), next_call (next_call (sleep_ms 1 sample_world)))"
proof -
  let ?w = "sleep_ms 1 sample_world"
  have t: "tick ?w = 0" by (simp add: sleep_ms_def sample_world_def)
  show "readData arrival_env 5 4 ?w = ((4, None, be_bytes 4 (of_nat (length sample_body) :: Int32)), next_call ?w)"
    using readData_full [of 5 4 arrival_env ?w "be_bytes 4 (of_nat (length sample_body) :: Int32)"] t by (simp add: arrival_env_def)
  show "readData arrival_env 5 (length sample_body) (next_call ?w) =
      ((int (length sample_body), None, sample_body), next_call (next_call ?w))"
    using readData_full [of 5 "length sample_body" arrival_env "next_call ?w" sample_body] t sample_body_length
    by (simp add: arrival_env_def)
qed

lemma arrival_incoming:
  "incoming arrival_env (arrival_consumer, r, sample_world) = Some (1, open_istream sample_body)"
proof -
  have "take 4 sample_body = be_bytes 4 (1 :: Int32)" "4 \<le> length sample_body" by (simp_all add: sample_body_def)
  then show ?thesis
    using sample_body_length
    by (simp add: incoming_def Let_def arrival_reads [simplified] ntohl_be_bytes frame_size_word)
qed

lemma arrival_serves: "serves [received sample_message] 0 (open_istream sample_body)"
proof -
  have "log_range [received sample_message] 0 42 = [received sample_message]"
    by (simp add: log_range_def offset_of_def received_def sample_message_def)
  then show ?thesis
    unfolding serves_def sample_body_def
      ReadResponse_Fetch_written [OF sample_answer_ok sample_answer_messages(2) refl]
    by (simp add: all_messages_def sample_answer_def sample_fetch_partition_def received_partition_def)
      (rule exI [of _ "0 :: int"], rule conjI, simp, rule exI [of _ "42 :: int"], simp)
qed

lemma arrival_run:
  "\<exists>w'. fold_outcome (partition_handle arrival_env) [Socket_event 5 1] (arrival_consumer, LibeventReactor_new, sample_world) =
     ret (arrival_consumer\<lparr>m_iNextFetchOffset := 42\<rparr>, LibeventReactor_new, w')"
proof -
  let ?w = "next_call (next_call (sleep_ms 1 sample_world))"
  have "onReadReady arrival_env (arrival_consumer, LibeventReactor_new, sample_world) =
      handleFetchResponse arrival_env (open_istream sample_body) (arrival_consumer, LibeventReactor_new, ?w)"
    using onReadReady_frame [OF sample_body_def sample_body_length(2), of arrival_env arrival_consumer] arrival_reads by simp
  moreover have "\<exists>w'. handleFetchResponse arrival_env (open_istream sample_body) (arrival_consumer, LibeventReactor_new, ?w) =
      ret (arrival_consumer\<lparr>m_iNextFetchOffset := 42\<rparr>, LibeventReactor_new, w')"
    using handleFetchResponse_delivers [of arrival_env "[sample_answer]" sample_body 1 "[sample_message]" arrival_consumer
        ?w 1000 LibeventReactor_new, unfolded arrival_env_simps, OF sample_answer_ok sample_answer_messages(2) sample_body_def
        sample_answer_messages(1,3)]
    by (auto simp: Let_def sample_answer_messages(4,5))
  ultimately show ?thesis
    by (auto simp: handleEvent_def selectFd_def AEVENTIN_def fold_outcome_Nil)
qed

theorem consumer_exactly_once_witness:
  "\<exists>w'. fold_outcome (partition_handle arrival_env) [Socket_event 5 1] (arrival_consumer, LibeventReactor_new, sample_world) =
     ret (arrival_consumer\<lparr>m_iNextFetchOffset := 42\<rparr>, LibeventReactor_new, w') \<and>
   deliveries (trace w') = [str ''hello, broker!'']"
proof -
  obtain w' where r: "fold_outcome (partition_handle arrival_env) [Socket_event 5 1] (arrival_consumer, LibeventReactor_new, sample_world) =
     ret (arrival_consumer\<lparr>m_iNextFetchOffset := 42\<rparr>, LibeventReactor_new, w')"
    using arrival_run by blast
  have "honest_run arrival_env [received sample_message] [Socket_event 5 1] (arrival_consumer, LibeventReactor_new, sample_world)"
    using arrival_serves by (simp add: honest_def arrival_incoming api_keys post_iff)
  moreover have "in_order [received sample_message]"
    by (simp add: in_order_def offset_of_def received_def sample_message_def)
  ultimately have "deliveries (trace w') = deliveries (trace sample_world) @ List.map_filter msg_value
      (filter (\<lambda>m. 0 \<le> offset_of m \<and> offset_of m < 42) [received sample_message])"
    using consumer_exactly_once [OF r] by simp
  then have "deliveries (trace w') = [str ''hello, broker!'']"
    by (simp add: sample_world_def offset_of_def received_def sample_message_def read_back_def map_filter_simps str_def)
  with r show ?thesis by blast
qed

end
