(* ===== verification/Producer.thy ===== *)
theory Producer
  imports Endpoint
begin

text \<open>
  What a producer sends: how the queued messages are cut into produce requests (against a reference
  definition, \<open>batches\<close>), how the requests are written in order, what the destructor still sends, and
  what the response to a produce request does.
\<close>

section \<open>Batches\<close>

text \<open>The size a request is charged for its messages: ten bytes of header for each.\<close>

definition load :: "String list \<Rightarrow> nat" where
  "load msgs = (\<Sum>m \<leftarrow> msgs. length m + 10)"

fun batches :: "nat \<Rightarrow> String list \<Rightarrow> String list \<Rightarrow> String list list" where
  "batches limit cur [] = [cur]"
| "batches limit cur (m # ms) =
     (if limit \<le> load cur then cur # batches limit [m] ms else batches limit (cur @ [m]) ms)"

lemma load_simps [simp]: "load [] = 0" "load (m # ms) = length m + 10 + load ms"
  "load (ms @ ms') = load ms + load ms'"
  by (simp_all add: load_def)


lemma concat_batches: "concat (batches limit cur ms) = cur @ ms"
  by (induction limit cur ms rule: batches.induct) simp_all



section \<open>The requests of the batches\<close>

definition produce_base :: "KafkaPartition \<Rightarrow> ProduceRequest" where
  "produce_base p = set_timeout (pTimeout (m_config p)) (set_required_acks (pRequiredAcks (m_config p))
     (set_correlation_id kApiKeyProduceRequest ProduceRequest_new))"

definition produce_request_for :: "KafkaPartition \<Rightarrow> String list \<Rightarrow> ProduceRequest" where
  "produce_request_for p msgs = fold (\<lambda>m. AddValue m (m_strTopic p) (m_iPartition p)) msgs (produce_base p)"

lemma Clear_fold_AddValue:
  "ProduceRequest_Clear (fold (\<lambda>m. AddValue m name part) msgs r) = ProduceRequest_Clear r"
proof (induction msgs arbitrary: r)
  case (Cons m msgs)
  have "ProduceRequest_Clear (AddValue m name part r) = ProduceRequest_Clear r"
    by (simp add: AddValue_def AddMessage_def ProduceRequest_Clear_def)
  with Cons show ?case by simp
qed simp

lemma Clear_produce_request_for: "ProduceRequest_Clear (produce_request_for p msgs) = produce_base p"
  unfolding produce_request_for_def Clear_fold_AddValue
  by (simp add: produce_base_def ProduceRequest_Clear_def set_timeout_def set_required_acks_def
      set_correlation_id_def ProduceRequest_new_def)

lemma produce_request_for_snoc:
  "AddValue m (m_strTopic p) (m_iPartition p) (produce_request_for p msgs) = produce_request_for p (msgs @ [m])"
  by (simp add: produce_request_for_def)


definition produce_limit :: "KafkaPartition \<Rightarrow> nat" where
  "produce_limit p = nat (sint (cMaxFetchBytes (m_config p)) - 1024)"

lemma produce_limit_word:
  assumes "1024 < sint (cMaxFetchBytes (m_config p))" and "n < 2 ^ 64"
  shows "(scast (cMaxFetchBytes (m_config p) - 1024) :: 64 word) \<le> of_nat n \<longleftrightarrow> produce_limit p \<le> n"
proof -
  let ?c = "cMaxFetchBytes (m_config p)"
  have c: "sint ?c < 2 ^ 31" using sint_lt [of ?c] by simp
  have s: "sint (?c - 1024) = sint ?c - 1024"
    using assms(1) c by (simp add: sint_word_ariths(2) signed_take_bit_int_eq_self)
  have "(scast (?c - 1024) :: 64 word) = of_int (sint (?c - 1024))" by (rule scast_eq)
  also have "\<dots> = of_nat (produce_limit p)"
    unfolding s produce_limit_def using assms(1) by (intro of_nat_nat [symmetric]) linarith
  finally have e: "(scast (?c - 1024) :: 64 word) = of_nat (produce_limit p)" .
  have "produce_limit p < 2 ^ 64" unfolding produce_limit_def using c by simp
  with assms(2) show ?thesis
    unfolding e word_le_nat_alt by (simp add: unsigned_of_nat take_bit_nat_eq_self)
qed

lemma produce_loop_batches:
  assumes "1024 < sint (cMaxFetchBytes (m_config p))" and "load cur + load ms < 2 ^ 64"
  shows "case produce_loop E p ms (produce_request_for p cur) (of_nat (load cur)) bufs of
    (request, bufs') \<Rightarrow> bufs' @ [(kApiKeyProduceRequest, produce_request_bytes E p request)] =
      bufs @ map (\<lambda>b. (kApiKeyProduceRequest, produce_request_bytes E p (produce_request_for p b)))
        (batches (produce_limit p) cur ms)"
  using assms(2)
proof (induction ms arbitrary: cur bufs)
  case (Cons m ms)
  show ?case
  proof (cases "produce_limit p \<le> load cur")
    case True
    then have c: "(scast (cMaxFetchBytes (m_config p) - 1024) :: 64 word) \<le> of_nat (load cur)"
      using produce_limit_word [OF assms(1), of "load cur"] Cons.prems by simp
    have "AddValue m (m_strTopic p) (m_iPartition p) (produce_base p) = produce_request_for p [m]"
      by (simp add: produce_request_for_def)
    with c True Cons.IH [of "[m]" "bufs @ [(kApiKeyProduceRequest, produce_request_bytes E p (produce_request_for p cur))]"]
      Cons.prems show ?thesis
      by (simp add: Clear_produce_request_for Let_def split: prod.splits)
  next
    case False
    then have c: "\<not> (scast (cMaxFetchBytes (m_config p) - 1024) :: 64 word) \<le> of_nat (load cur)"
      using produce_limit_word [OF assms(1), of "load cur"] Cons.prems by simp
    with False Cons.IH [of "cur @ [m]"] Cons.prems show ?thesis
      by (simp add: produce_request_for_snoc Let_def add.commute)
  qed
qed simp

lemma createProduceRequest_eq:
  assumes "1024 < sint (cMaxFetchBytes (m_config p))" and "load (m_qMsgs p) < 2 ^ 64"
  shows "createProduceRequest E (p, r, w) =
    register E (m_iSockFd p) (m_iEventFlags p) True
      (p\<lparr>m_qMsgs := [], m_dqWriteBuffers := m_dqWriteBuffers p @
         map (\<lambda>b. (kApiKeyProduceRequest, produce_request_bytes E p (produce_request_for p b)))
           (batches (produce_limit p) [] (m_qMsgs p))\<rparr>, r, w)"
proof -
  obtain request bufs where l: "produce_loop E p (m_qMsgs p) (produce_base p) 0 (m_dqWriteBuffers p) = (request, bufs)"
    by fastforce
  have "bufs @ [(kApiKeyProduceRequest, produce_request_bytes E p request)] = m_dqWriteBuffers p @
      map (\<lambda>b. (kApiKeyProduceRequest, produce_request_bytes E p (produce_request_for p b)))
        (batches (produce_limit p) [] (m_qMsgs p))"
    using produce_loop_batches [OF assms(1), of "[]" "m_qMsgs p" E "m_dqWriteBuffers p"] assms(2) l
    by (simp add: produce_request_for_def)
  with l show ?thesis
    by (simp add: createProduceRequest_def produce_base_def Let_def selectFd_def getEventFlags_def)
qed


definition sample_producer :: KafkaPartition where
  "sample_producer = (KafkaPartition_fields PRODUCER_P (str ''logs'') 3 [] KafkaBroker_new
       (defaultInit\<lparr>cMaxFetchBytes := 1036\<rparr>))
     \<lparr>m_qMsgs := [[1], [2, 2], [3]], m_iSockFd := 5, onProduceResponse := True\<rparr>"


section \<open>Writing the buffered requests\<close>

definition in_transit :: "(Int32 \<times> String) list \<Rightarrow> String list" where
  "in_transit bufs = map snd (filter (\<lambda>b. fst b = kApiKeyProduceRequest) bufs)"

lemma onWriteReady_written:
  assumes "m_dqWriteBuffers p = b # bufs" and "0 \<le> m_iSockFd p"
    and "sys_write E (tick w) = Written n" and "length (snd b) \<le> n"
  shows "onWriteReady E (p, r, w) =
    ret (p\<lparr>m_dqWriteBuffers := bufs,
           m_qInTransitProduceRequest := m_qInTransitProduceRequest p @ in_transit [b]\<rparr>, r,
         act (Write (m_iSockFd p) (snd b)) (next_call w))"
  using assms
  by (subst onWriteReady.simps)
    (simp add: writeOnce_def posix_write_def in_transit_def ret_def min_def Let_def)

lemma write_all_written:
  assumes "0 \<le> m_iSockFd p" and "\<forall>t. sys_write E t = Written n"
    and "\<forall>b \<in> set bufs. length (snd b) \<le> n" and "m_dqWriteBuffers p = bufs"
  shows "\<exists>w'. write_all E (p, r, w) =
      ret (p\<lparr>m_dqWriteBuffers := [],
             m_qInTransitProduceRequest := m_qInTransitProduceRequest p @ in_transit bufs\<rparr>, r, w') \<and>
    trace w' = trace w @ map (\<lambda>b. Write (m_iSockFd p) (snd b)) bufs"
  using assms
proof (induction bufs arbitrary: p w)
  case Nil
  then have "write_all E (p, r, w) = ret (p, r, w)" by (subst write_all.simps) (simp add: ret_def)
  moreover have "p\<lparr>m_dqWriteBuffers := [], m_qInTransitProduceRequest := m_qInTransitProduceRequest p\<rparr> = p"
    using Nil(4) by (cases p) simp
  ultimately show ?case by (simp add: in_transit_def)
next
  case (Cons b bufs)
  let ?p = "p\<lparr>m_dqWriteBuffers := bufs, m_qInTransitProduceRequest := m_qInTransitProduceRequest p @ in_transit [b]\<rparr>"
    and ?w = "act (Write (m_iSockFd p) (snd b)) (next_call w)"
  have "write_all E (p, r, w) = write_all E (?p, r, ?w)"
    using onWriteReady_written [of p b bufs E w n r] Cons.prems
    by (subst write_all.simps) (simp add: ret_def)
  moreover have "in_transit (b # bufs) = in_transit [b] @ in_transit bufs" by (simp add: in_transit_def)
  ultimately show ?case
    using Cons.IH [of ?p ?w] Cons.prems by auto
qed

text \<open>C13: destruction flushes. When the socket takes every request whole, the maximum size is above 1024
  bytes, less than \<open>2 ^ 64\<close> bytes are queued and the socket can be registered with the reactor, the destructor returns, and
  before it closes the socket it has written every buffered request and then produce requests that
  carry all messages still queued, in order and each once; then it closes the socket, the timers and
  the wakeup descriptors, each once. (A request that is written in part or not at all is not written
  again.)\<close>

theorem KafkaPartition_delete_flushes:
  assumes "1024 < sint (cMaxFetchBytes (m_config p))" and "load (m_qMsgs p) < 2 ^ 64"
    and "0 \<le> m_iSockFd p" and "\<forall>t. sys_write E t = Written n"
    and "reqs = map snd (m_dqWriteBuffers p) @ map (\<lambda>b. produce_request_bytes E p (produce_request_for p b))
        (batches (produce_limit p) [] (m_qMsgs p))"
    and "\<forall>req \<in> set reqs. length req \<le> n"
    and "registerFdCallback E (m_iSockFd p) (m_iEventFlags p) False True r w = ret (r1, w1)"
  shows "concat (batches (produce_limit p) [] (m_qMsgs p)) = m_qMsgs p \<and>
    (\<exists>p' w'. KafkaPartition_delete E (p, r, w) = ret (p', r1, w') \<and>
      m_qMsgs p' = [] \<and> m_dqWriteBuffers p' = [] \<and>
      trace w' = trace w1 @ map (Write (m_iSockFd p)) reqs @ [Sleep_ms 10, Close (m_iSockFd p),
        Close (m_iTimerFd (m_pReqTimerEvent p)), Close (m_iTimerFd (m_ocTimerEvent p)),
        Close (m_iTimerFd (m_mdTimerEvent p)), Close (m_iWakeupFd (m_fetchEvent p)),
        Close (m_iWakeupFd (m_produceMsgQEvent p)), Close (m_iWakeupFd (m_produceEvent p))])"
proof -
  let ?bufs = "m_dqWriteBuffers p @ map (\<lambda>b. (kApiKeyProduceRequest, produce_request_bytes E p
      (produce_request_for p b))) (batches (produce_limit p) [] (m_qMsgs p))"
  let ?p = "p\<lparr>m_qMsgs := [], m_dqWriteBuffers := ?bufs\<rparr>"
  have c: "createProduceRequest E (p, r, w) = ret (?p, r1, w1)"
    using assms(7) by (simp add: createProduceRequest_eq [OF assms(1,2)] register_def)
  have reqs: "map snd ?bufs = reqs" by (simp add: assms(5) comp_def)
  then have "\<forall>b \<in> set ?bufs. length (snd b) \<le> n" using assms(5,6) by auto
  then obtain w2 where w2: "write_all E (?p, r1, w1) = ret (?p\<lparr>m_dqWriteBuffers := [],
        m_qInTransitProduceRequest := m_qInTransitProduceRequest p @ in_transit ?bufs\<rparr>, r1, w2)"
      "trace w2 = trace w1 @ map (\<lambda>b. Write (m_iSockFd p) (snd b)) ?bufs"
    using write_all_written [of ?p E n ?bufs r1 w1] assms(3,4) by auto
  have "map (\<lambda>b. Write (m_iSockFd p) (snd b)) ?bufs = map (Write (m_iSockFd p)) reqs"
    unfolding reqs [symmetric] by (simp add: comp_def)
  then show ?thesis
    by (simp add: KafkaPartition_delete_def c w2 concat_batches Let_def sleep_ms_def posix_close_def
        PeriodicEventSource_delete_def WakeupEventSource_delete_def)
qed

definition sample_requests :: "env \<Rightarrow> String list" where
  "sample_requests E = map (\<lambda>b. produce_request_bytes E sample_producer (produce_request_for sample_producer b))
     (batches 12 [] [[1], [2, 2], [3]])"

theorem KafkaPartition_delete_flushes_witness:
  "let E = sample_env\<lparr>sys_write := \<lambda>_. Written (sum_list (map length (sample_requests sample_env)))\<rparr>
   in \<exists>p' r' w'. KafkaPartition_delete E (sample_producer, LibeventReactor_new, sample_world) = ret (p', r', w') \<and>
      m_qMsgs p' = [] \<and> m_dqWriteBuffers p' = []"
proof -
  define n where "n = sum_list (map length (sample_requests sample_env))"
  define E where "E = sample_env\<lparr>sys_write := \<lambda>_. Written n\<rparr>"
  have b: "sample_requests E = sample_requests sample_env"
    by (simp add: sample_requests_def produce_request_bytes_def E_def)
  have p: "m_qMsgs sample_producer = [[1], [2, 2], [3]]" "m_dqWriteBuffers sample_producer = []"
      "m_iSockFd sample_producer = 5" "sint (cMaxFetchBytes (m_config sample_producer)) = 1036"
      "produce_limit sample_producer = 12"
    by (simp_all add: sample_producer_def KafkaPartition_fields_def defaultInit_def produce_limit_def)
  have reg: "registerFdCallback E 5 (m_iEventFlags sample_producer) False True LibeventReactor_new sample_world =
      ret (LibeventReactor_new, sample_world)"
    by (simp add: registerFdCallback_def LibeventReactor_new_def)
  have len: "\<forall>req \<in> set (sample_requests E). length req \<le> n"
    unfolding b n_def by (auto intro: member_le_sum_list)
  have "\<exists>p' w'. KafkaPartition_delete E (sample_producer, LibeventReactor_new, sample_world) =
      ret (p', LibeventReactor_new, w') \<and> m_qMsgs p' = [] \<and> m_dqWriteBuffers p' = []"
    using KafkaPartition_delete_flushes [of sample_producer E n "sample_requests E" LibeventReactor_new
        sample_world LibeventReactor_new sample_world] reg len
    by (auto simp: p sample_requests_def E_def)
  then show ?thesis unfolding E_def n_def Let_def by blast
qed

section \<open>The response to a produce request\<close>

lemma c_string_framed: "length body < 2 ^ 24 \<Longrightarrow> c_string (framed body) = []"
proof -
  assume l: "length body < 2 ^ 24"
  have "drop_bit 24 (of_nat (length body) :: Int32) = 0"
    using l by (intro unat_0_iff [THEN iffD1])
      (simp add: drop_bit_eq_div unat_div_distrib unsigned_of_nat take_bit_nat_eq_self)
  then have "mem_store 4 (of_nat (length body) :: Int32) = mem_store 3 (of_nat (length body) :: Int32) @ [0]"
    using mem_store_add [of 3 1 "of_nat (length body) :: Int32"] by simp
  then show ?thesis
    by (simp add: c_string_def framed_def be_bytes_def)
qed

lemma produce_request_bytes_framed:
  "produce_request_bytes E p rq = framed (request_header 0 (correlation_id rq) (clientId (m_config p)) @
     WriteRequestMessage_Produce (boost_crc32 E) rq [])"
  unfolding produce_request_bytes_def produce_request.write_request_frame produce_request.frame_def
  by (simp add: framed_def request_header_def api_keys request_api_keys)

text \<open>C21: the answer to a produce request. When the broker acknowledges, the oldest request in transit
  is dropped and the application is told the offset, once. When it reports an error that is not
  about the leader or the offset range, the oldest request is taken as failed and queued again
  through \<^verbatim>\<open>c_str()\<close>: as a request below 16 MB starts with a zero byte, what is queued is empty, and
  its messages are lost.\<close>

theorem handleProduceResponse_correct:
  assumes "topic_ok (\<lambda>_. True) (t :: (ProduceResponseProps, unit) TopicPartitionBlock)" and "topic_name t = m_strTopic p" and "partitions t = [q]"
    and "partition_id q = m_iPartition p"
    and "bytes = be_bytes 4 (corr :: Int32) @ wire_array (wire_topic wire_produce_partition) [t]"
    and "err = sint (pr_error_code (partition_props q))" and "err \<notin> {1, 5, 6}"
    and "m_qInTransitProduceRequest p = produce_request_bytes E p rq # rest"
    and "length (produce_request_bytes E p rq) < 2 ^ 24"
  shows "handleProduceResponse E (open_istream bytes) (p, r, w) =
    (if err = 0
     then ret (p\<lparr>m_qInTransitProduceRequest := rest\<rparr>, r,
       if onProduceResponse p
       then act (On_produce_response (m_strTopic p) (m_iPartition p) (pr_offset (partition_props q))) w else w)
     else ret (p\<lparr>m_qInTransitProduceRequest := rest,
       m_dqWriteBuffers := m_dqWriteBuffers p @ [(kApiKeyProduceRequest, [])]\<rparr>, r, w))"
proof -
  have z: "err = 0 \<longleftrightarrow> pr_error_code (partition_props q) = 0"
    using assms(6) word_eq_iff_signed [where ?'a = int, of "pr_error_code (partition_props q)" 0] by simp
  have "array_ok (topic_ok (\<lambda>_. True)) [t]" using assms(1) by (simp add: array_ok_def)
  then obtain is' where rd: "ReadResponse ReadResponseMessage_Produce (open_istream bytes)
      \<lparr>response_correlation_id = 0, pr_topics = []\<rparr> no_error =
      Inr (\<lparr>response_correlation_id = corr, pr_topics = [t]\<rparr>,
        if err = 0 then no_error else make_error_code_kafka err, is')"
    using ReadResponse_Produce_written [where ts = "[]" and us = "[]" and ps = "[]" and qs = "[]" and t = t
        and q = q and corr = corr and r = "\<lparr>response_correlation_id = 0, pr_topics = []\<rparr>"] assms(3,5,6) z
    by auto
  have fi: "FindTopicPartition (m_strTopic p) (m_iPartition p) \<lparr>response_correlation_id = corr, pr_topics = [t]\<rparr> = Some q"
    using assms(2-4) by (simp add: FindTopicPartition_def FindTopic_def
        FindTopicByName_const_def FindTopicPartitionByNumber_const_def IsTopicWithName_def IsTopicPartition_def Let_def)
  have c: "c_string (produce_request_bytes E p rq) = []"
    using assms(9) unfolding produce_request_bytes_framed
    by (intro c_string_framed) (simp add: framed_def)
  show ?thesis
  proof (cases "err = 0")
    case True
    with rd fi assms(8) show ?thesis
      by (simp add: handleProduceResponse_def no_error_def is_error_def Let_def)
  next
    case False
    then show ?thesis
      using rd fi assms(7,8) c
      by (simp add: handleProduceResponse_def handleKafkaError_def make_error_code_kafka_def is_error_def
          kafka_errors Let_def)
  qed
qed

theorem handleProduceResponse_correct_witness:
  "let p = sample_producer\<lparr>m_qInTransitProduceRequest := [produce_request_bytes sample_env sample_producer ProduceRequest_new]\<rparr>
   in handleProduceResponse sample_env
       (open_istream (be_bytes 4 (0 :: Int32) @ wire_array (wire_topic wire_produce_partition) [sample_produce_topic 7]))
       (p, LibeventReactor_new, sample_world) =
     ret (p\<lparr>m_qInTransitProduceRequest := [], m_dqWriteBuffers := [(kApiKeyProduceRequest, [])]\<rparr>,
       LibeventReactor_new, sample_world)"
proof -
  let ?q = "\<lparr>partition_props = \<lparr>pr_error_code = 7, pr_offset = 77\<rparr>, partition_id = 3\<rparr>"
  have "length (produce_request_bytes sample_env sample_producer ProduceRequest_new) < 2 ^ 24"
    by (simp add: produce_request_bytes_framed framed_def request_header_def ProduceRequest_new_def
        WriteRequestMessage_Produce_def wire_simps sample_producer_def KafkaPartition_fields_def
        defaultInit_def str_def)
  then show ?thesis
    unfolding Let_def
    by (subst handleProduceResponse_correct [where t = "sample_produce_topic 7" and q = ?q and corr = 0
          and err = 7 and rest = "[]" and rq = ProduceRequest_new])
      (simp_all add: topic_ok_def array_ok_def short_string_def sample_produce_topic_def sample_producer_def
        KafkaPartition_fields_def str_def produce_request_bytes_def)
qed

end
