(* ===== verification/Producer_Run.thy ===== *)
theory Producer_Run
  imports Producer Connection
begin

text \<open>
  The life of the messages of a producer. At any time a message that was passed to \<^verbatim>\<open>produce\<close> is in one
  of four places, in the order they are passed through: the queue, a request in the buffer, a request in
  transit, a request that was answered. The predicate \<open>flows\<close> says so, and what of it has been written
  to a socket; it satisfies the laws of \<open>moving_handlers\<close>, so that only the members that move messages are
  left to look at.
\<close>

section \<open>Requests on their way\<close>

text \<open>
  A produce request in the buffer or in transit carries a batch of messages, or it is what
  \<^verbatim>\<open>handleProduceResponse\<close> queues in place of a refused one, which has no message in it.
\<close>

datatype parcel = Batch "String list" | Again String

fun contents :: "parcel \<Rightarrow> String list" where
  "contents (Batch b) = b"
| "contents (Again s) = []"

fun parcel_bytes :: "env \<Rightarrow> KafkaPartition \<Rightarrow> parcel \<Rightarrow> String" where
  "parcel_bytes E p (Batch b) = produce_request_bytes E p (produce_request_for p b)"
| "parcel_bytes E p (Again s) = c_string s"

text \<open>The produce requests among the actions of the process, as far as they were written.\<close>

fun sends :: "action list \<Rightarrow> String list" where
  "sends [] = []"
| "sends (Write fd bs # tr) = (if request_tag kApiKeyProduceRequest bs then bs # sends tr else sends tr)"
| "sends (_ # tr) = sends tr"

text \<open>
  What was written is, in order and each at most once, the beginnings of requests of a list. (A
  write may take a part of a request, and the rest of it is not written again.)
\<close>

definition written :: "env \<Rightarrow> KafkaPartition \<Rightarrow> String list \<Rightarrow> parcel list \<Rightarrow> bool" where
  "written E p outs xs \<longleftrightarrow>
     (\<exists>ys. subseq ys xs \<and> list_all2 (\<lambda>bs y. prefix bs (parcel_bytes E p y)) outs ys)"

text \<open>
  A partition may share the process with others: what counts are the requests it wrote itself, those
  before a point in time (\<open>old\<close>) and those since then, when the process had written \<open>pre\<close>.
\<close>

fun wrote :: "env \<Rightarrow> KafkaPartition \<Rightarrow> String list \<times> String list \<Rightarrow> action list \<Rightarrow> parcel list \<Rightarrow> bool" where
  "wrote E p (pre, old) tr xs \<longleftrightarrow> (\<exists>zs. sends tr = pre @ zs \<and> written E p (old @ zs) xs)"

lemma sends_append: "sends (tr @ tr') = sends tr @ sends tr'"
  by (induction tr rule: sends.induct) simp_all

lemma tag_length: "request_tag k b \<Longrightarrow> 12 \<le> length b"
proof -
  assume "request_tag k b"
  then have "length (take 4 (drop 8 b)) = 4" unfolding request_tag_def by simp
  then show ?thesis by simp
qed

lemma sends_quiet: "list_all quiet tr \<Longrightarrow> sends tr = []"
  by (induction tr rule: sends.induct) (auto dest: tag_length)

lemma sends_events: "list_all event_action tr \<Longrightarrow> sends tr = []"
  by (induction tr rule: sends.induct) simp_all

lemma quietly_sends: "quietly w w' \<Longrightarrow> sends (trace w') = sends (trace w)"
  by (auto simp: quietly_def sends_append sends_quiet)

lemma tag_prefix:
  assumes "request_tag k b" and "request_tag kApiKeyProduceRequest (take n b)"
  shows "(ucast k :: Int16) = 0"
proof -
  have n: "12 \<le> n" using tag_length [OF assms(2)] by simp
  then have "take 2 (drop 4 (take n b)) = take 2 (drop 4 b)" by (simp add: drop_take min_def)
  then have "be_bytes 2 (ucast k :: Int16) = be_bytes 2 (ucast (kApiKeyProduceRequest :: Int32) :: Int16)"
    using assms unfolding request_tag_def by simp
  then show ?thesis by (simp add: be_bytes_inj api_keys)
qed

text \<open>Bytes no beginning of which looks like a produce request.\<close>

definition foreign :: "String \<Rightarrow> bool" where
  "foreign b \<longleftrightarrow> (\<forall>n. \<not> request_tag kApiKeyProduceRequest (take n b))"

lemma foreign_tag:
  "k \<in> {kApiKeyFetchRequest, kApiKeyOffsetRequest, kApiKeyMetadataRequest} \<Longrightarrow> request_tag k b \<Longrightarrow> foreign b"
  using tag_prefix [of k b] by (auto simp: foreign_def api_keys)

lemma foreign_c_string: "foreign (c_string b)"
proof -
  have "0 \<notin> set (take n (c_string b))" for n
    by (auto simp: c_string_def dest!: in_set_takeD set_takeWhileD)
  moreover have "0 \<in> set bs" if "request_tag kApiKeyProduceRequest bs" for bs
  proof -
    have "(0 :: Byte) \<in> set (be_bytes 2 (ucast (kApiKeyProduceRequest :: Int32) :: Int16))"
      by (simp add: api_keys be_bytes_def numeral_2_eq_2)
    then show ?thesis using that unfolding request_tag_def by (metis in_set_dropD in_set_takeD)
  qed
  ultimately show ?thesis unfolding foreign_def by blast
qed

lemma posix_write_sends:
  "posix_write E fd bs w = (res, w') \<Longrightarrow>
   sends (trace w') = sends (trace w) \<or>
   (\<exists>n. request_tag kApiKeyProduceRequest (take n bs) \<and> sends (trace w') = sends (trace w) @ [take n bs])"
  by (auto simp: posix_write_def sends_append Let_def split: if_splits write_result.splits)

lemma wrote_skip: "wrote E p h tr xs \<Longrightarrow> sends tr' = sends tr \<Longrightarrow> wrote E p h tr' (xs @ zs)"
  by (cases h) (auto simp: written_def intro: subseq_rev_drop_many)

lemma wrote_send:
  assumes "wrote E p h tr xs" and "sends tr' = sends tr @ [take n (parcel_bytes E p z)]"
  shows "wrote E p h tr' (xs @ [z])"
proof -
  obtain pre old zs ys where h: "h = (pre, old)" "sends tr = pre @ zs" "subseq ys xs"
      "list_all2 (\<lambda>bs y. prefix bs (parcel_bytes E p y)) (old @ zs) ys"
    using assms(1) by (cases h) (auto simp: written_def)
  have "list_all2 (\<lambda>bs y. prefix bs (parcel_bytes E p y)) ((old @ zs) @ [take n (parcel_bytes E p z)]) (ys @ [z])"
    using h(4) by (intro list_all2_appendI) (simp_all add: take_is_prefix)
  with h(3) have "written E p (old @ zs @ [take n (parcel_bytes E p z)]) (xs @ [z])"
    unfolding written_def by (intro exI [of _ "ys @ [z]"]) simp
  with assms(2) show ?thesis unfolding h(1,2) wrote.simps by auto
qed

section \<open>Where the messages are\<close>

definition flows :: "env \<Rightarrow> KafkaPartition \<Rightarrow> String list \<times> String list \<Rightarrow> nat \<Rightarrow> String list \<Rightarrow> pstate \<Rightarrow> bool" where
  "flows E p0 h n ms s \<longleftrightarrow>
     (case s of (p, r, w) \<Rightarrow>
        m_config p = m_config p0 \<and> m_strTopic p = m_strTopic p0 \<and> m_iPartition p = m_iPartition p0 \<and>
        list_all (\<lambda>(k, b). k = kApiKeyProduceRequest \<or> foreign b) (m_dqWriteBuffers p) \<and>
        (\<exists>ds ts bs. length ds \<le> n \<and> m_qInTransitProduceRequest p = map (parcel_bytes E p0) ts \<and>
           in_transit (m_dqWriteBuffers p) = map (parcel_bytes E p0) bs \<and>
           concat (map contents (ds @ ts @ bs)) @ m_qMsgs p = ms \<and> wrote E p0 h (trace w) (ds @ ts)))"

lemma in_transit_simps [simp]:
  "in_transit [] = []" "in_transit (x @ y) = in_transit x @ in_transit y"
  "in_transit (b # x) = (if fst b = kApiKeyProduceRequest then snd b # in_transit x else in_transit x)"
  by (simp_all add: in_transit_def)

lemma in_transit_frames [simp]: "in_transit (map (\<lambda>b. (kApiKeyProduceRequest, f b)) bs) = map f bs"
  by (induction bs) simp_all

lemma keys_differ: "kApiKeyFetchRequest \<noteq> (kApiKeyProduceRequest :: Int32)"
  "kApiKeyOffsetRequest \<noteq> (kApiKeyProduceRequest :: Int32)" "kApiKeyMetadataRequest \<noteq> (kApiKeyProduceRequest :: Int32)"
  by (simp_all add: api_keys)

lemma flowsE:
  assumes "flows E p0 h n ms (p, r, w)"
  obtains ds ts bs where "length ds \<le> n" "m_qInTransitProduceRequest p = map (parcel_bytes E p0) ts"
    "in_transit (m_dqWriteBuffers p) = map (parcel_bytes E p0) bs" "concat (map contents (ds @ ts @ bs)) @ m_qMsgs p = ms"
    "wrote E p0 h (trace w) (ds @ ts)" "list_all (\<lambda>(k, b). k = kApiKeyProduceRequest \<or> foreign b) (m_dqWriteBuffers p)"
    "m_config p = m_config p0" "m_strTopic p = m_strTopic p0" "m_iPartition p = m_iPartition p0"
  using assms unfolding flows_def prod.case by blast

lemma flowsI:
  "length ds \<le> n \<Longrightarrow> m_qInTransitProduceRequest p = map (parcel_bytes E p0) ts \<Longrightarrow>
   in_transit (m_dqWriteBuffers p) = map (parcel_bytes E p0) bs \<Longrightarrow> concat (map contents (ds @ ts @ bs)) @ m_qMsgs p = ms \<Longrightarrow>
   wrote E p0 h (trace w) (ds @ ts) \<Longrightarrow> list_all (\<lambda>(k, b). k = kApiKeyProduceRequest \<or> foreign b) (m_dqWriteBuffers p) \<Longrightarrow>
   m_config p = m_config p0 \<Longrightarrow> m_strTopic p = m_strTopic p0 \<Longrightarrow> m_iPartition p = m_iPartition p0 \<Longrightarrow>
   flows E p0 h n ms (p, r, w)"
  unfolding flows_def prod.case by blast

lemma flows_same_sends: "flows E p0 h n ms (p, r, w) \<Longrightarrow> sends (trace w') = sends (trace w) \<Longrightarrow> flows E p0 h n ms (p, r', w')"
  by (cases h) (simp add: flows_def)

lemma flows_mono: "flows E p0 h n ms s \<Longrightarrow> n \<le> n' \<Longrightarrow> flows E p0 h n' ms s"
  unfolding flows_def by (auto split: prod.splits dest: order_trans)

lemma flows_sent:
  assumes "flows E p0 h n ms (p, r, w)" and buf: "m_dqWriteBuffers p = req # rest"
    and wr: "posix_write E (m_iSockFd p) (snd req) w = (res, w')"
  shows "flows E p0 h n ms (sent req rest p, r, w')"
proof -
  from assms(1) obtain ds ts bs where f: "length ds \<le> n" "m_qInTransitProduceRequest p = map (parcel_bytes E p0) ts"
      "in_transit (m_dqWriteBuffers p) = map (parcel_bytes E p0) bs" "concat (map contents (ds @ ts @ bs)) @ m_qMsgs p = ms"
      "wrote E p0 h (trace w) (ds @ ts)" "list_all (\<lambda>(k, b). k = kApiKeyProduceRequest \<or> foreign b) (m_dqWriteBuffers p)"
      "m_config p = m_config p0" "m_strTopic p = m_strTopic p0" "m_iPartition p = m_iPartition p0"
    by (rule flowsE)
  show ?thesis
  proof (cases "fst req = kApiKeyProduceRequest")
    case False
    then have "foreign (snd req)" using f(6) buf by (cases req) simp
    then have "wrote E p0 h (trace w') (ds @ ts)"
      using posix_write_sends [OF wr] wrote_skip [OF f(5), of "trace w'" "[]"] by (auto simp: foreign_def)
    with False f buf show ?thesis by (intro flowsI [of ds n _ E p0 ts bs]) (simp_all add: sent_def)
  next
    case True
    then obtain b bs' where b: "bs = b # bs'" "parcel_bytes E p0 b = snd req" "in_transit rest = map (parcel_bytes E p0) bs'"
      using f(3) buf by (cases bs) auto
    have "wrote E p0 h (trace w') ((ds @ ts) @ [b])"
      using posix_write_sends [OF wr] wrote_skip [OF f(5)] wrote_send [OF f(5)] b(2) by metis
    with b f True buf show ?thesis by (intro flowsI [of ds n _ E p0 "ts @ [b]" bs']) (simp_all add: sent_def)
  qed
qed

interpretation pipe: moving_handlers E "flows E p0 h n ms" for E p0 h n ms
proof
  show "flows E p0 h n ms (p, r, w) \<Longrightarrow> post (\<lambda>(r', w'). flows E p0 h n ms (p, r', w'))
      (registerFdCallback E fd flags oneshot modify r w)" for p r w fd flags oneshot modify
    by (rule post_mono [OF register_acts]) (auto simp: sends_append sends_events elim!: flows_same_sends)
  show "flows E p0 h n ms (p, r, w) \<Longrightarrow> request_tag kApiKeyFetchRequest b \<Longrightarrow>
      flows E p0 h n ms (p\<lparr>m_dqWriteBuffers := m_dqWriteBuffers p @ [(kApiKeyFetchRequest, b)]\<rparr>, r, w)" for p r w b
    using foreign_tag [of kApiKeyFetchRequest b] by (simp add: flows_def keys_differ)
  show "flows E p0 h n ms (p, r, w) \<Longrightarrow> k \<in> {kApiKeyOffsetRequest, kApiKeyMetadataRequest} \<Longrightarrow> request_tag k b \<Longrightarrow>
      flows E p0 h n ms (p\<lparr>m_dqWriteBuffers := (k, b) # m_dqWriteBuffers p\<rparr>, r, w)" for p r w k b
    using foreign_tag [of k b] keys_differ by (elim insertE) (simp_all add: flows_def)
  show "flows E p0 h n ms (p, r, w) \<Longrightarrow> same_core p q \<Longrightarrow> flows E p0 h n ms (q, r, w)" for p q r w
    by (simp add: flows_def same_core_def)
  show "flows E p0 h n ms (p, r, w) \<Longrightarrow> flows E p0 h n ms (p\<lparr>m_iNextFetchOffset := k\<rparr>, r, w)" for p r w k
    by (simp add: flows_def)
qed (auto simp: sends_append sends_events intro: flows_same_sends flows_sent dest!: unregister_acts quietly_sends)

section \<open>Members that move messages\<close>

lemma parcel_bytes_same:
  "m_config p = m_config p0 \<Longrightarrow> m_strTopic p = m_strTopic p0 \<Longrightarrow> m_iPartition p = m_iPartition p0 \<Longrightarrow>
   produce_request_bytes E p (produce_request_for p b) = parcel_bytes E p0 (Batch b)"
  by (simp add: produce_request_bytes_def produce_request_for_def produce_base_def)

lemma concat_contents_Batch [simp]: "concat (map (\<lambda>b. contents (Batch b)) bs) = concat bs"
  by (induction bs) simp_all

lemma createProduceRequest_flows:
  assumes "1024 < sint (cMaxFetchBytes (m_config p0))" and "load ms < 2 ^ 64" and "flows E p0 h n ms s"
  shows "post (flows E p0 h n ms) (createProduceRequest E s)"
proof -
  obtain p r w where p: "s = (p, r, w)" by (cases s)
  from assms(3) [unfolded p] obtain ds ts bs where f: "length ds \<le> n" "m_qInTransitProduceRequest p = map (parcel_bytes E p0) ts"
      "in_transit (m_dqWriteBuffers p) = map (parcel_bytes E p0) bs" "concat (map contents (ds @ ts @ bs)) @ m_qMsgs p = ms"
      "wrote E p0 h (trace w) (ds @ ts)" "list_all (\<lambda>(k, b). k = kApiKeyProduceRequest \<or> foreign b) (m_dqWriteBuffers p)"
      "m_config p = m_config p0" "m_strTopic p = m_strTopic p0" "m_iPartition p = m_iPartition p0"
    by (rule flowsE)
  have l: "load (m_qMsgs p) < 2 ^ 64" using assms(2) f(4) [symmetric] by simp
  let ?new = "batches (produce_limit p) [] (m_qMsgs p)"
  have "flows E p0 h n ms (p\<lparr>m_qMsgs := [], m_dqWriteBuffers := m_dqWriteBuffers p @
      map (\<lambda>b. (kApiKeyProduceRequest, produce_request_bytes E p (produce_request_for p b))) ?new\<rparr>, r, w)"
    using f unfolding parcel_bytes_same [OF f(7-9)]
    by (intro flowsI [of ds n _ E p0 ts "bs @ map Batch ?new"])
      (simp_all add: concat_batches comp_def list_all_iff ball_Un del: parcel_bytes.simps contents.simps)
  then show ?thesis
    using pipe.register_keeps createProduceRequest_eq [of p E r w] assms(1) l by (simp add: p f(7))
qed

lemma enqueue_flows: "flows E p0 h n ms s \<Longrightarrow> post (flows E p0 h n (ms @ [m])) (enqueue E m s)"
  by (erule pipe.enqueue_post, erule flowsE) (rule flowsI, auto)

lemma enqueue_list_flows: "flows E p0 h n ms s \<Longrightarrow> post (flows E p0 h n (ms @ xs)) (fold_outcome (enqueue E) xs s)"
proof (induction xs arbitrary: ms s)
  case (Cons x xs)
  have "post (flows E p0 h n (ms @ x # xs)) (fold_outcome (enqueue E) xs s')" if "flows E p0 h n (ms @ [x]) s'" for s'
    using Cons.IH [OF that] by simp
  with enqueue_flows [OF Cons.prems, of x] show ?case by (auto intro: post_bndI)
qed simp

lemma produce_flows:
  assumes "flows E p0 h n ms s"
  shows "post (flows E p0 h n (ms @ [m])) (bnd (produce E m s) (\<lambda>(_, s). ret s))"
    "post (flows E p0 h n (ms @ xs)) (bnd (produce_list E xs s) (\<lambda>(_, s). ret s))"
proof -
  have msgq: "post (flows E p0 h n ms') (bnd (wakeup_msgq E s') (\<lambda>(_, s). ret s))" if "flows E p0 h n ms' s'" for ms' s'
    using that by (auto intro!: post_bndI [OF pipe.wakeup_msgq_keeps])
  show "post (flows E p0 h n (ms @ [m])) (bnd (produce E m s) (\<lambda>(_, s). ret s))"
    unfolding produce_def bnd_assoc by (rule post_bndI [OF enqueue_flows [OF assms] msgq])
  show "post (flows E p0 h n (ms @ xs)) (bnd (produce_list E xs s) (\<lambda>(_, s). ret s))"
    using assms post_bndI [OF enqueue_list_flows [OF assms] msgq] by (simp add: produce_list_def bnd_assoc)
qed

text \<open>An answer settles the oldest request in transit; what a refusal puts into the buffer is no message.\<close>

lemma answer_flows:
  assumes "flows E p0 h n ms (p, r, w)" and "m_qInTransitProduceRequest p = req # rest"
    and "sends (trace w') = sends (trace w)"
  shows "flows E p0 h (Suc n) ms (p\<lparr>m_qInTransitProduceRequest := rest\<rparr>, r, w')"
    "flows E p0 h (Suc n) ms (p\<lparr>m_dqWriteBuffers := m_dqWriteBuffers p @ [(kApiKeyProduceRequest, c_string req)],
       m_qInTransitProduceRequest := rest\<rparr>, r, w')"
proof -
  from assms(1) obtain ds ts bs where f: "length ds \<le> n" "m_qInTransitProduceRequest p = map (parcel_bytes E p0) ts"
      "in_transit (m_dqWriteBuffers p) = map (parcel_bytes E p0) bs" "concat (map contents (ds @ ts @ bs)) @ m_qMsgs p = ms"
      "wrote E p0 h (trace w) (ds @ ts)" "list_all (\<lambda>(k, b). k = kApiKeyProduceRequest \<or> foreign b) (m_dqWriteBuffers p)"
      "m_config p = m_config p0" "m_strTopic p = m_strTopic p0" "m_iPartition p = m_iPartition p0"
    by (rule flowsE)
  then obtain t ts' where t: "ts = t # ts'" "rest = map (parcel_bytes E p0) ts'" using assms(2) by (cases ts) auto
  have w: "wrote E p0 h (trace w') ((ds @ [t]) @ ts')"
    using wrote_skip [OF f(5) assms(3), of "[]"] t(1) by simp
  show "flows E p0 h (Suc n) ms (p\<lparr>m_qInTransitProduceRequest := rest\<rparr>, r, w')"
    using f t w by (intro flowsI [of "ds @ [t]" "Suc n" _ E p0 ts' bs]) simp_all
  show "flows E p0 h (Suc n) ms (p\<lparr>m_dqWriteBuffers := m_dqWriteBuffers p @ [(kApiKeyProduceRequest, c_string req)],
       m_qInTransitProduceRequest := rest\<rparr>, r, w')"
    using f t w by (intro flowsI [of "ds @ [t]" "Suc n" _ E p0 ts' "bs @ [Again req]"]) simp_all
qed

lemma handleProduceResponse_flows:
  "flows E p0 h n ms s \<Longrightarrow> post (flows E p0 h (Suc n) ms) (handleProduceResponse E is s)"
  by (erule pipe.handleProduceResponse_post) (auto intro: answer_flows dest: quietly_sends)

section \<open>Runs\<close>

text \<open>The messages of the calls of \<^verbatim>\<open>produce\<close> among the events, and the number of times the socket is read.\<close>

fun produce_calls :: "partition_event list \<Rightarrow> String list" where
  "produce_calls [] = []"
| "produce_calls (Call_produce m # evs) = m # produce_calls evs"
| "produce_calls (Call_produce_list ms # evs) = ms @ produce_calls evs"
| "produce_calls (_ # evs) = produce_calls evs"

fun reads :: "partition_event list \<Rightarrow> nat" where
  "reads [] = 0"
| "reads (Socket_event fd event # evs) = (if event AND ucast AEVENTIN \<noteq> 0 then Suc (reads evs) else reads evs)"
| "reads (_ # evs) = reads evs"

lemma event_flows:
  assumes "1024 < sint (cMaxFetchBytes (m_config p0))" and "load ms < 2 ^ 64" and "flows E p0 h n ms s"
  shows "post (flows E p0 h (n + reads [ev]) (ms @ produce_calls [ev])) (partition_handle E ev s)"
proof -
  obtain p r w where p: "s = (p, r, w)" by (cases s)
  note s = assms(3) [unfolded p]
  note after = pipe.after_wakeup_keeps [OF s quietly_handleEvent(1)] pipe.after_wakeup_keeps [OF s quietly_handleEvent(2)]
  note cut = createProduceRequest_flows [OF assms(1,2)]
  have rd: "post (flows E p0 h (Suc n) ms) (onReadReady E s)" "flows E p0 h (Suc n) ms s"
    using assms(3) by (auto intro!: pipe.onReadReady_post [OF handleProduceResponse_flows] elim: flows_mono)
  show ?thesis
    using s rd produce_flows [OF s]
    by (cases ev) (simp_all add: p handleEvent_def pipe.onWriteReady_keeps pipe.resumeFetch_keeps
        pipe.pauseFetch_keeps after cut pipe.createFetchRequest_keeps pipe.createMetadataRequest_keeps
        pipe.notifyProduceMsgQ_keeps pipe.commit_keeps)
qed

lemma run_flows:
  "1024 < sint (cMaxFetchBytes (m_config p0)) \<Longrightarrow> load (ms @ produce_calls evs) < 2 ^ 64 \<Longrightarrow> flows E p0 h n ms s \<Longrightarrow>
   post (flows E p0 h (n + reads evs) (ms @ produce_calls evs)) (fold_outcome (partition_handle E) evs s)"
proof (induction evs arbitrary: n ms s)
  case (Cons ev evs)
  have split: "produce_calls (ev # evs) = produce_calls [ev] @ produce_calls evs" "reads (ev # evs) = reads [ev] + reads evs"
    by (cases ev; simp)+
  have "post (flows E p0 h (n + reads [ev]) (ms @ produce_calls [ev])) (partition_handle E ev s)"
    using Cons.prems by (intro event_flows) simp_all
  moreover have "post (flows E p0 h (n + reads (ev # evs)) (ms @ produce_calls (ev # evs))) (fold_outcome (partition_handle E) evs s')"
    if "flows E p0 h (n + reads [ev]) (ms @ produce_calls [ev]) s'" for s'
    using Cons.IH [OF Cons.prems(1) _ that] Cons.prems(2) unfolding split by (simp add: add.assoc)
  ultimately show ?case by (simp del: produce_calls.simps reads.simps) (rule post_bndI)
qed simp

text \<open>C5: no message disappears, is duplicated or overtakes another. Whatever events a fresh producer
  handles (calls of \<^verbatim>\<open>produce\<close>, timers, wakeups, writes that fail or take a part of a request, answers of
  any kind, lost connections and changes of the leader), the messages passed to \<^verbatim>\<open>produce\<close> are, in that
  order and each once, those of the answered requests (acknowledged or refused), of the requests in
  transit, of the requests in the buffer and of the queue, and at most one request is answered each time
  the socket is read. What
  has been written to the sockets are beginnings of the answered requests and of those in transit, in
  that order and each at most once: a request is never written a second time, not even after its
  connection was lost.\<close>

theorem producer_fifo:
  assumes "fold_outcome (partition_handle E) evs (p0, r0, w0) = ret (p, r, w)"
    and "m_qMsgs p0 = []" "m_dqWriteBuffers p0 = []" "m_qInTransitProduceRequest p0 = []"
    and "1024 < sint (cMaxFetchBytes (m_config p0))" and "load (produce_calls evs) < 2 ^ 64"
  shows "\<exists>ds ts bs outs. length ds \<le> reads evs \<and> m_qInTransitProduceRequest p = map (parcel_bytes E p0) ts \<and>
    in_transit (m_dqWriteBuffers p) = map (parcel_bytes E p0) bs \<and>
    concat (map contents ds) @ concat (map contents ts) @ concat (map contents bs) @ m_qMsgs p = produce_calls evs \<and>
    sends (trace w) = sends (trace w0) @ outs \<and> written E p0 outs (ds @ ts)"
proof -
  have "flows E p0 (sends (trace w0), []) 0 [] (p0, r0, w0)"
    by (rule flowsI [of "[]" 0 _ E p0 "[]" "[]"]) (simp_all add: assms(2-4) written_def)
  from run_flows [OF assms(5) _ this, of evs] assms(1,6) show ?thesis
    by (simp add: flows_def)
qed

theorem producer_fifo_witness:
  "\<exists>p' r' w' ts bs. fold_outcome (partition_handle sample_env) [Call_produce [1], Produce_event 1]
       (sample_partition, LibeventReactor_of True, sample_world) = ret (p', r', w') \<and>
     m_qMsgs p' = [] \<and> m_qInTransitProduceRequest p' = map (parcel_bytes sample_env sample_partition) ts \<and>
     in_transit (m_dqWriteBuffers p') = map (parcel_bytes sample_env sample_partition) bs \<and>
     concat (map contents ts) @ concat (map contents bs) = [[1]]"
proof -
  obtain p' r' w' where r: "fold_outcome (partition_handle sample_env) [Call_produce [1], Produce_event 1]
       (sample_partition, LibeventReactor_of True, sample_world) = ret (p', r', w')" "m_qMsgs p' = []"
    using sample_produces by blast
  have "m_qMsgs sample_partition = []" "m_dqWriteBuffers sample_partition = []"
      "m_qInTransitProduceRequest sample_partition = []"
      "1024 < sint (cMaxFetchBytes (m_config sample_partition))"
      "load (produce_calls [Call_produce [1], Produce_event 1]) < 2 ^ 64"
    by (simp_all add: sample_partition_def KafkaPartition_fields_def defaultInit_def sample_world_def)
  from producer_fifo [OF r(1) this] r show ?thesis by auto
qed

end
