(* ===== verification/Kafka_Client.thy ===== *)
theory Kafka_Client
  imports Connection
begin

text \<open>
  \<^verbatim>\<open>KafkaClient.h\<close> and \<^verbatim>\<open>KafkaClient.cpp\<close>: a client asks a broker for the metadata of its topic and
  creates a partition for each partition of the topic, or for the one it was given. The state is the
  client with its partitions, the reactor they share and the process around it. The jump back to
  \<^verbatim>\<open>sendMetaDataRequest\<close> is a recursion that may not end, so \<open>init\<close> is a partial function.
\<close>

section \<open>The client\<close>

record KafkaClient =
  onFetchedData :: bool
  client_onProduceResponse :: bool
  client_onMsgQueued :: bool
  m_numPartitions :: Int32
  client_iPartition :: Int32
  m_strBroker :: String
  m_iService :: Int16
  client_strTopic :: String
  client_config :: KafkaClientConfig
  client_partitionType :: KafkaPartitionType
  m_partitions :: "KafkaPartition list"
  m_brokers :: "KafkaBroker list"

type_synonym cstate = "KafkaClient \<times> LibeventReactor \<times> world"

text \<open>\<^verbatim>\<open>m_numPartitions\<close> is not initialised: its value is an argument. It is signed, so it may not be incremented
  beyond its range.\<close>

definition KafkaClient_fields ::
  "Int32 \<Rightarrow> KafkaPartitionType \<Rightarrow> String \<Rightarrow> Int32 \<Rightarrow> String \<Rightarrow> Int16 \<Rightarrow> KafkaClientConfig \<Rightarrow> KafkaClient" where
  "KafkaClient_fields garbage partitionType topic part broker service config =
     \<lparr>onFetchedData = False, client_onProduceResponse = False, client_onMsgQueued = False,
      m_numPartitions = garbage, client_iPartition = part, m_strBroker = broker, m_iService = service,
      client_strTopic = topic, client_config = config, client_partitionType = partitionType,
      m_partitions = [], m_brokers = []\<rparr>"

section \<open>Asking for the metadata\<close>

definition metadata_request_bytes :: "KafkaClient \<Rightarrow> String" where
  "metadata_request_bytes c =
     (let request = set_correlation_id kApiKeyMetadataRequest MetadataRequest_new;
          request = AddTopicName (client_strTopic c) request
      in WriteRequest MetadataRequest_ApiKey RequestMessageWireSize_Metadata
           WriteRequestMessage_Metadata request (clientId (client_config c)) [])"

definition read_or_exit :: "env \<Rightarrow> int \<Rightarrow> nat \<Rightarrow> world \<Rightarrow> (Byte list \<times> world) outcome" where
  "read_or_exit E sockFd sz w =
     (let ((res, err, data), w) = readData E sockFd sz w in
      bnd (assert_that (res \<noteq> - 1)) (\<lambda>_. if res = 0 then stop Exit else ret (data, w)))"

definition fetchMetadata :: "env \<Rightarrow> KafkaClient \<Rightarrow> int \<Rightarrow> world \<Rightarrow> (MetadataResponse \<times> world) outcome" where
  "fetchMetadata E c sockFd w =
     (let w = sleep_ms 100 w;
          (res, w) = posix_write E sockFd (metadata_request_bytes c) w
      in (case res of
           Write_error e \<Rightarrow> stop Assert_failed
         | Written n \<Rightarrow>
             bnd (read_or_exit E sockFd 4 w) (\<lambda>(data, w).
             let frame_size = unat (ntohl (mem_load data)) in
             bnd (read_or_exit E sockFd frame_size w) (\<lambda>(data, w).
               (case ReadResponse ReadResponseMessage_Metadata (open_istream data)
                   \<lparr>response_correlation_id = 0, brokers = [], mr_topics = []\<rparr> no_error of
                  Inl e \<Rightarrow> stop (Throws e)
                | Inr (rsp, ec, _) \<Rightarrow> if is_error ec then stop Exit else ret (rsp, w))))))"

text \<open>The buffer for the address is zeroed here, so a name without an address gives an empty string.\<close>

fun addBrokers :: "env \<Rightarrow> Broker list \<Rightarrow> KafkaBroker list \<Rightarrow> world \<Rightarrow> KafkaBroker list \<times> world" where
  "addBrokers E [] bs w = (bs, w)"
| "addBrokers E (b # brs) bs w =
     (let ((_, ip), w) = hostnameToIp E (host b) w;
          kBroker = \<lparr>m_iId = node_id b, m_strHost = host b,
            m_strIp = (case ip of None \<Rightarrow> [] | Some s \<Rightarrow> s), m_iPort = ucast (port b)\<rparr>
      in addBrokers E brs (bs @ [kBroker]) w)"

section \<open>Creating the partitions\<close>

definition find_leader :: "Int32 \<Rightarrow> KafkaBroker list \<Rightarrow> KafkaBroker outcome" where
  "find_leader leaderNodeID bs =
     (let it = find_if (\<lambda>broker. m_iId broker = leaderNodeID) bs
      in if it = length bs then stop Exit else ret (bs ! it))"

definition addPartition :: "env \<Rightarrow> Int32 \<Rightarrow> Int32 \<Rightarrow> cstate \<Rightarrow> cstate outcome" where
  "addPartition E partitionID leaderNodeID s =
     (case s of (c, r, w) \<Rightarrow>
        bnd (find_leader leaderNodeID (m_brokers c)) (\<lambda>kLeader.
        bnd (KafkaPartition_new E (client_partitionType c) (client_strTopic c) partitionID (m_brokers c)
               kLeader (client_config c) r w) (\<lambda>(p, r, w).
        ret (c\<lparr>m_partitions := m_partitions c @
               [p\<lparr>onReceivedData := True, onProduceResponse := True, onMsgQueued := True\<rparr>]\<rparr>, r, w))))"

definition addTopicPartition :: "env \<Rightarrow> MetadataPartitionProps Partition \<Rightarrow> cstate \<Rightarrow> cstate outcome" where
  "addTopicPartition E q s =
     (case s of (c, r, w) \<Rightarrow>
        if sint (m_numPartitions c) = 2 ^ 31 - 1 then stop Undefined
        else let c = c\<lparr>m_numPartitions := m_numPartitions c + 1\<rparr> in
        if mp_error_code (partition_props q) \<noteq> 0 then stop Exit
        else addPartition E (partition_id q) (leader (partition_props q)) (c, r, w))"

definition createPartitions :: "env \<Rightarrow> MetadataResponse \<Rightarrow> cstate \<Rightarrow> (bool \<times> cstate) outcome" where
  "createPartitions E rsp s =
     (case s of (c, r, w) \<Rightarrow>
        if client_iPartition c = KAFKA_ALL_PARTITIONS
        then let topic_iter = FindTopicByName_const (client_strTopic c) (mr_topics rsp) in
          if topic_iter = length (mr_topics rsp) then stop Exit
          else let ps = partitions (mr_topics rsp ! topic_iter) in
            if ps = [] then ret (True, s)
            else bnd (fold_outcome (addTopicPartition E) ps s) (\<lambda>s. ret (False, s))
        else (case PartitionLeader (client_strTopic c) (client_iPartition c) rsp of
            Some ldr \<Rightarrow> bnd (addPartition E (client_iPartition c) (node_id ldr) s) (\<lambda>s. ret (False, s))
          | None \<Rightarrow> ret (True, s)))"

text \<open>One round: the result says whether the request is sent again.\<close>

definition init_round :: "env \<Rightarrow> int \<Rightarrow> cstate \<Rightarrow> (bool \<times> cstate) outcome" where
  "init_round E sockFd s =
     (case s of (c, r, w) \<Rightarrow>
        bnd (fetchMetadata E c sockFd w) (\<lambda>(rsp, w).
        let (bs, w) = addBrokers E (brokers rsp) (m_brokers c) w
        in createPartitions E rsp (c\<lparr>m_brokers := bs\<rparr>, r, w)))"

partial_function (option) init_loop :: "env \<Rightarrow> int \<Rightarrow> cstate \<Rightarrow> (fault + cstate) option" where
  "init_loop E sockFd s =
     (case init_round E sockFd s of
        None \<Rightarrow> None
      | Some res \<Rightarrow>
          (case res of
             Inl f \<Rightarrow> Some (Inl f)
           | Inr (again, s) \<Rightarrow> if again then init_loop E sockFd s else Some (Inr s)))"

definition KafkaClient_init :: "env \<Rightarrow> cstate \<Rightarrow> cstate outcome" where
  "KafkaClient_init E s =
     (case s of (c, r, w) \<Rightarrow>
        let (sockFd, w) = connectServer E (m_strBroker c) (m_iService c) w in
        if sockFd < 0 then stop Exit
        else bnd (init_loop E sockFd (c, r, w)) (\<lambda>(c, r, w). ret (c, r, posix_close sockFd w)))"

definition KafkaClient_new ::
  "env \<Rightarrow> Int32 \<Rightarrow> KafkaPartitionType \<Rightarrow> bool \<Rightarrow> String \<Rightarrow> Int32 \<Rightarrow> String \<Rightarrow> Int16 \<Rightarrow> KafkaClientConfig \<Rightarrow> world \<Rightarrow>
   cstate outcome" where
  "KafkaClient_new E garbage partitionType base topic part broker service config w =
     (let (_, r) = LibeventReactor_init base LibeventReactor_new
      in KafkaClient_init E (KafkaClient_fields garbage partitionType topic part broker service config, r, w))"

section \<open>Callbacks\<close>

text \<open>
  The partitions call these members; what they pass on to the application. Each returns 0.
\<close>

datatype app_call =
    App_fetched_data "String list"
  | App_produce_response String Int32 Int64
  | App_msg_queued

definition handleFetchedData :: "KafkaClient \<Rightarrow> String list \<Rightarrow> int \<times> app_call list" where
  "handleFetchedData c msgs = (0, if onFetchedData c then [App_fetched_data msgs] else [])"

definition client_handleProduceResponse :: "KafkaClient \<Rightarrow> String \<Rightarrow> Int32 \<Rightarrow> Int64 \<Rightarrow> int \<times> app_call list" where
  "client_handleProduceResponse c topic part off =
     (0, if client_onProduceResponse c then [App_produce_response topic part off] else [])"

definition handleMsgQueuedResponse :: "KafkaClient \<Rightarrow> int \<times> app_call list" where
  "handleMsgQueuedResponse c = (0, if client_onMsgQueued c then [App_msg_queued] else [])"

fun forward_action :: "KafkaClient \<Rightarrow> action \<Rightarrow> app_call list" where
  "forward_action c (On_received_data msgs) = snd (handleFetchedData c msgs)"
| "forward_action c (On_produce_response topic part off) = snd (client_handleProduceResponse c topic part off)"
| "forward_action c On_msg_queued = snd (handleMsgQueuedResponse c)"
| "forward_action c _ = []"

section \<open>Consumer and producer\<close>

fun each_partition ::
  "(pstate \<Rightarrow> pstate outcome) \<Rightarrow> KafkaPartition list \<Rightarrow> LibeventReactor \<Rightarrow> world \<Rightarrow>
   (KafkaPartition list \<times> LibeventReactor \<times> world) outcome" where
  "each_partition f [] r w = ret ([], r, w)"
| "each_partition f (p # ps) r w =
     bnd (f (p, r, w)) (\<lambda>(p, r, w).
     bnd (each_partition f ps r w) (\<lambda>(ps, r, w). ret (p # ps, r, w)))"

definition on_partitions :: "(pstate \<Rightarrow> pstate outcome) \<Rightarrow> cstate \<Rightarrow> cstate outcome" where
  "on_partitions f s =
     (case s of (c, r, w) \<Rightarrow>
        bnd (each_partition f (m_partitions c) r w) (\<lambda>(ps, r, w). ret (c\<lparr>m_partitions := ps\<rparr>, r, w)))"

definition KafkaConsumer_new ::
  "env \<Rightarrow> Int32 \<Rightarrow> bool \<Rightarrow> String \<Rightarrow> Int32 \<Rightarrow> String \<Rightarrow> Int16 \<Rightarrow> KafkaClientConfig \<Rightarrow> world \<Rightarrow> cstate outcome" where
  "KafkaConsumer_new E garbage base topic part broker service config w =
     KafkaClient_new E garbage CONSUMER_P base topic part broker service config w"

definition KafkaConsumer_startFetch :: "env \<Rightarrow> cstate \<Rightarrow> cstate outcome" where
  "KafkaConsumer_startFetch E = on_partitions (startFetch E)"

definition KafkaConsumer_pauseFetch :: "cstate \<Rightarrow> cstate outcome" where
  "KafkaConsumer_pauseFetch = on_partitions (\<lambda>s. ret (pauseFetch s))"

definition KafkaConsumer_resumeFetch :: "env \<Rightarrow> cstate \<Rightarrow> cstate outcome" where
  "KafkaConsumer_resumeFetch E = on_partitions (resumeFetch E)"

definition KafkaProducer_startProduce :: "env \<Rightarrow> cstate \<Rightarrow> cstate outcome" where
  "KafkaProducer_startProduce E = on_partitions (startProduce E)"

definition KafkaProducer_new ::
  "env \<Rightarrow> Int32 \<Rightarrow> bool \<Rightarrow> String \<Rightarrow> Int32 \<Rightarrow> String \<Rightarrow> Int16 \<Rightarrow> KafkaClientConfig \<Rightarrow> world \<Rightarrow> cstate outcome" where
  "KafkaProducer_new E garbage base topic part broker service config w =
     bnd (KafkaClient_new E garbage PRODUCER_P base topic part broker service config w)
       (KafkaProducer_startProduce E)"

text \<open>
  \<^verbatim>\<open>currPartition\<close> is a variable of the process. The statement \<^verbatim>\<open>currPartition = currPartition++\<close>
  has no defined result in C++11; what the variable holds after it is a parameter (\<open>postinc\<close>).
  Indexing a vector out of its range is undefined.
\<close>

definition on_partition ::
  "nat \<Rightarrow> (pstate \<Rightarrow> (int \<times> pstate) outcome) \<Rightarrow> cstate \<Rightarrow> cstate outcome" where
  "on_partition i f s =
     (case s of (c, r, w) \<Rightarrow>
        if i < length (m_partitions c)
        then bnd (f (m_partitions c ! i, r, w)) (\<lambda>(_, p, r, w).
          ret (c\<lparr>m_partitions := (m_partitions c)[i := p]\<rparr>, r, w))
        else stop Undefined)"

definition advance_partition :: "(Int32 \<Rightarrow> Int32) \<Rightarrow> Int32 \<Rightarrow> nat \<Rightarrow> Int32" where
  "advance_partition postinc currPartition n = ucast ((scast (postinc currPartition) :: 64 word) mod of_nat n)"

definition produce_with ::
  "(Int32 \<Rightarrow> Int32) \<Rightarrow> (pstate \<Rightarrow> (int \<times> pstate) outcome) \<Rightarrow> Int32 \<Rightarrow> cstate \<Rightarrow> (Int32 \<times> cstate) outcome" where
  "produce_with postinc f currPartition s =
     (case s of (c, r, w) \<Rightarrow>
        if client_iPartition c \<noteq> KAFKA_ALL_PARTITIONS
        then bnd (on_partition 0 f s) (\<lambda>s. ret (currPartition, s))
        else if pPartitioningMethod (client_config c) = ROUND_ROBIN
        then bnd (on_partition (unat (scast currPartition :: 64 word)) f s) (\<lambda>s.
          ret (advance_partition postinc currPartition (length (m_partitions c)), s))
        else ret (currPartition, s))"

definition KafkaProducer_produce ::
  "env \<Rightarrow> (Int32 \<Rightarrow> Int32) \<Rightarrow> String \<Rightarrow> Int32 \<Rightarrow> cstate \<Rightarrow> (Int32 \<times> cstate) outcome" where
  "KafkaProducer_produce E postinc msg currPartition s = produce_with postinc (produce E msg) currPartition s"

definition KafkaProducer_produce_list ::
  "env \<Rightarrow> (Int32 \<Rightarrow> Int32) \<Rightarrow> String list \<Rightarrow> Int32 \<Rightarrow> cstate \<Rightarrow> (Int32 \<times> cstate) outcome" where
  "KafkaProducer_produce_list E postinc msgs currPartition s =
     produce_with postinc (produce_list E msgs) currPartition s"

text \<open>Destruction: the partitions, front to back, then the reactor they refer to.\<close>

definition KafkaClient_delete :: "env \<Rightarrow> cstate \<Rightarrow> cstate outcome" where
  "KafkaClient_delete E s =
     bnd (on_partitions (KafkaPartition_delete E) s) (\<lambda>(c, r, w).
       let (r, w) = LibeventReactor_delete E r w in ret (c\<lparr>m_partitions := []\<rparr>, r, w))"

section \<open>What a client keeps\<close>

definition belongs :: "KafkaClient \<Rightarrow> KafkaPartition \<Rightarrow> bool" where
  "belongs c p \<longleftrightarrow> partition_ok p p \<and> m_strTopic p = client_strTopic c \<and> m_config p = client_config c \<and>
     m_partitionType p = client_partitionType c"

definition client_ok :: "KafkaClient \<Rightarrow> bool" where
  "client_ok c \<longleftrightarrow> list_all (belongs c) (m_partitions c)"

lemma belongs_update [simp]:
  "belongs (c\<lparr>m_numPartitions := n\<rparr>) = belongs c" "belongs (c\<lparr>m_brokers := bs\<rparr>) = belongs c"
  "belongs (c\<lparr>m_partitions := ps\<rparr>) = belongs c"
  "belongs (c\<lparr>onFetchedData := x, client_onProduceResponse := y, client_onMsgQueued := z\<rparr>) = belongs c"
  by (simp_all add: fun_eq_iff belongs_def)

lemma partition_ok_self: "partition_ok p0 p \<Longrightarrow> partition_ok p p"
  by (simp add: partition_ok_def)

lemma belongs_kept: "belongs c p \<Longrightarrow> partition_ok p p' \<Longrightarrow> belongs c p'"
  by (auto simp: belongs_def partition_ok_def)

lemma quietly_addBrokers: "addBrokers E brs bs w = (bs', w') \<Longrightarrow> quietly w w'"
proof (induction E brs bs w rule: addBrokers.induct)
  case (2 E b brs bs w)
  obtain a ip w1 where h: "hostnameToIp E (host b) w = ((a, ip), w1)" by (metis prod.exhaust)
  have "quietly w w1" using h by (rule quietly_posix(5))
  moreover have "quietly w1 w'" using 2 h by simp
  ultimately show ?case by (rule quietly_trans)
qed simp

lemma quietly_read_or_exit: "post (\<lambda>(data, w'). quietly w w') (read_or_exit E fd n w)"
  using quietly_readData [of E fd n w]
  by (auto simp: read_or_exit_def Let_def assert_that_def split: prod.splits)

text \<open>Reading the metadata is quiet once the request is written.\<close>

lemma quietly_fetchMetadata:
  assumes p: "posix_write E fd (metadata_request_bytes c) (sleep_ms 100 w) = (res, w1)"
  shows "post (\<lambda>(rsp, w'). quietly w1 w') (fetchMetadata E c fd w)"
proof -
  have "post (\<lambda>(rsp, w'). quietly w1 w') (bnd (read_or_exit E fd 4 w1) (\<lambda>(data, w).
      bnd (read_or_exit E fd (unat (ntohl (mem_load data))) w) (\<lambda>(data, w).
        (case ReadResponse ReadResponseMessage_Metadata (open_istream data)
             \<lparr>response_correlation_id = 0, brokers = [], mr_topics = []\<rparr> no_error of
           Inl e \<Rightarrow> stop (Throws e)
         | Inr (rsp, ec, _) \<Rightarrow> if is_error ec then stop Exit else ret (rsp, w)))))"
    by (rule post_bnd, rule post_mono [OF quietly_read_or_exit], clarify, rule post_bnd,
        rule post_mono [OF quietly_read_or_exit])
      (auto split: sum.splits intro: quietly_trans)
  then show ?thesis
    by (simp add: fetchMetadata_def p Let_def split: write_result.splits)
qed

context event_registry
begin

definition client_safe :: "cstate \<Rightarrow> bool" where
  "client_safe s \<longleftrightarrow> (case s of (c, r, w) \<Rightarrow> client_ok c \<and> I r w)"

lemma addPartition_safe: "client_safe s \<Longrightarrow> post client_safe (addPartition E i ldr s)"
proof -
  assume s: "client_safe s"
  obtain c r w where c: "s = (c, r, w)" by (cases s)
  have new: "post client_safe (bnd (KafkaPartition_new E (client_partitionType c) (client_strTopic c) i (m_brokers c)
      b (client_config c) r w) (\<lambda>(p, r, w). ret (c\<lparr>m_partitions := m_partitions c @
        [p\<lparr>onReceivedData := True, onProduceResponse := True, onMsgQueued := True\<rparr>]\<rparr>, r, w)))" for b
  proof (rule post_bndI [OF KafkaPartition_new_ok])
    show "I r w" using s by (simp add: c client_safe_def)
  qed (use s in \<open>auto simp: c client_safe_def client_ok_def ok_iff belongs_def partition_ok_def
        KafkaPartition_fields_def list_all_iff\<close>)
  then show ?thesis
    by (simp add: addPartition_def c find_leader_def Let_def)
qed

lemma addTopicPartition_safe: "client_safe s \<Longrightarrow> post client_safe (addTopicPartition E q s)"
  unfolding addTopicPartition_def
  by (cases s) (auto simp: Let_def client_safe_def client_ok_def intro!: addPartition_safe)

lemma createPartitions_safe: "client_safe s \<Longrightarrow> post (\<lambda>(again, s'). client_safe s') (createPartitions E rsp s)"
proof -
  assume s: "client_safe s"
  have "post (\<lambda>(again, s'). client_safe s')
      (bnd (fold_outcome (addTopicPartition E) ps s) (\<lambda>s. ret (False, s)))" for ps
    using s by (auto intro!: post_bndI [OF post_fold] addTopicPartition_safe)
  moreover have "post (\<lambda>(again, s'). client_safe s') (bnd (addPartition E i l s) (\<lambda>s. ret (False, s)))" for i l
    using s by (auto intro!: post_bndI [OF addPartition_safe])
  ultimately show ?thesis
    using s by (simp add: createPartitions_def Let_def split: prod.splits option.splits)
qed

lemma init_round_safe: "client_safe s \<Longrightarrow> post (\<lambda>(again, s'). client_safe s') (init_round E fd s)"
proof -
  assume s: "client_safe s"
  obtain c r w where c: "s = (c, r, w)" by (cases s)
  obtain res w0 where p: "posix_write E fd (metadata_request_bytes c) (sleep_ms 100 w) = (res, w0)" by fastforce
  have "I r (sleep_ms 100 w)"
    using s by (auto simp: c client_safe_def intro: I_quiet [of r w])
  then have "I r w0" using p by (rule I_write)
  then have b: "client_safe (c\<lparr>m_brokers := bs\<rparr>, r, w2)" if "quietly w0 w1" "addBrokers E brs bs0 w1 = (bs, w2)" for w1 w2 brs bs0 bs
    using s I_quiet [OF _ quietly_trans [OF that(1) quietly_addBrokers [OF that(2)]]]
    by (simp add: c client_safe_def client_ok_def)
  show ?thesis
    unfolding init_round_def c prod.case
    by (rule post_bndI [OF quietly_fetchMetadata [OF p]])
      (auto simp: Let_def b createPartitions_safe split: prod.splits)
qed

lemma init_loop_safe: "client_safe s \<Longrightarrow> post client_safe (init_loop E fd s)"
proof -
  have "init_loop E' fd s = Some res \<Longrightarrow> E' = E \<longrightarrow> client_safe s \<longrightarrow> post client_safe (Some res)" for E' fd s res
  proof (erule init_loop.raw_induct [rotated])
    fix f E' fd s res
    assume IH: "\<And>E' fd s res. f E' fd s = Some res \<Longrightarrow> E' = E \<longrightarrow> client_safe s \<longrightarrow> post client_safe (Some res)"
      and body: "(case init_round E' fd s of None \<Rightarrow> None
        | Some res \<Rightarrow>
            (case res of Inl f \<Rightarrow> Some (Inl f)
             | Inr (again, s) \<Rightarrow> if again then f E' fd s else Some (Inr s))) = Some res"
    show "E' = E \<longrightarrow> client_safe s \<longrightarrow> post client_safe (Some res)"
    proof (intro impI)
      assume E': "E' = E" and s: "client_safe s"
      from init_round_safe [OF s, of fd] body E' IH [of E fd _ res] show "post client_safe (Some res)"
        by (cases "init_round E fd s" rule: outcome_cases)
          (auto simp: ret_def stop_def post_def split: if_splits prod.splits)
    qed
  qed
  then show "client_safe s \<Longrightarrow> post client_safe (init_loop E fd s)" by (cases "init_loop E fd s") simp_all
qed

lemma client_quiet: "client_safe (c, r, w) \<Longrightarrow> quietly w w' \<Longrightarrow> client_safe (c, r, w')"
  by (auto simp: client_safe_def intro: I_quiet)

lemma client_close: "client_safe (c, r, w) \<Longrightarrow> client_safe (c, r, posix_close fd w)"
  by (erule client_quiet) (rule quietly_steps(1) [OF quietly_refl])

lemma KafkaClient_init_safe: "client_safe s \<Longrightarrow> post client_safe (KafkaClient_init E s)"
proof -
  assume s: "client_safe s"
  obtain c r w where c: "s = (c, r, w)" by (cases s)
  obtain fd w1 where k: "connectServer E (m_strBroker c) (m_iService c) w = (fd, w1)" by fastforce
  have "client_safe (c, r, w1)" using s client_quiet [OF _ quietly_connectServer [OF k]] by (simp add: c)
  then show ?thesis
    by (auto simp: KafkaClient_init_def c k intro!: post_bndI [OF init_loop_safe] client_close)
qed

lemma each_partition_safe:
  assumes f: "\<And>p0 s. ok p0 s \<Longrightarrow> post (ok p0) (f s)"
  shows "I r w \<Longrightarrow> list_all (belongs c) ps \<Longrightarrow>
    post (\<lambda>(ps', r', w'). list_all (belongs c) ps' \<and> I r' w') (each_partition f ps r w)"
proof (induction ps arbitrary: r w)
  case (Cons p ps)
  have p: "ok p (p, r, w)" using Cons.prems by (simp add: ok_iff belongs_def)
  have k: "belongs c p' \<and> I r' w'" if "ok p (p', r', w')" for p' r' w'
    using that Cons.prems(2) belongs_kept [of c p p'] by (simp add: ok_iff)
  have "post (\<lambda>(ps', r', w'). list_all (belongs c) ps' \<and> I r' w')
      (bnd (each_partition f ps r' w') (\<lambda>(ps, r, w). ret (p' # ps, r, w)))" if "ok p (p', r', w')" for p' r' w'
    by (rule post_bndI [OF Cons.IH]) (use k [OF that] Cons.prems(2) in auto)
  then show ?case
    unfolding each_partition.simps by (intro post_bndI [OF f [OF p]]) auto
qed simp

lemma on_partitions_safe:
  "(\<And>p0 s. ok p0 s \<Longrightarrow> post (ok p0) (f s)) \<Longrightarrow> client_safe s \<Longrightarrow> post client_safe (on_partitions f s)"
  unfolding on_partitions_def
  by (cases s) (auto simp: client_safe_def client_ok_def intro!: post_bndI [OF each_partition_safe])

lemma on_partition_safe:
  assumes f: "\<And>p0 s. ok p0 s \<Longrightarrow> post (\<lambda>(n, s'). ok p0 s') (f s)" and s: "client_safe s"
  shows "post client_safe (on_partition i f s)"
proof -
  obtain c r w where c: "s = (c, r, w)" by (cases s)
  show ?thesis
  proof (cases "i < length (m_partitions c)")
    case True
    let ?p = "m_partitions c ! i"
    have b: "belongs c ?p" using s True by (simp add: c client_safe_def client_ok_def list_all_length)
    then have p: "ok ?p (?p, r, w)" using s by (simp add: c client_safe_def ok_iff belongs_def)
    have "client_safe (c\<lparr>m_partitions := (m_partitions c)[i := p']\<rparr>, r', w')" if "ok ?p (p', r', w')" for p' r' w'
      using that s True belongs_kept [OF b, of p']
      by (auto simp: c client_safe_def client_ok_def ok_iff list_all_length nth_list_update)
    with True show ?thesis
      by (auto simp: on_partition_def c intro!: post_bndI [OF f [OF p]])
  qed (simp add: on_partition_def c)
qed

end

section \<open>A running client\<close>

text \<open>
  The events of a client: an event of one of its partitions, a call of the application, and the
  application setting the callbacks. The first component of the state is \<^verbatim>\<open>currPartition\<close>.
\<close>

datatype client_event =
    Partition_event nat partition_event
  | Start_fetch | Pause_fetch | Resume_fetch
  | Produce String | Produce_list "String list"
  | Set_callbacks bool bool bool

fun client_handle ::
  "env \<Rightarrow> (Int32 \<Rightarrow> Int32) \<Rightarrow> client_event \<Rightarrow> Int32 \<times> cstate \<Rightarrow> (Int32 \<times> cstate) outcome" where
  "client_handle E postinc (Partition_event i ev) (cur, s) =
     bnd (on_partition i (\<lambda>s. bnd (partition_handle E ev s) (\<lambda>s. ret (0, s))) s) (\<lambda>s. ret (cur, s))"
| "client_handle E postinc Start_fetch (cur, s) = bnd (KafkaConsumer_startFetch E s) (\<lambda>s. ret (cur, s))"
| "client_handle E postinc Pause_fetch (cur, s) = bnd (KafkaConsumer_pauseFetch s) (\<lambda>s. ret (cur, s))"
| "client_handle E postinc Resume_fetch (cur, s) = bnd (KafkaConsumer_resumeFetch E s) (\<lambda>s. ret (cur, s))"
| "client_handle E postinc (Produce msg) (cur, s) = KafkaProducer_produce E postinc msg cur s"
| "client_handle E postinc (Produce_list msgs) (cur, s) = KafkaProducer_produce_list E postinc msgs cur s"
| "client_handle E postinc (Set_callbacks x y z) (cur, (c, r, w)) =
     ret (cur, (c\<lparr>onFetchedData := x, client_onProduceResponse := y, client_onMsgQueued := z\<rparr>, r, w))"

inductive client_run :: "env \<Rightarrow> (Int32 \<Rightarrow> Int32) \<Rightarrow> Int32 \<times> cstate \<Rightarrow> bool" for E postinc where
  consumer: "events_ok (trace w) \<Longrightarrow>
    KafkaConsumer_new E garbage base topic part broker service config w = ret s \<Longrightarrow> client_run E postinc (cur, s)"
| producer: "events_ok (trace w) \<Longrightarrow>
    KafkaProducer_new E garbage base topic part broker service config w = ret s \<Longrightarrow> client_run E postinc (cur, s)"
| step: "client_run E postinc s \<Longrightarrow> client_handle E postinc ev s = ret s' \<Longrightarrow> client_run E postinc s'"

context event_registry
begin

lemma KafkaClient_new_safe:
  assumes "\<And>base. I (snd (LibeventReactor_init base LibeventReactor_new)) w"
  shows "post client_safe (KafkaClient_new E garbage ty base topic part broker service config w)"
  unfolding KafkaClient_new_def
  using assms by (auto simp: client_safe_def client_ok_def KafkaClient_fields_def split_beta
      intro!: KafkaClient_init_safe)

lemma produce_with_safe:
  assumes "\<And>p0 s. ok p0 s \<Longrightarrow> post (\<lambda>(n, s'). ok p0 s') (f s)" and "client_safe s"
  shows "post (\<lambda>(cur, s'). client_safe s') (produce_with postinc f cur s)"
  using on_partition_safe [OF assms] assms(2)
  by (auto simp: produce_with_def intro!: post_bndI split: prod.splits)

lemma client_handle_safe: "client_safe s \<Longrightarrow> post (\<lambda>(cur, s'). client_safe s') (client_handle E postinc ev (cur, s))"
proof -
  assume s: "client_safe s"
  have k: "post client_safe m \<Longrightarrow> post (\<lambda>(cur, s'). client_safe s') (bnd m (\<lambda>s. ret (cur, s)))" for m
    by (rule post_bndI) auto
  have h: "ok p0 s \<Longrightarrow> post (\<lambda>(n, s'). ok p0 s') (bnd (partition_handle E e s) (\<lambda>s. ret (0 :: int, s)))" for p0 s e
    by (rule post_bndI [OF partition_handle_ok]) auto
  have pause: "ok p0 s \<Longrightarrow> post (ok p0) (ret (pauseFetch s))" for p0 s
    by (cases s) (simp add: pauseFetch_def ok_iff partition_ok_def)
  show ?thesis
  proof (cases ev)
    case (Set_callbacks x y z)
    with s show ?thesis by (cases s) (simp add: client_safe_def client_ok_def)
  qed (use s in \<open>auto intro!: k on_partition_safe on_partitions_safe h pause startFetch_ok resumeFetch_ok
      produce_with_safe produce_ok produce_list_ok simp: KafkaConsumer_startFetch_def
      KafkaConsumer_pauseFetch_def KafkaConsumer_resumeFetch_def KafkaProducer_produce_def
      KafkaProducer_produce_list_def\<close>)
qed

end

lemma reactor_safe_new: "events_ok (trace w) \<Longrightarrow> events_safe E (snd (LibeventReactor_init base LibeventReactor_new)) w"
  by (simp add: events_safe_def reactor_safe_def LibeventReactor_init_def LibeventReactor_new_def handles_def)

lemma client_run_client_safe: "client_run E postinc s \<Longrightarrow> safe.client_safe E (snd s)"
proof (induction rule: client_run.induct)
  case (consumer w garbage base topic part broker service config s cur)
  then show ?case
    using safe.KafkaClient_new_safe [OF reactor_safe_new, of w E garbage CONSUMER_P base topic part broker service config]
    by (simp add: KafkaConsumer_new_def)
next
  case (producer w garbage base topic part broker service config s cur)
  then obtain s0 where s0: "KafkaClient_new E garbage PRODUCER_P base topic part broker service config w = ret s0"
      "KafkaProducer_startProduce E s0 = ret s"
    by (auto simp: KafkaProducer_new_def bnd_eq_ret)
  have "safe.client_safe E s0"
    using safe.KafkaClient_new_safe [OF reactor_safe_new, of w E garbage PRODUCER_P base topic part broker service config]
      s0 producer(1) by simp
  with safe.on_partitions_safe [of E "startProduce E" s0] safe.startProduce_ok s0(2) show ?case
    by (simp add: KafkaProducer_startProduce_def)
next
  case (step s ev s')
  then show ?case
    using safe.client_handle_safe [of E "snd s" postinc ev "fst s"] by (auto split: prod.splits)
qed

text \<open>C1: a client and its reactor. In every state a consumer or producer reaches, by construction and
  then by any sequence of events of its partitions and calls of the application: no libevent event
  was used after its release, released twice or used without having been created, the reactor refers
  only to events that live; and every partition still has the topic, configuration and type of the
  client, and everything in its buffer and in transit is \<open>tagged\<close>: it is filed under one of the four api
  keys, in transit only under the one of produce requests, and it is a frame whose correlation id is that key, or, under
  the key of produce requests, the C string of such a frame, which the partition queues in place of
  a refused request (and which is empty, hence no frame, when the frame starts with a zero byte).\<close>

theorem client_run_safe:
  assumes "fresh_events E" and "client_run E postinc (cur, c, r, w)"
  shows "events_ok (trace w) \<and> set (handles (m_events r)) \<subseteq> set (live_events (trace w)) \<and>
    (\<forall>p \<in> set (m_partitions c). m_strTopic p = client_strTopic c \<and> m_config p = client_config c \<and>
       m_partitionType p = client_partitionType c \<and> list_all tagged (m_dqWriteBuffers p) \<and>
       list_all (\<lambda>b. tagged (kApiKeyProduceRequest, b)) (m_qInTransitProduceRequest p))"
  using client_run_client_safe [OF assms(2)] assms(1)
  by (auto simp: safe.client_safe_def events_safe_def reactor_safe_def client_ok_def belongs_def
      partition_ok_def list_all_iff)

section \<open>The partitions a client creates\<close>

text \<open>Facts about partitions that do not depend on the reactor.\<close>

interpretation any: event_registry E "\<lambda>_ _. True" for E
  by unfold_locales (auto simp: post_iff)

lemma find_leader_result:
  assumes "find_leader l bs = ret b"
  shows "b \<in> set bs \<and> m_iId b = l"
proof -
  let ?i = "find_if (\<lambda>broker. m_iId broker = l) bs"
  have "?i < length bs" "b = bs ! ?i"
    using assms find_if_le [of "\<lambda>broker. m_iId broker = l" bs]
    by (auto simp: find_leader_def Let_def split: if_splits)
  with find_if_nth [OF this(1)] show ?thesis by simp
qed

lemma addPartition_result:
  assumes "addPartition E i ldr (c, r, w) = ret (c', r', w')"
  shows "\<exists>p. c' = c\<lparr>m_partitions := m_partitions c @ [p]\<rparr> \<and> m_iPartition p = i \<and>
      m_strTopic p = client_strTopic c \<and> m_partitionType p = client_partitionType c \<and>
      onReceivedData p \<and> onProduceResponse p \<and> onMsgQueued p"
    and "\<exists>b \<in> set (m_brokers c). m_iId b = ldr"
proof -
  obtain b p where b: "find_leader ldr (m_brokers c) = ret b"
    and n: "KafkaPartition_new E (client_partitionType c) (client_strTopic c) i (m_brokers c) b (client_config c) r w =
        ret (p, r', w')"
    and c': "c' = c\<lparr>m_partitions := m_partitions c @ [p\<lparr>onReceivedData := True, onProduceResponse := True, onMsgQueued := True\<rparr>]\<rparr>"
    using assms by (auto simp: addPartition_def bnd_eq_ret)
  have "m_iPartition p = i \<and> m_strTopic p = client_strTopic c \<and> m_partitionType p = client_partitionType c"
  proof -
    have "post (any.ok (KafkaPartition_fields (client_partitionType c) (client_strTopic c) i (m_brokers c) b (client_config c)))
        (KafkaPartition_new E (client_partitionType c) (client_strTopic c) i (m_brokers c) b (client_config c) r w)"
      by (rule any.KafkaPartition_new_ok) simp
    with n show ?thesis by (simp add: any.ok_iff partition_ok_def KafkaPartition_fields_def)
  qed
  with c' show "\<exists>p. c' = c\<lparr>m_partitions := m_partitions c @ [p]\<rparr> \<and> m_iPartition p = i \<and>
      m_strTopic p = client_strTopic c \<and> m_partitionType p = client_partitionType c \<and>
      onReceivedData p \<and> onProduceResponse p \<and> onMsgQueued p"
    by (intro exI [of _ "p\<lparr>onReceivedData := True, onProduceResponse := True, onMsgQueued := True\<rparr>"]) simp
  show "\<exists>b \<in> set (m_brokers c). m_iId b = ldr"
    using find_leader_result [OF b] by blast
qed

definition created :: "KafkaClient \<Rightarrow> KafkaPartition \<Rightarrow> bool" where
  "created c p \<longleftrightarrow> m_strTopic p = client_strTopic c \<and> m_partitionType p = client_partitionType c \<and>
     onReceivedData p \<and> onProduceResponse p \<and> onMsgQueued p"

lemma created_update [simp]:
  "created (c\<lparr>m_partitions := ps\<rparr>) = created c" "created (c\<lparr>m_brokers := bs\<rparr>) = created c"
  "created (c\<lparr>m_numPartitions := n\<rparr>) = created c"
  by (simp_all add: fun_eq_iff created_def)

lemma addTopicPartitions_result:
  "fold_outcome (addTopicPartition E) ps (c, r, w) = ret (c', r', w') \<Longrightarrow>
   map m_iPartition (m_partitions c') = map m_iPartition (m_partitions c) @ map partition_id ps \<and>
   (list_all (created c) (m_partitions c) \<longrightarrow> list_all (created c) (m_partitions c')) \<and>
   list_all (\<lambda>q. mp_error_code (partition_props q) = 0 \<and>
     (\<exists>b \<in> set (m_brokers c). m_iId b = leader (partition_props q))) ps"
proof (induction ps arbitrary: c r w)
  case (Cons q ps)
  obtain c1 r1 w1 where a: "addTopicPartition E q (c, r, w) = ret (c1, r1, w1)"
    and f: "fold_outcome (addTopicPartition E) ps (c1, r1, w1) = ret (c', r', w')"
    using Cons.prems by (auto simp: bnd_eq_ret)
  have e: "mp_error_code (partition_props q) = 0" and
    ap: "addPartition E (partition_id q) (leader (partition_props q)) (c\<lparr>m_numPartitions := m_numPartitions c + 1\<rparr>, r, w) =
      ret (c1, r1, w1)"
    using a by (auto simp: addTopicPartition_def Let_def split: if_splits)
  obtain p where p: "c1 = c\<lparr>m_numPartitions := m_numPartitions c + 1, m_partitions := m_partitions c @ [p]\<rparr>"
      "m_iPartition p = partition_id q" "created c p"
    using addPartition_result(1) [OF ap] by (auto simp: created_def)
  have "\<exists>b \<in> set (m_brokers c). m_iId b = leader (partition_props q)"
    using addPartition_result(2) [OF ap] by simp
  with Cons.IH [OF f] p e show ?case by simp
qed simp

lemma addTopicPartitions_static:
  "fold_outcome (addTopicPartition E) ps (c, r, w) = ret (c', r', w') \<Longrightarrow>
   client_strTopic c' = client_strTopic c \<and> client_iPartition c' = client_iPartition c \<and>
   client_partitionType c' = client_partitionType c"
proof (induction ps arbitrary: c r w)
  case (Cons q ps)
  obtain c1 r1 w1 where a: "addTopicPartition E q (c, r, w) = ret (c1, r1, w1)"
    and f: "fold_outcome (addTopicPartition E) ps (c1, r1, w1) = ret (c', r', w')"
    using Cons.prems by (auto simp: bnd_eq_ret)
  have "addPartition E (partition_id q) (leader (partition_props q)) (c\<lparr>m_numPartitions := m_numPartitions c + 1\<rparr>, r, w) =
      ret (c1, r1, w1)"
    using a by (auto simp: addTopicPartition_def Let_def split: if_splits)
  from addPartition_result(1) [OF this] Cons.IH [OF f] show ?case by auto
qed simp

text \<open>The partitions of a client after a round that ends the loop.\<close>

definition partitions_wanted :: "KafkaClient \<Rightarrow> MetadataResponse \<Rightarrow> Int32 list \<Rightarrow> bool" where
  "partitions_wanted c rsp ids \<longleftrightarrow>
     (if client_iPartition c = KAFKA_ALL_PARTITIONS
      then (\<exists>t \<in> set (mr_topics rsp). topic_name t = client_strTopic c \<and> ids = map partition_id (partitions t) \<and> partitions t \<noteq> [] \<and>
        list_all (\<lambda>q. mp_error_code (partition_props q) = 0) (partitions t))
      else ids = [client_iPartition c])"

lemma createPartitions_result:
  assumes "createPartitions E rsp (c, r, w) = ret (again, c', r', w')" and "m_partitions c = []"
  shows "client_strTopic c' = client_strTopic c \<and> client_iPartition c' = client_iPartition c \<and>
    client_partitionType c' = client_partitionType c \<and>
    (if again then m_partitions c' = []
     else partitions_wanted c rsp (map m_iPartition (m_partitions c')) \<and> list_all (created c) (m_partitions c'))"
proof (cases "client_iPartition c = KAFKA_ALL_PARTITIONS")
  case True
  let ?it = "FindTopicByName_const (client_strTopic c) (mr_topics rsp)"
  let ?t = "mr_topics rsp ! ?it"
  have it: "?it < length (mr_topics rsp)"
    using assms(1) True find_if_le [of "IsTopicWithName (client_strTopic c)" "mr_topics rsp"]
    by (auto simp: createPartitions_def Let_def FindTopicByName_const_def split: if_splits)
  then have t: "?t \<in> set (mr_topics rsp)" "topic_name ?t = client_strTopic c"
    using find_if_nth [of "IsTopicWithName (client_strTopic c)" "mr_topics rsp"]
    by (simp_all add: FindTopicByName_const_def IsTopicWithName_def)
  show ?thesis
  proof (cases "partitions ?t = []")
    case e: True
    with assms True it show ?thesis by (auto simp: createPartitions_def Let_def)
  next
    case False
    then have f: "fold_outcome (addTopicPartition E) (partitions ?t) (c, r, w) = ret (c', r', w')" "\<not> again"
      using assms(1) True it by (auto simp: createPartitions_def Let_def bnd_eq_ret)
    have "partitions_wanted c rsp (map m_iPartition (m_partitions c'))"
      using addTopicPartitions_result [OF f(1)] assms(2) t False True
      unfolding partitions_wanted_def by (simp add: list_all_iff) blast
    with addTopicPartitions_result [OF f(1)] addTopicPartitions_static [OF f(1)] f(2) assms(2) show ?thesis by simp
  qed
next
  case False
  then consider "again" "c' = c"
    | (one) ldr :: Broker where "\<not> again" "addPartition E (client_iPartition c) (node_id ldr) (c, r, w) = ret (c', r', w')"
    using assms by (auto simp: createPartitions_def bnd_eq_ret split: option.splits)
  then show ?thesis
  proof cases
    case one
    from addPartition_result(1) [OF one(2)] one(1) False assms(2) show ?thesis
      by (auto simp: partitions_wanted_def created_def)
  qed (use assms(2) in simp)
qed

definition answered :: "env \<Rightarrow> int \<Rightarrow> KafkaClient \<Rightarrow> MetadataResponse \<Rightarrow> bool" where
  "answered E fd c rsp \<longleftrightarrow>
     (\<exists>c0 w0 w1. client_strTopic c0 = client_strTopic c \<and> fetchMetadata E c0 fd w0 = ret (rsp, w1))"

lemma init_loop_result:
  assumes "init_loop E fd (c, r, w) = ret (c', r', w')" and "m_partitions c = []"
  shows "\<exists>rsp. answered E fd c rsp \<and> partitions_wanted c rsp (map m_iPartition (m_partitions c')) \<and> list_all (created c) (m_partitions c')"
proof -
  have "init_loop E fd s = Some res \<Longrightarrow> \<forall>c r w c' r' w'. s = (c, r, w) \<longrightarrow> res = Inr (c', r', w') \<longrightarrow> m_partitions c = [] \<longrightarrow>
     (\<exists>rsp. answered E fd c rsp \<and> partitions_wanted c rsp (map m_iPartition (m_partitions c')) \<and> list_all (created c) (m_partitions c'))"
    for E fd s res
  proof (erule init_loop.raw_induct [rotated])
    fix f E fd s res
    assume IH: "\<And>E fd s res. f E fd s = Some res \<Longrightarrow> \<forall>c r w c' r' w'. s = (c, r, w) \<longrightarrow> res = Inr (c', r', w') \<longrightarrow>
        m_partitions c = [] \<longrightarrow>
        (\<exists>rsp. answered E fd c rsp \<and> partitions_wanted c rsp (map m_iPartition (m_partitions c')) \<and> list_all (created c) (m_partitions c'))"
      and body: "(case init_round E fd s of None \<Rightarrow> None
        | Some res \<Rightarrow>
            (case res of Inl f \<Rightarrow> Some (Inl f)
             | Inr (again, s) \<Rightarrow> if again then f E fd s else Some (Inr s))) = Some res"
    show "\<forall>c r w c' r' w'. s = (c, r, w) \<longrightarrow> res = Inr (c', r', w') \<longrightarrow> m_partitions c = [] \<longrightarrow>
        (\<exists>rsp. answered E fd c rsp \<and> partitions_wanted c rsp (map m_iPartition (m_partitions c')) \<and> list_all (created c) (m_partitions c'))"
    proof (intro allI impI)
      fix c r w c' r' w'
      assume s: "s = (c, r, w)" and res: "res = Inr (c', r', w')" and e: "m_partitions c = []"
      obtain again c1 r1 w1 where i: "init_round E fd (c, r, w) = ret (again, c1, r1, w1)"
        and n: "if again then f E fd (c1, r1, w1) = Some res else (c', r', w') = (c1, r1, w1)"
        using body s res by (cases "init_round E fd (c, r, w)" rule: outcome_cases)
          (auto simp: ret_def stop_def split: if_splits prod.splits)
      obtain rsp bs w0 wa wb where fm: "fetchMetadata E c fd wa = ret (rsp, wb)"
        and "createPartitions E rsp (c\<lparr>m_brokers := bs\<rparr>, r, w0) = ret (again, c1, r1, w1)"
        using i by (auto simp: init_round_def bnd_eq_ret Let_def split_beta)
      from createPartitions_result [OF this(2)] e have cp: "client_strTopic c1 = client_strTopic c"
          "client_iPartition c1 = client_iPartition c" "client_partitionType c1 = client_partitionType c"
          "if again then m_partitions c1 = [] else partitions_wanted c rsp (map m_iPartition (m_partitions c1)) \<and>
             list_all (created c) (m_partitions c1)"
        by (auto simp: partitions_wanted_def split: if_splits)
      then have "created c1 = created c" "partitions_wanted c1 = partitions_wanted c" "answered E fd c1 = answered E fd c"
        by (simp_all add: fun_eq_iff created_def partitions_wanted_def answered_def)
      moreover have "answered E fd c rsp" using fm by (auto simp: answered_def)
      ultimately show "\<exists>rsp. answered E fd c rsp \<and> partitions_wanted c rsp (map m_iPartition (m_partitions c')) \<and> list_all (created c) (m_partitions c')"
        using cp n res IH [of E fd "(c1, r1, w1)" res] by (cases again) auto
    qed
  qed
  with assms show ?thesis by (simp add: ret_def)
qed

text \<open>C16: the partitions of a client. When the constructor of a client returns, it has created, from
  some metadata answer of the broker, exactly the partitions wanted: the one it was given, or, for
  all partitions, one for each partition of the topic in that answer, in that order, at least one and
  none with an error code. Each has the topic and type of the client and its callbacks set.\<close>

theorem KafkaClient_partitions:
  assumes "KafkaClient_new E garbage ty base topic part broker service config w = ret (c', r', w')"
  shows "\<exists>c0 w0 w1 rsp. fetchMetadata E c0 (fst (connectServer E broker service w)) w0 = ret (rsp, w1) \<and>
    client_strTopic c0 = topic \<and>
    (if part = KAFKA_ALL_PARTITIONS
      then (\<exists>t \<in> set (mr_topics rsp). topic_name t = topic \<and>
        map m_iPartition (m_partitions c') = map partition_id (partitions t) \<and> partitions t \<noteq> [] \<and>
        list_all (\<lambda>q. mp_error_code (partition_props q) = 0) (partitions t))
      else map m_iPartition (m_partitions c') = [part]) \<and>
    list_all (\<lambda>p. m_strTopic p = topic \<and> m_partitionType p = ty \<and>
      onReceivedData p \<and> onProduceResponse p \<and> onMsgQueued p) (m_partitions c')"
proof -
  let ?c = "KafkaClient_fields garbage ty topic part broker service config"
  let ?fd = "fst (connectServer E broker service w)"
  obtain r w0 w1 where "init_loop E ?fd (?c, r, w0) = ret (c', r', w1)"
    using assms by (auto simp: KafkaClient_new_def KafkaClient_init_def KafkaClient_fields_def Let_def bnd_eq_ret
        split: prod.splits if_splits)
  from init_loop_result [OF this] obtain rsp where "answered E ?fd ?c rsp"
    "partitions_wanted ?c rsp (map m_iPartition (m_partitions c'))" "list_all (created ?c) (m_partitions c')"
    by (auto simp: KafkaClient_fields_def)
  then show ?thesis
    unfolding answered_def partitions_wanted_def created_def [abs_def] KafkaClient_fields_def
    by (simp only: KafkaClient.select_convs) blast
qed

end
