(* ===== verification/Client_Views.thy ===== *)
theory Client_Views
  imports Consumer_Run Producer_Run Kafka_Client "HOL-Library.Multiset"
begin

text \<open>
  From the partitions to their client. The partitions of a client share the reactor and the process, and
  each event of the client is an event of one partition, or a call that goes to one or to all of them.
  The locale \<open>client_views\<close> lifts what is known of single partitions: a history per partition, and the
  history of the client, which is an interleaving of them.
\<close>

section \<open>Interleavings\<close>

text \<open>A list that is put together from the lists of a list, piece by piece from their fronts.\<close>

inductive interleaving :: "'a list list \<Rightarrow> 'a list \<Rightarrow> bool" where
  empty: "interleaving (replicate n []) []"
| add: "interleaving xss ys \<Longrightarrow> i < length xss \<Longrightarrow> interleaving (xss[i := xss ! i @ zs]) (ys @ zs)"

lemma interleaving_map:
  assumes "f [] = []" and "\<And>xs ys. f (xs @ ys) = f xs @ f ys"
  shows "interleaving xss ys \<Longrightarrow> interleaving (map f xss) (f ys)"
proof (induction rule: interleaving.induct)
  case (empty n)
  then show ?case using interleaving.empty [of n] by (simp add: assms(1))
next
  case (add xss ys i zs)
  from interleaving.add [OF add.IH, of i "f zs"] add.hyps(2) show ?case
    by (simp add: assms(2) map_update)
qed

lemma interleaving_mset: "interleaving xss ys \<Longrightarrow> mset (concat xss) = mset ys"
proof (induction rule: interleaving.induct)
  case (empty n)
  then show ?case by (induction n) simp_all
next
  case (add xss ys i zs)
  have "xss = take i xss @ xss ! i # drop (Suc i) xss" using add.hyps(2) by (rule id_take_nth_drop)
  then have "mset (concat xss) = mset (concat (take i xss)) + mset (xss ! i) + mset (concat (drop (Suc i) xss))"
    by (metis add.assoc concat.simps(2) concat_append mset_append)
  with add show ?case by (simp add: upd_conv_take_nth_drop ac_simps)
qed

lemma interleaving_subseq: "interleaving xss ys \<Longrightarrow> i < length xss \<Longrightarrow> subseq (xss ! i) ys"
  by (induction rule: interleaving.induct)
    (auto simp: nth_list_update list_emb_append_mono intro: subseq_rev_drop_many)

section \<open>Views of a client\<close>

text \<open>
  \<open>V i xs p\<close>: the partition with index \<open>i\<close> has the history \<open>xs\<close>; \<open>J ys w\<close>: the process shows the history \<open>ys\<close>
  of the client. The calls that go to all partitions only add what is \<open>inert\<close>.
\<close>

locale client_views =
  fixes E :: env and V :: "nat \<Rightarrow> 'h list \<Rightarrow> KafkaPartition \<Rightarrow> bool" and J :: "'h list \<Rightarrow> world \<Rightarrow> bool"
    and inert :: "'h \<Rightarrow> bool"
  assumes V_start: "V i xs p \<Longrightarrow> J ys w \<Longrightarrow>
      post (\<lambda>(p', r', w'). \<exists>zs. list_all inert zs \<and> V i (xs @ zs) p' \<and> J (ys @ zs) w') (startFetch E (p, r, w))"
    and V_pause: "V i xs p \<Longrightarrow> J ys w \<Longrightarrow>
      post (\<lambda>(p', r', w'). \<exists>zs. list_all inert zs \<and> V i (xs @ zs) p' \<and> J (ys @ zs) w') (ret (pauseFetch (p, r, w)))"
    and V_resume: "V i xs p \<Longrightarrow> J ys w \<Longrightarrow>
      post (\<lambda>(p', r', w'). \<exists>zs. list_all inert zs \<and> V i (xs @ zs) p' \<and> J (ys @ zs) w') (resumeFetch E (p, r, w))"
begin

definition view :: "nat \<Rightarrow> 'h list \<Rightarrow> cstate \<Rightarrow> bool" where
  "view n ys s \<longleftrightarrow>
     (case s of (c, r, w) \<Rightarrow>
        length (m_partitions c) = n \<and> J ys w \<and>
        (\<exists>xss. length xss = n \<and> (\<forall>i < n. V i (xss ! i) (m_partitions c ! i)) \<and> interleaving xss ys))"

lemma on_partition_view:
  assumes "view n ys (c, r, w)"
    and f: "\<And>xs. i < n \<Longrightarrow> V i xs (m_partitions c ! i) \<Longrightarrow> J ys w \<Longrightarrow> subseq xs ys \<Longrightarrow>
      post (\<lambda>(k, p', r', w'). \<exists>zs. Z zs \<and> V i (xs @ zs) p' \<and> J (ys @ zs) w') (f (m_partitions c ! i, r, w))"
  shows "post (\<lambda>s'. \<exists>zs. Z zs \<and> view n (ys @ zs) s') (on_partition i f (c, r, w))"
proof (cases "i < n")
  case True
  obtain xss where v: "length (m_partitions c) = n" "J ys w" "length xss = n"
      "\<forall>i < n. V i (xss ! i) (m_partitions c ! i)" "interleaving xss ys"
    using assms(1) by (auto simp: view_def)
  have "view n (ys @ zs) (c\<lparr>m_partitions := (m_partitions c)[i := p']\<rparr>, r', w')"
    if "V i (xss ! i @ zs) p'" "J (ys @ zs) w'" for zs p' r' w'
    using that v True interleaving.add [OF v(5), of i zs]
    by (auto simp: view_def nth_list_update intro!: exI [of _ "xss[i := xss ! i @ zs]"])
  then have "post (\<lambda>s'. \<exists>zs. Z zs \<and> view n (ys @ zs) s')
      (bnd (f (m_partitions c ! i, r, w)) (\<lambda>(_, p, r, w). ret (c\<lparr>m_partitions := (m_partitions c)[i := p]\<rparr>, r, w)))"
    using v True interleaving_subseq [OF v(5)] by (intro post_bndI [OF f [of "xss ! i"]]) (auto, blast)
  with v True show ?thesis by (simp add: on_partition_def)
next
  case False
  with assms(1) show ?thesis by (simp add: on_partition_def view_def)
qed

lemma each_partition_view:
  assumes f: "\<And>i xs ys p r w. V i xs p \<Longrightarrow> J ys w \<Longrightarrow>
      post (\<lambda>(p', r', w'). \<exists>zs. list_all inert zs \<and> V i (xs @ zs) p' \<and> J (ys @ zs) w') (f (p, r, w))"
  shows "length xss = k + length ps \<Longrightarrow> \<forall>j < length ps. V (k + j) (xss ! (k + j)) (ps ! j) \<Longrightarrow> J ys w \<Longrightarrow> interleaving xss ys \<Longrightarrow>
    post (\<lambda>(ps', r', w'). \<exists>zs xss'. list_all inert zs \<and> length xss' = length xss \<and> length ps' = length ps \<and>
        take k xss' = take k xss \<and> (\<forall>j < length ps. V (k + j) (xss' ! (k + j)) (ps' ! j)) \<and>
        J (ys @ zs) w' \<and> interleaving xss' (ys @ zs)) (each_partition f ps r w)"
proof (induction ps arbitrary: k xss ys r w)
  case Nil
  then show ?case by (auto intro!: exI [of _ "[]"] exI [of _ xss])
next
  case (Cons p ps)
  let ?Q = "\<lambda>(ps', r', w'). \<exists>zs xss'. list_all inert zs \<and> length xss' = length xss \<and> length ps' = length (p # ps) \<and>
        take k xss' = take k xss \<and> (\<forall>j < length (p # ps). V (k + j) (xss' ! (k + j)) (ps' ! j)) \<and>
        J (ys @ zs) w' \<and> interleaving xss' (ys @ zs)"
  have "post ?Q (bnd (each_partition f ps r1 w1) (\<lambda>(ps, r, w). ret (p1 # ps, r, w)))"
    if p1: "list_all inert zs" "V k (xss ! k @ zs) p1" "J (ys @ zs) w1" for p1 r1 w1 zs
  proof -
    let ?xss = "xss[k := xss ! k @ zs]"
    have k: "k < length xss" using Cons.prems(1) by simp
    have "\<forall>j < length ps. V (Suc k + j) (?xss ! (Suc k + j)) (ps ! j)"
      using Cons.prems(2) by (metis Suc_less_eq add_Suc_shift length_Cons less_add_Suc1 nat_neq_iff nth_Cons_Suc nth_list_update_neq)
    note IH = Cons.IH [of ?xss "Suc k" "ys @ zs" w1, OF _ this p1(3) interleaving.add [OF Cons.prems(4) k]]
    have q: "?Q (p1 # ps', r', w')"
      if "list_all inert zs'" "length xss' = length ?xss" "length ps' = length ps" "take (Suc k) xss' = take (Suc k) ?xss"
        "\<forall>j < length ps. V (Suc k + j) (xss' ! (Suc k + j)) (ps' ! j)" "J ((ys @ zs) @ zs') w'" "interleaving xss' ((ys @ zs) @ zs')"
      for ps' r' w' zs' xss'
    proof -
      have "xss' ! k = ?xss ! k" "take k xss' = take k ?xss"
        using that(2,4) k by (metis lessI nth_take, metis take_take min.absorb1 lessI less_imp_le)
      then have "V k (xss' ! k) p1" "take k xss' = take k xss" using p1(2) k by simp_all
      then have "\<forall>j < length (p # ps). V (k + j) (xss' ! (k + j)) ((p1 # ps') ! j)"
        using that(5) by (auto simp: nth_Cons split: nat.splits)
      with that p1(1) \<open>take k xss' = take k xss\<close> show ?thesis
        by (auto intro!: exI [of _ "zs @ zs'"] exI [of _ xss'])
    qed
    show ?thesis
      by (rule post_bndI [OF IH]) (use Cons.prems(1) q in \<open>auto simp del: length_Cons\<close>)
  qed
  note rest = this
  have "V k (xss ! k) p" using Cons.prems(2) by (metis add_0_right length_Cons nth_Cons_0 zero_less_Suc)
  note first = f [OF this Cons.prems(3), of r]
  show ?case
    unfolding each_partition.simps
    by (rule post_bndI [OF first], elim case_prodE exE conjE) (hypsubst, simp only: prod.case, erule (2) rest)
qed

lemma on_partitions_view:
  assumes f: "\<And>i xs ys p r w. V i xs p \<Longrightarrow> J ys w \<Longrightarrow>
      post (\<lambda>(p', r', w'). \<exists>zs. list_all inert zs \<and> V i (xs @ zs) p' \<and> J (ys @ zs) w') (f (p, r, w))"
    and "view n ys s"
  shows "post (\<lambda>s'. \<exists>zs. list_all inert zs \<and> view n (ys @ zs) s') (on_partitions f s)"
proof -
  obtain c r w where c: "s = (c, r, w)" by (cases s)
  obtain xss where v: "length (m_partitions c) = n" "J ys w" "length xss = n"
      "\<forall>i < n. V i (xss ! i) (m_partitions c ! i)" "interleaving xss ys"
    using assms(2) by (auto simp: view_def c)
  have "post (\<lambda>(ps', r', w'). \<exists>zs xss'. list_all inert zs \<and> length xss' = n \<and> length ps' = n \<and>
        (\<forall>j < n. V j (xss' ! j) (ps' ! j)) \<and> J (ys @ zs) w' \<and> interleaving xss' (ys @ zs)) (each_partition f (m_partitions c) r w)"
    using each_partition_view [of f xss 0 "m_partitions c" ys w r] f v by (auto elim!: post_mono)
  then show ?thesis
    unfolding on_partitions_def c prod.case by (rule post_bndI) (auto simp: view_def, blast)
qed

end

section \<open>Events of a client\<close>

fun sets_callbacks :: "client_event \<Rightarrow> bool" where
  "sets_callbacks (Set_callbacks _ _ _) \<longleftrightarrow> True"
| "sets_callbacks _ \<longleftrightarrow> False"

definition same_setup :: "KafkaClient \<Rightarrow> KafkaClient \<Rightarrow> bool" where
  "same_setup c c' \<longleftrightarrow> client_config c' = client_config c \<and> client_iPartition c' = client_iPartition c"

lemma only_partitions:
  "post (\<lambda>(c', s'). \<exists>ps. c' = c\<lparr>m_partitions := ps\<rparr>) (on_partition i f (c, r, w))"
  "post (\<lambda>(c', s'). \<exists>ps. c' = c\<lparr>m_partitions := ps\<rparr>) (on_partitions g (c, r, w))"
  by (auto simp: on_partition_def on_partitions_def post_iff bnd_eq_ret)

lemma produce_with_only_partitions:
  "post (\<lambda>(cur', c', s'). \<exists>ps. c' = c\<lparr>m_partitions := ps\<rparr>) (produce_with postinc f cur (c, r, w))"
proof -
  have "c = c\<lparr>m_partitions := m_partitions c\<rparr>" by simp
  then have "\<exists>ps. c = c\<lparr>m_partitions := ps\<rparr>" by blast
  then show ?thesis
    using only_partitions(1) unfolding produce_with_def
    by (auto intro!: post_bndI [OF only_partitions(1)])
qed

lemma client_handle_only_partitions:
  "\<not> sets_callbacks ev \<Longrightarrow>
   post (\<lambda>(cur', c', s'). \<exists>ps. c' = c\<lparr>m_partitions := ps\<rparr>) (client_handle E postinc ev (cur, c, r, w))"
  by (cases ev) (auto simp: KafkaConsumer_startFetch_def KafkaConsumer_pauseFetch_def KafkaConsumer_resumeFetch_def
      KafkaProducer_produce_def KafkaProducer_produce_list_def produce_with_only_partitions
      intro!: post_bndI [OF only_partitions(1)] post_bndI [OF only_partitions(2)])

lemma client_handle_setup:
  "post (\<lambda>(cur', c', s'). same_setup c c') (client_handle E postinc ev (cur, c, r, w))"
proof (cases "sets_callbacks ev")
  case True
  then show ?thesis by (cases ev) (simp_all add: same_setup_def)
next
  case False
  then show ?thesis by (intro post_mono [OF client_handle_only_partitions]) (auto simp: same_setup_def)
qed

text \<open>The event of a partition that an event of the client comes down to.\<close>

fun goes_to :: "client_event \<Rightarrow> nat \<Rightarrow> partition_event \<Rightarrow> bool" where
  "goes_to (Partition_event j e) i ev \<longleftrightarrow> j = i \<and> e = ev"
| "goes_to (Produce m) i ev \<longleftrightarrow> ev = Call_produce m"
| "goes_to (Produce_list ms) i ev \<longleftrightarrow> ev = Call_produce_list ms"
| "goes_to _ i ev \<longleftrightarrow> False"

text \<open>The application can choose a way to partition that is not implemented: such messages go nowhere.\<close>

definition routed :: "KafkaClient \<Rightarrow> bool" where
  "routed c \<longleftrightarrow> client_iPartition c \<noteq> KAFKA_ALL_PARTITIONS \<or> pPartitioningMethod (client_config c) = ROUND_ROBIN"

lemma on_partition_result: "on_partition i f s = on_partition i (\<lambda>s. bnd (bnd (f s) (\<lambda>(_, s). ret s)) (\<lambda>s. ret (0, s))) s"
proof -
  have "bnd m (\<lambda>(_, p, r, w). k p r w) = bnd (bnd (bnd m (\<lambda>(_, s). ret s)) (\<lambda>s. ret (0 :: int, s))) (\<lambda>(_, p, r, w). k p r w)"
    for m :: "(int \<times> pstate) outcome" and k :: "KafkaPartition \<Rightarrow> LibeventReactor \<Rightarrow> world \<Rightarrow> cstate outcome"
    by (cases m rule: outcome_cases) (simp_all split: prod.splits)
  then show ?thesis by (simp add: on_partition_def split: prod.splits)
qed

lemma produce_with_eq:
  "produce_with postinc f cur (c, r, w) =
     (if client_iPartition c \<noteq> KAFKA_ALL_PARTITIONS \<or> pPartitioningMethod (client_config c) = ROUND_ROBIN
      then bnd (on_partition (if client_iPartition c \<noteq> KAFKA_ALL_PARTITIONS then 0 else unat (scast cur :: 64 word))
          (\<lambda>s. bnd (bnd (f s) (\<lambda>(_, s). ret s)) (\<lambda>s. ret (0, s))) (c, r, w))
        (\<lambda>s. ret (if client_iPartition c \<noteq> KAFKA_ALL_PARTITIONS then cur
                   else advance_partition postinc cur (length (m_partitions c)), s))
      else ret (cur, c, r, w))"
  using on_partition_result [of _ f] by (simp add: produce_with_def)

context client_views
begin

lemma client_handle_view:
  assumes v: "view n ys (c, r, w)"
    and f: "\<And>i e xs. goes_to ev i e \<Longrightarrow> i < n \<Longrightarrow> V i xs (m_partitions c ! i) \<Longrightarrow> J ys w \<Longrightarrow> subseq xs ys \<Longrightarrow>
      post (\<lambda>(p', r', w'). \<exists>zs. Z zs \<and> V i (xs @ zs) p' \<and> J (ys @ zs) w') (partition_handle E e (m_partitions c ! i, r, w))"
    and inert: "\<And>zs. \<nexists>i e. goes_to ev i e \<Longrightarrow> list_all inert zs \<Longrightarrow> Z zs"
    and unrouted: "\<not> routed c \<Longrightarrow> Z []"
  shows "post (\<lambda>(cur', s'). \<exists>zs. Z zs \<and> view n (ys @ zs) s') (client_handle E postinc ev (cur, c, r, w))"
proof -
  let ?Q = "\<lambda>s'. \<exists>zs. Z zs \<and> view n (ys @ zs) s'"
  have k: "post ?Q m \<Longrightarrow> post (\<lambda>(cur', s'). ?Q s') (bnd m (\<lambda>s. ret (cur', s)))" for m and cur' :: Int32
    by (rule post_bndI) auto
  have one: "post ?Q (on_partition i (\<lambda>s. bnd (partition_handle E e s) (\<lambda>s. ret (0, s))) (c, r, w))" if "goes_to ev i e" for i e
    by (rule on_partition_view [OF v], rule post_bndI [OF f [OF that]]) auto
  have all: "post ?Q (on_partitions g (c, r, w))"
    if g: "\<And>i xs ys p r w. V i xs p \<Longrightarrow> J ys w \<Longrightarrow>
      post (\<lambda>(p', r', w'). \<exists>zs. list_all inert zs \<and> V i (xs @ zs) p' \<and> J (ys @ zs) w') (g (p, r, w))"
      and "\<nexists>i e. goes_to ev i e" for g
    using that(2) inert by (intro post_mono [OF on_partitions_view [where f = g, OF _ v]]) (auto intro: g)
  have call: "post (\<lambda>(cur', s'). ?Q s') (produce_with postinc h cur (c, r, w))"
    if "\<And>s. bnd (h s) (\<lambda>(_, s). ret s) = partition_handle E e s" "\<And>i. goes_to ev i e" for h e
    unfolding produce_with_eq that(1) using v unrouted by (auto simp: routed_def intro!: k one that(2) exI [of _ "[]"])
  show ?thesis
  proof (cases ev)
    case (Partition_event i e)
    then show ?thesis using k [OF one [of i e], of cur] by simp
  next
    case (Set_callbacks x y z)
    then have "Z []" using inert [of "[]"] by simp
    moreover have "view n (ys @ []) (c\<lparr>onFetchedData := x, client_onProduceResponse := y, client_onMsgQueued := z\<rparr>, r, w)"
      using v by (simp add: view_def)
    ultimately show ?thesis using Set_callbacks by (simp, blast)
  next
    case (Produce m)
    then show ?thesis using call [of "produce E m" "Call_produce m"] by (simp add: KafkaProducer_produce_def)
  next
    case (Produce_list ms)
    then show ?thesis using call [of "produce_list E ms" "Call_produce_list ms"] by (simp add: KafkaProducer_produce_list_def)
  next
    case Pause_fetch
    then show ?thesis
      using k [OF all [of "\<lambda>s. ret (pauseFetch s)", OF V_pause], of cur] by (simp add: KafkaConsumer_pauseFetch_def)
  qed (simp_all add: KafkaConsumer_startFetch_def KafkaConsumer_resumeFetch_def k all V_start V_resume)
qed

end

lemma run_only_partitions:
  "list_all (\<lambda>ev. \<not> sets_callbacks ev) evs \<Longrightarrow>
   post (\<lambda>(cur', c', s'). \<exists>ps. c' = c\<lparr>m_partitions := ps\<rparr>) (fold_outcome (client_handle E postinc) evs (cur, c, r, w))"
proof (induction evs arbitrary: cur c r w)
  case Nil
  have "c = c\<lparr>m_partitions := m_partitions c\<rparr>" by simp
  then show ?case by (auto intro: exI [of _ "m_partitions c"])
next
  case (Cons ev evs)
  have "post (\<lambda>(cur', c', s'). \<exists>ps. c' = c\<lparr>m_partitions := ps\<rparr>) (fold_outcome (client_handle E postinc) evs (cur1, c\<lparr>m_partitions := qs\<rparr>, r1, w1))"
    for cur1 qs r1 w1
    using Cons.prems by (intro post_mono [OF Cons.IH [where c = "c\<lparr>m_partitions := qs\<rparr>"]]) auto
  with client_handle_only_partitions [of ev c E postinc cur r w] Cons.prems show ?case
    by (auto intro!: post_bndI simp del: client_handle.simps)
qed

end
