(* ===== verification/Client_Delivery.thy ===== *)
theory Client_Delivery
  imports Client_Views
begin

text \<open>
  A consumer with all its partitions: what the application is given is an interleaving of the logs of
  the partitions. The view of a partition is the part of its log that it has passed.
\<close>

section \<open>The view of a partition\<close>

definition taken :: "(nat \<Rightarrow> MessageAndOffset list) \<Rightarrow> (nat \<Rightarrow> Int64) \<Rightarrow> nat \<Rightarrow> String list \<Rightarrow> KafkaPartition \<Rightarrow> bool" where
  "taken plog start i xs p \<longleftrightarrow>
     onReceivedData p \<and> sint (start i) \<le> sint (m_iNextFetchOffset p) \<and>
     xs = List.map_filter msg_value (log_range (plog i) (sint (start i)) (sint (m_iNextFetchOffset p)))"

lemma taken_stays: "taken plog start i xs p \<Longrightarrow> deliveries (trace w) = ds \<Longrightarrow> stays p (m_iNextFetchOffset p) ds (p, r, w)"
  by (simp add: taken_def stays_def)

lemma stays_taken:
  assumes "taken plog start i xs p" and "post (stays p (m_iNextFetchOffset p) (ds0 @ ys)) m"
  shows "post (\<lambda>(p', r', w'). \<exists>zs. list_all (\<lambda>_. True) zs \<and> taken plog start i (xs @ zs) p' \<and>
    deliveries (trace w') = ds0 @ ys @ zs) m"
  using assms(1) by (intro post_mono [OF assms(2)]) (auto simp: taken_def stays_def)

lemma moved_taken:
  assumes "taken plog start i xs p" and "in_order (plog i)" and "moved (plog i) p (m_iNextFetchOffset p) ds (p', r', w')"
  shows "\<exists>zs. taken plog start i (xs @ zs) p' \<and> deliveries (trace w') = ds @ zs"
proof -
  obtain n where n: "sint (m_iNextFetchOffset p) \<le> sint n"
      "stays p n (ds @ List.map_filter msg_value (log_range (plog i) (sint (m_iNextFetchOffset p)) (sint n))) (p', r', w')"
    using assms(3) by (auto simp: moved_def)
  have "log_range (plog i) (sint (start i)) (sint n) =
      log_range (plog i) (sint (start i)) (sint (m_iNextFetchOffset p)) @
      log_range (plog i) (sint (m_iNextFetchOffset p)) (sint n)"
    using assms(1) n(1) by (intro log_range_split [OF assms(2)]) (simp_all add: taken_def)
  with assms(1) n show ?thesis
    by (auto simp: taken_def stays_def map_filter_def)
qed

interpretation reading_all: client_views E "taken plog start" "\<lambda>ys w. deliveries (trace w) = ds0 @ ys" "\<lambda>_. True"
  for E plog start ds0
proof
  show "taken plog start i xs p \<Longrightarrow> deliveries (trace w) = ds0 @ ys \<Longrightarrow>
      post (\<lambda>(p', r', w'). \<exists>zs. list_all (\<lambda>_. True) zs \<and> taken plog start i (xs @ zs) p' \<and>
        deliveries (trace w') = ds0 @ ys @ zs) (startFetch E (p, r, w))" for i xs p ys w r
    by (rule stays_taken, assumption, rule still.startFetch_keeps, rule taken_stays)
  show "taken plog start i xs p \<Longrightarrow> deliveries (trace w) = ds0 @ ys \<Longrightarrow>
      post (\<lambda>(p', r', w'). \<exists>zs. list_all (\<lambda>_. True) zs \<and> taken plog start i (xs @ zs) p' \<and>
        deliveries (trace w') = ds0 @ ys @ zs) (ret (pauseFetch (p, r, w)))" for i xs p ys w r
    by (rule stays_taken, assumption) (simp add: still.pauseFetch_keeps taken_stays)
  show "taken plog start i xs p \<Longrightarrow> deliveries (trace w) = ds0 @ ys \<Longrightarrow>
      post (\<lambda>(p', r', w'). \<exists>zs. list_all (\<lambda>_. True) zs \<and> taken plog start i (xs @ zs) p' \<and>
        deliveries (trace w') = ds0 @ ys @ zs) (resumeFetch E (p, r, w))" for i xs p ys w r
    by (rule stays_taken, assumption, rule still.resumeFetch_keeps, rule taken_stays)
qed

section \<open>Runs of a client\<close>

text \<open>The brokers of all partitions answer honestly, in every state the client goes through.\<close>

fun honest_event :: "env \<Rightarrow> (nat \<Rightarrow> MessageAndOffset list) \<Rightarrow> client_event \<Rightarrow> cstate \<Rightarrow> bool" where
  "honest_event E plog (Partition_event i ev) (c, r, w) \<longleftrightarrow>
     (if i < length (m_partitions c) then honest E (plog i) ev (m_partitions c ! i, r, w) else True)"
| "honest_event E plog _ s \<longleftrightarrow> True"

fun honest_client ::
  "env \<Rightarrow> (Int32 \<Rightarrow> Int32) \<Rightarrow> (nat \<Rightarrow> MessageAndOffset list) \<Rightarrow> client_event list \<Rightarrow> Int32 \<times> cstate \<Rightarrow> bool" where
  "honest_client E postinc plog [] s \<longleftrightarrow> True"
| "honest_client E postinc plog (ev # evs) s \<longleftrightarrow>
     honest_event E plog ev (snd s) \<and> post (honest_client E postinc plog evs) (client_handle E postinc ev s)"

lemma call_honest: "honest E plog (Call_produce m) s" "honest E plog (Call_produce_list ms) s"
  by (simp_all add: honest_def reading_def)

lemma event_view:
  assumes "\<forall>i < n. in_order (plog i)" and "honest_event E plog ev (c, r, w)" and v: "reading_all.view plog start ds0 n ys (c, r, w)"
  shows "post (\<lambda>(cur', s'). \<exists>zs. reading_all.view plog start ds0 n (ys @ zs) s') (client_handle E postinc ev (cur, c, r, w))"
proof -
  have n: "length (m_partitions c) = n" using v by (simp add: reading_all.view_def)
  have "post (\<lambda>(p', r', w'). \<exists>zs. True \<and> taken plog start i (xs @ zs) p' \<and> deliveries (trace w') = ds0 @ ys @ zs)
      (partition_handle E e (m_partitions c ! i, r, w))"
    if g: "goes_to ev i e" and i: "i < n" and t: "taken plog start i xs (m_partitions c ! i)" and d: "deliveries (trace w) = ds0 @ ys"
    for i e xs
  proof -
    have h: "honest E (plog i) e (m_partitions c ! i, r, w)"
      using assms(2) g i n call_honest by (cases ev) auto
    have o: "in_order (plog i)" using assms(1) i by simp
    show ?thesis
      by (rule post_mono [OF event_moves [OF o h taken_stays [OF t d]]], clarify) (use moved_taken [OF t o, of "ds0 @ ys"] in simp)
  qed
  note step = reading_all.client_handle_view [where Z = "\<lambda>_. True" and ev = ev and E = E and cur = cur and postinc = postinc, OF v this]
  show ?thesis by (rule post_mono [OF step]) auto
qed

lemma run_view:
  "\<forall>i < n. in_order (plog i) \<Longrightarrow> honest_client E postinc plog evs s \<Longrightarrow> reading_all.view plog start ds0 n ys (snd s) \<Longrightarrow>
   post (\<lambda>s'. \<exists>zs. reading_all.view plog start ds0 n (ys @ zs) (snd s')) (fold_outcome (client_handle E postinc) evs s)"
proof (induction evs arbitrary: ys s)
  case Nil
  then show ?case by (auto intro!: exI [of _ "[]"])
next
  case (Cons ev evs)
  obtain cur c r w where s: "s = (cur, c, r, w)" by (cases s) auto
  have "post (\<lambda>s'. \<exists>zs. reading_all.view plog start ds0 n (ys @ zs) (snd s')) (fold_outcome (client_handle E postinc) evs s1)"
    if "reading_all.view plog start ds0 n (ys @ zs) (snd s1)" "honest_client E postinc plog evs s1" for s1 zs
    using Cons.IH [OF Cons.prems(1) that(2,1)] by (auto elim!: post_mono)
  with event_view [OF Cons.prems(1), of E ev c r w start ds0 ys postinc cur] Cons.prems(2,3) show ?case
    by (auto simp: s post_iff bnd_eq_ret simp del: client_handle.simps)
qed

text \<open>What the calls of the application, made for the actions of the partitions, hand over to it.\<close>

fun app_data :: "app_call \<Rightarrow> String list" where
  "app_data (App_fetched_data msgs) = msgs"
| "app_data _ = []"

definition received_by_app :: "KafkaClient \<Rightarrow> action list \<Rightarrow> String list" where
  "received_by_app c tr = concat (map app_data (concat (map (forward_action c) tr)))"

lemma received_by_app_deliveries: "onFetchedData c \<Longrightarrow> received_by_app c tr = deliveries tr"
  by (induction tr rule: deliveries.induct)
    (simp_all add: received_by_app_def handleFetchedData_def client_handleProduceResponse_def handleMsgQueuedResponse_def)

lemma start_view:
  assumes "list_all onReceivedData (m_partitions c)"
  shows "reading_all.view plog (\<lambda>i. m_iNextFetchOffset (m_partitions c ! i)) (deliveries (trace w)) (length (m_partitions c)) [] (c, r, w)"
  using assms unfolding reading_all.view_def prod.case
  by (auto simp: taken_def log_range_empty map_filter_def list_all_length
      intro!: exI [of _ "replicate (length (m_partitions c)) []"] interleaving.empty)

text \<open>C2: the application and the logs of all partitions. Let every partition of the topic have a log, in
  the order of its offsets, and let the brokers be honest in every state the client goes through:
  an answer to a fetch request is, as the client reads it, an error or a range of the log of the
  partition asked for, from the offset asked for or below, and an answer to an offset request does not
  move the start (the partition does not start \<^verbatim>\<open>FROM_END\<close> and no later start is answered). Let the partitions
  and the client have their callbacks from the beginning, and the application not change them.
  Then, whatever events the
  partitions of a consumer handle, in whatever order, and whatever else the application calls in between,
  the data that reach the application are an interleaving of the messages of the logs: of each
  partition every message from the offset it started at up to the offset it has reached, each once and
  in the order of the log, and nothing else.\<close>

theorem client_exactly_once:
  assumes "fold_outcome (client_handle E postinc) evs (cur0, c0, r0, w0) = ret (cur, c, r, w)"
    and "\<forall>i < length (m_partitions c0). in_order (plog i)" and "honest_client E postinc plog evs (cur0, c0, r0, w0)"
    and "list_all onReceivedData (m_partitions c0)" and "onFetchedData c0" and "list_all (\<lambda>ev. \<not> sets_callbacks ev) evs"
    and "deliveries (trace w0) = []"
  shows "length (m_partitions c) = length (m_partitions c0) \<and>
    (\<forall>i < length (m_partitions c0). sint (m_iNextFetchOffset (m_partitions c0 ! i)) \<le> sint (m_iNextFetchOffset (m_partitions c ! i))) \<and>
    interleaving (map (\<lambda>i. List.map_filter msg_value (filter (\<lambda>m. sint (m_iNextFetchOffset (m_partitions c0 ! i)) \<le> offset_of m \<and>
        offset_of m < sint (m_iNextFetchOffset (m_partitions c ! i))) (plog i))) [0..<length (m_partitions c0)])
      (received_by_app c (trace w))"
proof -
  let ?n = "length (m_partitions c0)" and ?start = "\<lambda>i. m_iNextFetchOffset (m_partitions c0 ! i)"
  have "reading_all.view plog ?start [] ?n [] (c0, r0, w0)"
    using start_view [OF assms(4), of plog w0 r0] unfolding assms(7) .
  from run_view [OF assms(2,3), of ?start "[]" "[]", unfolded snd_conv, OF this]
  obtain ys where "reading_all.view plog ?start [] ?n ys (c, r, w)" unfolding assms(1) post_simps snd_conv append_Nil by blast
  then obtain xss where v: "length (m_partitions c) = ?n" "deliveries (trace w) = ys" "length xss = ?n"
      "\<forall>i < ?n. taken plog ?start i (xss ! i) (m_partitions c ! i)" "interleaving xss ys"
    unfolding reading_all.view_def prod.case unfolding append_Nil by blast
  have "onFetchedData c" using run_only_partitions [OF assms(6), of c0 E postinc cur0 r0 w0] assms(1,5) by auto
  moreover have "xss = map (\<lambda>i. List.map_filter msg_value (filter (\<lambda>m. sint (?start i) \<le> offset_of m \<and>
        offset_of m < sint (m_iNextFetchOffset (m_partitions c ! i))) (plog i))) [0..<?n]"
    using v(3,4) by (intro nth_equalityI) (simp_all add: taken_def log_range_def)
  ultimately show ?thesis
    using v by (simp add: received_by_app_deliveries) (simp add: taken_def)
qed

section \<open>Two partitions\<close>

definition two_partitions :: KafkaClient where
  "two_partitions = (KafkaClient_fields 0 CONSUMER_P (str ''logs'') (- 1) (str ''kafka'') 9092 defaultInit)
     \<lparr>m_partitions := [arrival_consumer, arrival_consumer\<lparr>m_iPartition := 4, m_iSockFd := 6\<rparr>], onFetchedData := True\<rparr>"

lemma two_partitions_simps [simp]:
  "m_partitions two_partitions = [arrival_consumer, arrival_consumer\<lparr>m_iPartition := 4, m_iSockFd := 6\<rparr>]"
  "onFetchedData two_partitions"
  by (simp_all add: two_partitions_def)

lemma two_partitions_run:
  "\<exists>w. fold_outcome (client_handle arrival_env (\<lambda>x. x)) [Partition_event 0 (Socket_event 5 1)]
      (0, two_partitions, LibeventReactor_new, sample_world) =
    ret (0, two_partitions\<lparr>m_partitions := (m_partitions two_partitions)[0 := arrival_consumer\<lparr>m_iNextFetchOffset := 42\<rparr>]\<rparr>,
      LibeventReactor_new, w)"
  using arrival_run by (auto simp: on_partition_def fold_outcome_Nil simp del: partition_handle.simps)

theorem client_exactly_once_witness:
  "\<exists>c w. fold_outcome (client_handle arrival_env (\<lambda>x. x)) [Partition_event 0 (Socket_event 5 1)]
      (0, two_partitions, LibeventReactor_new, sample_world) = ret (0, c, LibeventReactor_new, w) \<and>
    interleaving [[str ''hello, broker!''], []] (received_by_app c (trace w))"
proof -
  let ?plog = "\<lambda>i. if i = (0 :: nat) then [received sample_message] else []"
  obtain w where r: "fold_outcome (client_handle arrival_env (\<lambda>x. x)) [Partition_event 0 (Socket_event 5 1)]
      (0, two_partitions, LibeventReactor_new, sample_world) =
    ret (0, two_partitions\<lparr>m_partitions := (m_partitions two_partitions)[0 := arrival_consumer\<lparr>m_iNextFetchOffset := 42\<rparr>]\<rparr>,
      LibeventReactor_new, w)"
    using two_partitions_run by blast
  have "honest_client arrival_env (\<lambda>x. x) ?plog [Partition_event 0 (Socket_event 5 1)] (0, two_partitions, LibeventReactor_new, sample_world)"
    using arrival_serves by (simp add: honest_def arrival_incoming api_keys post_iff)
  moreover have "\<forall>i < length (m_partitions two_partitions). in_order (?plog i)"
    by (simp add: in_order_def offset_of_def received_def sample_message_def)
  ultimately have "interleaving [[str ''hello, broker!''], []]
      (received_by_app (two_partitions\<lparr>m_partitions := (m_partitions two_partitions)[0 := arrival_consumer\<lparr>m_iNextFetchOffset := 42\<rparr>]\<rparr>) (trace w))"
    using client_exactly_once [OF r, of ?plog]
    by (simp add: sample_world_def offset_of_def received_def sample_message_def read_back_def map_filter_simps str_def upt_rec)
  with r show ?thesis by blast
qed

end
