(* ===== verification/Round_Robin.thy ===== *)
theory Round_Robin
  imports Kafka_Client
begin

text \<open>
  Which partition a producer for all partitions sends a message to, over a sequence of calls of
  \<^verbatim>\<open>KafkaProducer::produce\<close>.
\<close>

definition can_wake :: "KafkaPartition \<Rightarrow> bool" where
  "can_wake p \<longleftrightarrow> 0 \<le> m_iWakeupFd (m_produceEvent p) \<and> 0 \<le> m_iWakeupFd (m_produceMsgQEvent p)"

definition writes_succeed :: "env \<Rightarrow> bool" where
  "writes_succeed E \<longleftrightarrow> (\<forall>t. \<exists>n. sys_write E t = Written n)"

lemma wakeup_returns:
  "writes_succeed E \<Longrightarrow> 0 \<le> m_iWakeupFd src \<Longrightarrow> \<exists>w'. WakeupEventSource_wakeup E src w = ret w'"
  unfolding writes_succeed_def
  by (drule spec [of _ "tick w"]) (auto simp: WakeupEventSource_wakeup_def posix_write_def Let_def)

lemma produce_queues:
  assumes "writes_succeed E" and "can_wake p"
  shows "\<exists>p' w'. produce E msg (p, r, w) = ret (0, p', r, w') \<and> m_qMsgs p' = m_qMsgs p @ [msg] \<and> can_wake p'"
proof -
  obtain w1 where w1: "WakeupEventSource_wakeup E (m_produceEvent p) w = ret w1"
    using wakeup_returns [OF assms(1), of "m_produceEvent p" w] assms(2) by (auto simp: can_wake_def)
  obtain p1 w2 where e: "enqueue E msg (p, r, w) = ret (p1, r, w2)" "m_qMsgs p1 = m_qMsgs p @ [msg]" "can_wake p1"
    using assms(2) w1
    by (cases "m_iMsgCnt p = pBatchNumMsgs (m_config p) \<and> m_partitionType p = PRODUCER_P")
      (auto simp: enqueue_def can_wake_def)
  moreover obtain w3 where "WakeupEventSource_wakeup E (m_produceMsgQEvent p1) w2 = ret w3"
    using wakeup_returns [OF assms(1), of "m_produceMsgQEvent p1" w2] e(3) by (auto simp: can_wake_def)
  ultimately show ?thesis by (simp add: produce_def wakeup_msgq_def)
qed

lemma small_index:
  assumes "i < n" and "n < 2 ^ 31"
  shows "unat (scast (of_nat i :: Int32) :: 64 word) = i"
proof -
  have "sint (of_nat i :: Int32) = int i" using assms sint_of_nat_less [of i, where 'a = 32] by simp
  then have "(scast (of_nat i :: Int32) :: 64 word) = of_nat i" by (simp add: scast_eq)
  then show ?thesis using assms by (simp add: unsigned_of_nat take_bit_nat_eq_self)
qed

lemma advance_partition_mod:
  assumes "i < n" and "n < 2 ^ 31" and "d \<le> 1"
  shows "advance_partition (\<lambda>x. x + of_nat d) (of_nat i) n = of_nat ((i + d) mod n)"
proof -
  have s: "(scast (of_nat (i + d) :: Int32) :: 64 word) = of_nat (i + d)" if "i + d < 2 ^ 31"
  proof -
    have "sint (of_nat (i + d) :: Int32) = int (i + d)" using that sint_of_nat_less [of "i + d", where 'a = 32] by simp
    then show ?thesis by (simp add: scast_eq)
  qed
  have id: "i + d < 2 ^ 31" using assms by linarith
  have "(i + d) mod n < n" using assms(1) by simp
  with assms(2) have k: "(i + d) mod n < 2 ^ 64" by simp
  have "(of_nat (i + d) :: 64 word) mod of_nat n = of_nat ((i + d) mod n)"
  proof (rule word_unat_eq_iff [THEN iffD2])
    show "unat ((of_nat (i + d) :: 64 word) mod of_nat n) = unat (of_nat ((i + d) mod n) :: 64 word)"
      using assms(2) id k by (simp add: unat_mod_distrib unsigned_of_nat take_bit_nat_eq_self del: of_nat_add)
  qed
  then show ?thesis
    using s [OF id] k by (simp add: advance_partition_def unsigned_of_nat take_bit_nat_eq_self)
qed

section \<open>A sequence of messages\<close>

definition produce_all ::
  "env \<Rightarrow> (Int32 \<Rightarrow> Int32) \<Rightarrow> String list \<Rightarrow> Int32 \<times> cstate \<Rightarrow> (Int32 \<times> cstate) outcome" where
  "produce_all E postinc msgs s = fold_outcome (\<lambda>msg (cur, s). KafkaProducer_produce E postinc msg cur s) msgs s"

definition to_partition :: "nat \<Rightarrow> nat \<Rightarrow> nat \<Rightarrow> nat \<Rightarrow> String list \<Rightarrow> String list" where
  "to_partition i d n j msgs = map (\<lambda>k. msgs ! k) (filter (\<lambda>k. (i + k * d) mod n = j) [0..<length msgs])"

lemma to_partition_snoc:
  "to_partition i d n j (msgs @ [m]) =
   to_partition i d n j msgs @ (if (i + length msgs * d) mod n = j then [m] else [])"
  by (auto simp: to_partition_def nth_append)

lemma produce_all_spread:
  assumes c: "client_iPartition c = KAFKA_ALL_PARTITIONS" "pPartitioningMethod (client_config c) = ROUND_ROBIN"
      "length (m_partitions c) = n" "n < 2 ^ 31" "i < n" "\<forall>p \<in> set (m_partitions c). can_wake p"
    and E: "writes_succeed E" and d: "d \<le> 1"
  shows "\<exists>ps w'. produce_all E (\<lambda>x. x + of_nat d) msgs (of_nat i, c, r, w) =
      ret (of_nat ((i + length msgs * d) mod n), c\<lparr>m_partitions := ps\<rparr>, r, w') \<and> length ps = n \<and>
    (\<forall>p \<in> set ps. can_wake p) \<and>
    (\<forall>j<n. m_qMsgs (ps ! j) = m_qMsgs (m_partitions c ! j) @ to_partition i d n j msgs)"
proof (induction msgs rule: rev_induct)
  case Nil
  have "c\<lparr>m_partitions := m_partitions c\<rparr> = c" by simp
  with c show ?case
    by (intro exI [of _ "m_partitions c"]) (simp add: produce_all_def to_partition_def)
next
  case (snoc m msgs)
  let ?i = "(i + length msgs * d) mod n"
  obtain ps w1 where IH: "produce_all E (\<lambda>x. x + of_nat d) msgs (of_nat i, c, r, w) = ret (of_nat ?i, c\<lparr>m_partitions := ps\<rparr>, r, w1)"
    and ps: "length ps = n" "\<forall>p \<in> set ps. can_wake p"
      "\<forall>j<n. m_qMsgs (ps ! j) = m_qMsgs (m_partitions c ! j) @ to_partition i d n j msgs"
    using snoc by blast
  have i: "?i < n" using c(5) by simp
  obtain p' w2 where p': "produce E m (ps ! ?i, r, w1) = ret (0, p', r, w2)" "m_qMsgs p' = m_qMsgs (ps ! ?i) @ [m]" "can_wake p'"
    using produce_queues [OF E, of "ps ! ?i" m r w1] ps(1,2) i by auto
  have "KafkaProducer_produce E (\<lambda>x. x + of_nat d) m (of_nat ?i) (c\<lparr>m_partitions := ps\<rparr>, r, w1) =
      ret (of_nat ((?i + d) mod n), c\<lparr>m_partitions := ps[?i := p']\<rparr>, r, w2)"
    using c(1,2) ps(1) i p'(1) small_index [OF i c(4)] advance_partition_mod [OF i c(4) d]
    by (simp add: KafkaProducer_produce_def produce_with_def on_partition_def)
  moreover have "(?i + d) mod n = (i + length (msgs @ [m]) * d) mod n"
    by (simp add: mod_add_right_eq mod_add_left_eq algebra_simps)
  ultimately have "produce_all E (\<lambda>x. x + of_nat d) (msgs @ [m]) (of_nat i, c, r, w) =
      ret (of_nat ((i + length (msgs @ [m]) * d) mod n), c\<lparr>m_partitions := ps[?i := p']\<rparr>, r, w2)"
    using IH by (simp add: produce_all_def fold_outcome_append)
  moreover have "\<forall>j<n. m_qMsgs (ps[?i := p'] ! j) = m_qMsgs (m_partitions c ! j) @ to_partition i d n j (msgs @ [m])"
    using ps i p'(2) by (auto simp: to_partition_snoc nth_list_update)
  moreover have "\<forall>p \<in> set (ps[?i := p']). can_wake p"
    using ps(2) p'(3) set_update_subset_insert [of ps ?i p'] by auto
  ultimately show ?case using ps(1) by auto
qed

text \<open>C30: round robin. A producer for all partitions queues every message in exactly one partition,
  keeping the order of the messages of each partition. If \<^verbatim>\<open>currPartition = currPartition++\<close> left
  the variable incremented, message number \<open>k\<close> would go to partition \<open>(i + k) mod n\<close>; if, as in C++17,
  it leaves the variable as it was, every message goes to the same partition and the others get
  none.\<close>

theorem produce_round_robin:
  assumes "client_iPartition c = KAFKA_ALL_PARTITIONS" "pPartitioningMethod (client_config c) = ROUND_ROBIN"
      "length (m_partitions c) = n" "n < 2 ^ 31" "i < n" "\<forall>p \<in> set (m_partitions c). can_wake p"
      "writes_succeed E"
  shows "(\<exists>cur ps w'. produce_all E (\<lambda>x. x + 1) msgs (of_nat i, c, r, w) = ret (cur, c\<lparr>m_partitions := ps\<rparr>, r, w') \<and>
      (\<forall>j<n. m_qMsgs (ps ! j) = m_qMsgs (m_partitions c ! j) @
        map (\<lambda>k. msgs ! k) (filter (\<lambda>k. (i + k) mod n = j) [0..<length msgs]))) \<and>
    (\<exists>cur ps w'. produce_all E (\<lambda>x. x) msgs (of_nat i, c, r, w) = ret (cur, c\<lparr>m_partitions := ps\<rparr>, r, w') \<and>
      (\<forall>j<n. m_qMsgs (ps ! j) = m_qMsgs (m_partitions c ! j) @ (if j = i then msgs else [])))"
proof -
  have one: "to_partition i 1 n j msgs = map (\<lambda>k. msgs ! k) (filter (\<lambda>k. (i + k) mod n = j) [0..<length msgs])" for j
    by (simp add: to_partition_def)
  have zero: "to_partition i 0 n j msgs = (if j = i then msgs else [])" if "j < n" for j
    using assms(5) that by (simp add: to_partition_def map_nth)
  obtain ps w1 where "produce_all E (\<lambda>x. x + 1) msgs (of_nat i, c, r, w) =
        ret (of_nat ((i + length msgs) mod n), c\<lparr>m_partitions := ps\<rparr>, r, w1)"
      "\<forall>j<n. m_qMsgs (ps ! j) = m_qMsgs (m_partitions c ! j) @ to_partition i 1 n j msgs"
    using produce_all_spread [OF assms, of 1 msgs r w] by auto
  moreover obtain qs w2 where "produce_all E (\<lambda>x. x) msgs (of_nat i, c, r, w) =
        ret (of_nat (i mod n), c\<lparr>m_partitions := qs\<rparr>, r, w2)"
      "\<forall>j<n. m_qMsgs (qs ! j) = m_qMsgs (m_partitions c ! j) @ to_partition i 0 n j msgs"
    using produce_all_spread [OF assms, of 0 msgs r w] by auto
  ultimately show ?thesis unfolding one by (intro conjI exI) (assumption | simp add: zero)+
qed

theorem produce_round_robin_witness:
  "let c = (KafkaClient_fields 0 PRODUCER_P (str ''logs'') KAFKA_ALL_PARTITIONS [] 9092 defaultInit)
       \<lparr>m_partitions := [sample_partition, sample_partition]\<rparr>
   in (\<exists>cur ps w'. produce_all sample_env (\<lambda>x. x) [[1], [2], [3]] (0, c, LibeventReactor_new, sample_world) =
        ret (cur, c\<lparr>m_partitions := ps\<rparr>, LibeventReactor_new, w') \<and>
      m_qMsgs (ps ! 0) = [[1], [2], [3]] \<and> m_qMsgs (ps ! 1) = [])"
proof -
  let ?c = "(KafkaClient_fields 0 PRODUCER_P (str ''logs'') KAFKA_ALL_PARTITIONS [] 9092 defaultInit)
       \<lparr>m_partitions := [sample_partition, sample_partition]\<rparr>"
  have s: "can_wake sample_partition" "m_qMsgs sample_partition = []"
    by (simp_all add: can_wake_def sample_partition_def KafkaPartition_fields_def)
  have "writes_succeed sample_env" by (simp add: writes_succeed_def sample_env_def)
  moreover have "client_iPartition ?c = KAFKA_ALL_PARTITIONS" "pPartitioningMethod (client_config ?c) = ROUND_ROBIN"
      "m_partitions ?c = [sample_partition, sample_partition]"
    by (simp_all add: KafkaClient_fields_def defaultInit_def)
  ultimately obtain cur ps w' where "produce_all sample_env (\<lambda>x. x) [[1], [2], [3]] (0, ?c, LibeventReactor_new, sample_world) =
        ret (cur, ?c\<lparr>m_partitions := ps\<rparr>, LibeventReactor_new, w')"
      "\<forall>j<2. m_qMsgs (ps ! j) = m_qMsgs ([sample_partition, sample_partition] ! j) @ (if j = 0 then [[1], [2], [3]] else [])"
    using produce_round_robin [of ?c 2 0 sample_env "[[1], [2], [3]]" LibeventReactor_new sample_world] s(1) by auto
  moreover from this(2) have "m_qMsgs (ps ! 0) = [[1], [2], [3]]" "m_qMsgs (ps ! 1) = []"
    using s(2) by simp_all
  ultimately show ?thesis unfolding Let_def by blast
qed

end
