(* ===== verification/Client_Fifo.thy ===== *)
theory Client_Fifo
  imports Client_Views Round_Robin
begin

text \<open>
  A producer with all its partitions: the messages passed to \<^verbatim>\<open>KafkaProducer::produce\<close> are divided among
  the partitions, and the requests that the process writes are an interleaving of those of the
  partitions. The history of a partition are the messages it was passed, the requests it wrote and the
  times its socket was read, each of which answers at most one request.
\<close>

section \<open>The history of a producer\<close>

datatype history = Passed String | Wrote String | Was_read nat

fun passed :: "history list \<Rightarrow> String list" where
  "passed [] = []"
| "passed (Passed m # xs) = m # passed xs"
| "passed (_ # xs) = passed xs"

fun wrotes :: "history list \<Rightarrow> String list" where
  "wrotes [] = []"
| "wrotes (Wrote bs # xs) = bs # wrotes xs"
| "wrotes (_ # xs) = wrotes xs"

text \<open>The indices of the partitions whose sockets were read.\<close>

fun read_at :: "history list \<Rightarrow> nat list" where
  "read_at [] = []"
| "read_at (Was_read i # xs) = i # read_at xs"
| "read_at (_ # xs) = read_at xs"

fun is_write :: "history \<Rightarrow> bool" where
  "is_write (Wrote _) \<longleftrightarrow> True"
| "is_write _ \<longleftrightarrow> False"

lemma history_append [simp]:
  "passed (xs @ ys) = passed xs @ passed ys" "wrotes (xs @ ys) = wrotes xs @ wrotes ys"
  "read_at (xs @ ys) = read_at xs @ read_at ys"
  by (induction xs rule: passed.induct) simp_all

lemma history_map [simp]:
  "passed (map Passed ms) = ms" "wrotes (map Passed ms) = []" "read_at (map Passed ms) = []"
  "passed (map Wrote bs) = []" "wrotes (map Wrote bs) = bs" "read_at (map Wrote bs) = []"
  "passed (replicate k (Was_read i)) = []" "wrotes (replicate k (Was_read i)) = []"
  "read_at (replicate k (Was_read i)) = replicate k i"
proof -
  show "passed (map Passed ms) = ms" "wrotes (map Passed ms) = []" "read_at (map Passed ms) = []"
    by (induction ms) simp_all
  show "passed (map Wrote bs) = []" "wrotes (map Wrote bs) = bs" "read_at (map Wrote bs) = []"
    by (induction bs) simp_all
  show "passed (replicate k (Was_read i)) = []" "wrotes (replicate k (Was_read i)) = []"
    "read_at (replicate k (Was_read i)) = replicate k i"
    by (induction k) simp_all
qed

lemma writes_pass_nothing: "list_all is_write xs \<Longrightarrow> passed xs = [] \<and> read_at xs = []"
  by (induction xs rule: passed.induct) simp_all

lemma subseq_passed: "subseq xs ys \<Longrightarrow> subseq (passed xs) (passed ys)"
proof (induction rule: list_emb.induct)
  case (list_emb_Cons xs ys y)
  then show ?case by (cases y) (simp_all add: list_emb.list_emb_Cons)
next
  case (list_emb_Cons2 x y xs ys)
  then show ?case by (cases y) simp_all
qed simp

lemma subseq_count: "subseq xs ys \<Longrightarrow> set xs \<subseteq> {i} \<Longrightarrow> length xs \<le> count_list ys i"
  by (induction rule: list_emb.induct) auto

lemma subseq_load: "subseq xs ys \<Longrightarrow> load xs \<le> load ys"
  by (induction rule: list_emb.induct) auto

text \<open>
  The view of a partition: with what it was passed and what it wrote, its messages are where \<open>flows\<close>
  says, whatever the process wrote besides.
\<close>

definition carries :: "env \<Rightarrow> (nat \<Rightarrow> KafkaPartition) \<Rightarrow> nat \<Rightarrow> history list \<Rightarrow> KafkaPartition \<Rightarrow> bool" where
  "carries E p0 i xs p \<longleftrightarrow> set (read_at xs) \<subseteq> {i} \<and>
     (\<forall>r w. flows E (p0 i) (sends (trace w), wrotes xs) (length (read_at xs)) (passed xs) (p, r, w))"

lemma carries_flows:
  "carries E p0 i xs p \<Longrightarrow> flows E (p0 i) (sends (trace w), wrotes xs) (length (read_at xs)) (passed xs) (p, r, w)"
  by (simp add: carries_def)

lemma flows_carries:
  assumes "flows E (p0 i) (sends (trace w), wrotes xs) (length (read_at xs) + k) (passed xs @ ms) (p', r', w')"
    and "sends (trace w) = pre @ wrotes ys" and "set (read_at xs) \<subseteq> {i}"
  shows "\<exists>zs. passed zs = ms \<and> read_at zs = replicate k i \<and> (ms = [] \<and> k = 0 \<longrightarrow> list_all is_write zs) \<and>
    carries E p0 i (xs @ zs) p' \<and> sends (trace w') = pre @ wrotes (ys @ zs)"
proof -
  obtain outs where outs: "sends (trace w') = sends (trace w) @ outs"
      "\<forall>r w. flows E (p0 i) (sends (trace w), wrotes xs @ outs) (length (read_at xs) + k) (passed xs @ ms) (p', r, w)"
    using assms(1) by (auto simp: flows_def)
  let ?zs = "map Passed ms @ map Wrote outs @ replicate k (Was_read i)"
  have "carries E p0 i (xs @ ?zs) p'" using outs(2) assms(3) by (auto simp: carries_def)
  moreover have "sends (trace w') = pre @ wrotes (ys @ ?zs)" using outs(1) assms(2) by simp
  ultimately show ?thesis
    by (intro exI [of _ ?zs]) (auto simp: list_all_iff)
qed

lemma keeps_carries:
  assumes "\<And>n. flows E (p0 i) (sends (trace w), wrotes xs) n (passed xs) (p, r, w) \<Longrightarrow>
      post (flows E (p0 i) (sends (trace w), wrotes xs) n (passed xs)) m"
    and "carries E p0 i xs p" and "sends (trace w) = pre @ wrotes ys"
  shows "post (\<lambda>(p', r', w'). \<exists>zs. list_all is_write zs \<and> carries E p0 i (xs @ zs) p' \<and>
    sends (trace w') = pre @ wrotes (ys @ zs)) m"
proof -
  have i: "set (read_at xs) \<subseteq> {i}" using assms(2) by (simp add: carries_def)
  from assms(1) [OF carries_flows [OF assms(2)]] show ?thesis
  proof (rule post_mono, clarify)
    fix p' r' w'
    assume "flows E (p0 i) (sends (trace w), wrotes xs) (length (read_at xs)) (passed xs) (p', r', w')"
    from flows_carries [where ms = "[]" and k = 0 and i = i and ?p0.0 = p0 and xs = xs, unfolded append_Nil2 add_0_right,
        OF this assms(3) i]
    show "\<exists>zs. list_all is_write zs \<and> carries E p0 i (xs @ zs) p' \<and> sends (trace w') = pre @ wrotes (ys @ zs)" by blast
  qed
qed

interpretation writing_all: client_views E "carries E p0" "\<lambda>ys w. sends (trace w) = pre @ wrotes ys" is_write
  for E p0 pre
proof
  show "carries E p0 i xs p \<Longrightarrow> sends (trace w) = pre @ wrotes ys \<Longrightarrow>
      post (\<lambda>(p', r', w'). \<exists>zs. list_all is_write zs \<and> carries E p0 i (xs @ zs) p' \<and>
        sends (trace w') = pre @ wrotes (ys @ zs)) (startFetch E (p, r, w))" for i xs p ys w r
    by (rule keeps_carries) (rule pipe.startFetch_keeps)
  show "carries E p0 i xs p \<Longrightarrow> sends (trace w) = pre @ wrotes ys \<Longrightarrow>
      post (\<lambda>(p', r', w'). \<exists>zs. list_all is_write zs \<and> carries E p0 i (xs @ zs) p' \<and>
        sends (trace w') = pre @ wrotes (ys @ zs)) (ret (pauseFetch (p, r, w)))" for i xs p ys w r
    by (rule keeps_carries [where r = r]) (simp_all add: pipe.pauseFetch_keeps)
  show "carries E p0 i xs p \<Longrightarrow> sends (trace w) = pre @ wrotes ys \<Longrightarrow>
      post (\<lambda>(p', r', w'). \<exists>zs. list_all is_write zs \<and> carries E p0 i (xs @ zs) p' \<and>
        sends (trace w') = pre @ wrotes (ys @ zs)) (resumeFetch E (p, r, w))" for i xs p ys w r
    by (rule keeps_carries) (rule pipe.resumeFetch_keeps)
qed

section \<open>Runs of a producer\<close>

text \<open>The messages that the application passes to the client, or to one of its partitions.\<close>

fun client_calls :: "client_event list \<Rightarrow> String list" where
  "client_calls [] = []"
| "client_calls (Partition_event i ev # evs) = produce_calls [ev] @ client_calls evs"
| "client_calls (Produce m # evs) = m # client_calls evs"
| "client_calls (Produce_list ms # evs) = ms @ client_calls evs"
| "client_calls (_ # evs) = client_calls evs"

text \<open>The partitions whose sockets are read, in order.\<close>

fun client_reads :: "client_event list \<Rightarrow> nat list" where
  "client_reads [] = []"
| "client_reads (Partition_event i ev # evs) = replicate (reads [ev]) i @ client_reads evs"
| "client_reads (_ # evs) = client_reads evs"

lemma client_calls_Cons:
  "client_calls (ev # evs) = client_calls [ev] @ client_calls evs" "client_reads (ev # evs) = client_reads [ev] @ client_reads evs"
  by (cases ev; simp)+

lemma goes_to_calls: "goes_to ev i e \<Longrightarrow> produce_calls [e] = client_calls [ev] \<and> replicate (reads [e]) i = client_reads [ev]"
  by (cases ev) auto

lemma goes_nowhere_calls: "\<nexists>i e. goes_to ev i e \<Longrightarrow> client_calls [ev] = [] \<and> client_reads [ev] = []"
  by (cases ev) auto

lemma event_carried:
  assumes "\<forall>i < n. 1024 < sint (cMaxFetchBytes (m_config (p0 i)))" and "load (passed ys) < 2 ^ 64" and "routed c"
    and v: "writing_all.view E p0 pre n ys (c, r, w)"
  shows "post (\<lambda>(cur', s'). \<exists>zs. (passed zs = client_calls [ev] \<and> read_at zs = client_reads [ev]) \<and>
      writing_all.view E p0 pre n (ys @ zs) s') (client_handle E postinc ev (cur, c, r, w))"
proof (rule writing_all.client_handle_view [OF v])
  fix i e xs
  assume g: "goes_to ev i e" and i: "i < n" and x: "carries E p0 i xs (m_partitions c ! i)" and j: "sends (trace w) = pre @ wrotes ys"
    and sub: "subseq xs ys"
  have calls: "produce_calls [e] = client_calls [ev]" "replicate (reads [e]) i = client_reads [ev]"
    using goes_to_calls [OF g] by auto
  have "load (passed xs) < 2 ^ 64" using subseq_load [OF subseq_passed [OF sub]] assms(2) by simp
  with carries_flows [OF x, of w r] assms(1) i
  have "post (flows E (p0 i) (sends (trace w), wrotes xs) (length (read_at xs) + reads [e]) (passed xs @ client_calls [ev]))
      (partition_handle E e (m_partitions c ! i, r, w))"
    using event_flows [of "p0 i" "passed xs" E _ "length (read_at xs)" _ e] unfolding calls(1) by blast
  then show "post (\<lambda>(p', r', w'). \<exists>zs. (passed zs = client_calls [ev] \<and> read_at zs = client_reads [ev]) \<and>
      carries E p0 i (xs @ zs) p' \<and> sends (trace w') = pre @ wrotes (ys @ zs)) (partition_handle E e (m_partitions c ! i, r, w))"
  proof (rule post_mono, clarify)
    fix p' r' w'
    assume "flows E (p0 i) (sends (trace w), wrotes xs) (length (read_at xs) + reads [e]) (passed xs @ client_calls [ev]) (p', r', w')"
    moreover have "set (read_at xs) \<subseteq> {i}" using x by (simp add: carries_def)
    ultimately show "\<exists>zs. (passed zs = client_calls [ev] \<and> read_at zs = client_reads [ev]) \<and>
        carries E p0 i (xs @ zs) p' \<and> sends (trace w') = pre @ wrotes (ys @ zs)"
      using flows_carries [where ?p0.0 = p0 and i = i and xs = xs and k = "reads [e]" and ms = "client_calls [ev]", OF _ j]
      unfolding calls(2) by blast
  qed
next
  fix zs
  assume "\<nexists>i e. goes_to ev i e" and "list_all is_write zs"
  then show "passed zs = client_calls [ev] \<and> read_at zs = client_reads [ev]" by (simp add: goes_nowhere_calls writes_pass_nothing)
next
  assume "\<not> routed c"
  then show "passed [] = client_calls [ev] \<and> read_at [] = client_reads [ev]" using assms(3) by simp
qed

lemma event_routed: "routed c \<Longrightarrow> post (\<lambda>(cur', c', s'). routed c') (client_handle E postinc ev (cur, c, s))"
  using client_handle_setup [of c E postinc ev cur "fst s" "snd s"]
  by (auto simp: post_iff routed_def same_setup_def)

lemma run_carried:
  "\<forall>i < n. 1024 < sint (cMaxFetchBytes (m_config (p0 i))) \<Longrightarrow> load (passed ys @ client_calls evs) < 2 ^ 64 \<Longrightarrow>
   routed c \<Longrightarrow> writing_all.view E p0 pre n ys (c, s) \<Longrightarrow>
   post (\<lambda>(cur', s'). \<exists>zs. (passed zs = client_calls evs \<and> read_at zs = client_reads evs) \<and> writing_all.view E p0 pre n (ys @ zs) s')
     (fold_outcome (client_handle E postinc) evs (cur, c, s))"
proof (induction evs arbitrary: cur ys c s)
  case Nil
  then show ?case by (auto intro!: exI [of _ "[]"])
next
  case (Cons ev evs)
  have l: "load (passed ys @ client_calls [ev] @ client_calls evs) < 2 ^ 64"
    using Cons.prems(2) unfolding client_calls_Cons(1) [of ev evs] .
  have step: "post (\<lambda>(cur', c', s'). routed c' \<and> (\<exists>zs. (passed zs = client_calls [ev] \<and> read_at zs = client_reads [ev]) \<and>
      writing_all.view E p0 pre n (ys @ zs) (c', s'))) (client_handle E postinc ev (cur, c, s))"
    using event_carried [of n p0 ys c E pre "fst s" "snd s" ev postinc cur] event_routed [of c E postinc ev cur s]
      Cons.prems(1,3,4) l by (auto simp: post_iff)
  have "post (\<lambda>(cur', s'). \<exists>zs. (passed zs = client_calls (ev # evs) \<and> read_at zs = client_reads (ev # evs)) \<and> writing_all.view E p0 pre n (ys @ zs) s')
      (fold_outcome (client_handle E postinc) evs (cur1, c1, s1))"
    if "routed c1" "passed zs = client_calls [ev]" "read_at zs = client_reads [ev]" "writing_all.view E p0 pre n (ys @ zs) (c1, s1)" for cur1 c1 s1 zs
  proof -
    have "load (passed (ys @ zs) @ client_calls evs) < 2 ^ 64" using l that(2) by simp
    from Cons.IH [OF Cons.prems(1) this that(1,4), of cur1] show ?thesis
    proof (rule post_mono, clarify)
      fix cur' c' r' w' zs'
      assume "passed zs' = client_calls evs" "read_at zs' = client_reads evs" "writing_all.view E p0 pre n ((ys @ zs) @ zs') (c', r', w')"
      then show "\<exists>zs. (passed zs = client_calls (ev # evs) \<and> read_at zs = client_reads (ev # evs)) \<and> writing_all.view E p0 pre n (ys @ zs) (c', r', w')"
        using that(2,3) client_calls_Cons [of ev evs] by (intro exI [of _ "zs @ zs'"]) simp
    qed
  qed
  then show ?case unfolding fold_outcome.simps by (intro post_bndI [OF step]) (auto simp del: client_calls.simps client_reads.simps)
qed

lemma fresh_carries:
  "m_qMsgs (p0 i) = [] \<Longrightarrow> m_dqWriteBuffers (p0 i) = [] \<Longrightarrow> m_qInTransitProduceRequest (p0 i) = [] \<Longrightarrow> carries E p0 i [] (p0 i)"
  unfolding carries_def by (intro conjI allI, simp, rule flowsI [of "[]" _ _ E "p0 i" "[]" "[]"]) (simp_all add: written_def)

lemma carriesE:
  assumes "carries E p0 i xs p"
  obtains ds ts bs where "length ds \<le> length (read_at xs)" "m_qInTransitProduceRequest p = map (parcel_bytes E (p0 i)) ts"
    "in_transit (m_dqWriteBuffers p) = map (parcel_bytes E (p0 i)) bs"
    "concat (map contents ds) @ concat (map contents ts) @ concat (map contents bs) @ m_qMsgs p = passed xs"
    "written E (p0 i) (wrotes xs) (ds @ ts)"
  by (rule flowsE [OF carries_flows [OF assms, of undefined LibeventReactor_new]]) (auto intro: that)

text \<open>C3: the messages of a producer with any number of partitions. Whatever the application passes to the
  client and whatever events its partitions handle, in whatever order, the messages are divided among
  the partitions in the order they were passed, each goes to one partition, and each partition keeps
  those it was given: they are, in that order and each once, those of its answered requests, of its
  requests in transit, of the requests in its buffer and of its queue, and at most one of its requests is
  answered each time its socket is read. The produce requests that the process
  writes are an interleaving of what the partitions write, and what a partition writes are beginnings of its
  own answered requests and of those in transit, in order and each at most once. The partitions are fresh, with a maximum size above 1024
  bytes, and less than \<open>2 ^ 64\<close> bytes are passed. This holds as
  long as the client names a partition or goes round robin: with the other way to partition that can be
  chosen, messages are dropped.\<close>

theorem client_fifo:
  assumes "fold_outcome (client_handle E postinc) evs (cur0, c0, r0, w0) = ret (cur, c, r, w)"
    and "list_all (\<lambda>p. m_qMsgs p = [] \<and> m_dqWriteBuffers p = [] \<and> m_qInTransitProduceRequest p = []) (m_partitions c0)"
    and "list_all (\<lambda>p. 1024 < sint (cMaxFetchBytes (m_config p))) (m_partitions c0)"
    and "load (client_calls evs) < 2 ^ 64"
    and "client_iPartition c0 \<noteq> KAFKA_ALL_PARTITIONS \<or> pPartitioningMethod (client_config c0) = ROUND_ROBIN"
  shows "\<exists>mss outss outs. interleaving mss (client_calls evs) \<and>
    sends (trace w) = sends (trace w0) @ outs \<and> interleaving outss outs \<and>
    length (m_partitions c) = length (m_partitions c0) \<and>
    length mss = length (m_partitions c0) \<and> length outss = length (m_partitions c0) \<and>
    (\<forall>i < length (m_partitions c0). \<exists>ds ts bs. length ds \<le> count_list (client_reads evs) i \<and>
      m_qInTransitProduceRequest (m_partitions c ! i) = map (parcel_bytes E (m_partitions c0 ! i)) ts \<and>
      in_transit (m_dqWriteBuffers (m_partitions c ! i)) = map (parcel_bytes E (m_partitions c0 ! i)) bs \<and>
      concat (map contents ds) @ concat (map contents ts) @ concat (map contents bs) @ m_qMsgs (m_partitions c ! i) = mss ! i \<and>
      written E (m_partitions c0 ! i) (outss ! i) (ds @ ts))"
proof -
  let ?n = "length (m_partitions c0)" and ?p0 = "\<lambda>i. m_partitions c0 ! i" and ?pre = "sends (trace w0)"
  have "writing_all.view E ?p0 ?pre ?n [] (c0, r0, w0)"
    using assms(2) unfolding writing_all.view_def prod.case
    by (auto simp: list_all_length intro!: exI [of _ "replicate ?n []"] interleaving.empty fresh_carries)
  moreover have "\<forall>i < ?n. 1024 < sint (cMaxFetchBytes (m_config (?p0 i)))" using assms(3) by (simp add: list_all_length)
  moreover have "routed c0" using assms(5) by (simp add: routed_def)
  ultimately have "post (\<lambda>(cur', s'). \<exists>zs. (passed zs = client_calls evs \<and> read_at zs = client_reads evs) \<and> writing_all.view E ?p0 ?pre ?n ([] @ zs) s')
      (fold_outcome (client_handle E postinc) evs (cur0, c0, r0, w0))"
    using assms(4) by (intro run_carried) simp_all
  then obtain ys where ys: "passed ys = client_calls evs" "read_at ys = client_reads evs" "writing_all.view E ?p0 ?pre ?n ys (c, r, w)"
    unfolding assms(1) post_simps prod.case append_Nil by blast
  from ys(3) obtain xss where v: "length (m_partitions c) = ?n" "sends (trace w) = ?pre @ wrotes ys" "length xss = ?n"
      "\<forall>i < ?n. carries E ?p0 i (xss ! i) (m_partitions c ! i)" "interleaving xss ys"
    unfolding writing_all.view_def prod.case by blast
  have "interleaving (map passed xss) (client_calls evs)" "interleaving (map wrotes xss) (wrotes ys)"
    using interleaving_map [OF _ _ v(5), of passed] interleaving_map [OF _ _ v(5), of wrotes] by (simp_all add: ys(1))
  moreover have "\<exists>ds ts bs. length ds \<le> count_list (client_reads evs) i \<and> m_qInTransitProduceRequest (m_partitions c ! i) = map (parcel_bytes E (?p0 i)) ts \<and>
      in_transit (m_dqWriteBuffers (m_partitions c ! i)) = map (parcel_bytes E (?p0 i)) bs \<and>
      concat (map contents ds) @ concat (map contents ts) @ concat (map contents bs) @ m_qMsgs (m_partitions c ! i) = map passed xss ! i \<and>
      written E (?p0 i) (map wrotes xss ! i) (ds @ ts)" if "i < ?n" for i
  proof -
    have x: "carries E ?p0 i (xss ! i) (m_partitions c ! i)" using v(4) that by blast
    have "interleaving (map read_at xss) (client_reads evs)"
      using interleaving_map [OF _ _ v(5), of read_at] by (simp add: ys(2))
    from interleaving_subseq [OF this, of i] have "subseq (read_at (xss ! i)) (client_reads evs)" using v(3) that by simp
    then have "length (read_at (xss ! i)) \<le> count_list (client_reads evs) i"
      using x by (intro subseq_count) (simp_all add: carries_def)
    with x show ?thesis using v(3) that by (elim carriesE) (auto dest: order_trans)
  qed
  ultimately show ?thesis
    using v(1-3) by - (rule exI [of _ "map passed xss"], rule exI [of _ "map wrotes xss"], rule exI [of _ "wrotes ys"], simp)
qed

section \<open>Two partitions\<close>

lemma run_Produce: "fold_outcome (client_handle E postinc) (map Produce msgs) s = produce_all E postinc msgs s"
proof (induction msgs arbitrary: s)
  case (Cons m msgs)
  then have "fold_outcome (client_handle E postinc) (map Produce msgs) = produce_all E postinc msgs" by (rule ext)
  then show ?case by (cases s) (simp add: produce_all_def [abs_def])
qed (simp add: produce_all_def)

definition two_producers :: KafkaClient where
  "two_producers = (KafkaClient_fields 0 PRODUCER_P (str ''logs'') KAFKA_ALL_PARTITIONS (str ''kafka'') 9092 defaultInit)
     \<lparr>m_partitions := [sample_partition, sample_partition\<lparr>m_iPartition := 4\<rparr>]\<rparr>"

lemma two_producers_simps [simp]:
  "client_iPartition two_producers = KAFKA_ALL_PARTITIONS" "pPartitioningMethod (client_config two_producers) = ROUND_ROBIN"
  "m_partitions two_producers = [sample_partition, sample_partition\<lparr>m_iPartition := 4\<rparr>]"
  by (simp_all add: two_producers_def KafkaClient_fields_def defaultInit_def)

theorem client_fifo_witness:
  "\<exists>cur ps w mss. fold_outcome (client_handle sample_env (\<lambda>x. x + 1)) (map Produce [[1], [2]])
      (0, two_producers, LibeventReactor_new, sample_world) = ret (cur, two_producers\<lparr>m_partitions := ps\<rparr>, LibeventReactor_new, w) \<and>
    length mss = 2 \<and> interleaving (mss :: String list list) [[1], [2]]"
proof -
  have s: "can_wake sample_partition" "m_qMsgs sample_partition = []" "m_dqWriteBuffers sample_partition = []"
      "m_qInTransitProduceRequest sample_partition = []" "1024 < sint (cMaxFetchBytes (m_config sample_partition))"
    by (simp_all add: can_wake_def sample_partition_def KafkaPartition_fields_def defaultInit_def)
  then have wake: "\<forall>p \<in> set (m_partitions two_producers). can_wake p" by (simp add: can_wake_def)
  have "writes_succeed sample_env" by (simp add: writes_succeed_def sample_env_def)
  then obtain cur ps w where r: "fold_outcome (client_handle sample_env (\<lambda>x. x + 1)) (map Produce [[1], [2]])
      (0, two_producers, LibeventReactor_new, sample_world) = ret (cur, two_producers\<lparr>m_partitions := ps\<rparr>, LibeventReactor_new, w)"
    using produce_all_spread [of two_producers 2 0 sample_env 1 "[[1], [2]]" LibeventReactor_new sample_world] wake
    unfolding run_Produce by auto
  from client_fifo [OF r] s obtain mss :: "String list list" where m: "length mss = Suc (Suc 0)" "interleaving mss [[1], [2]]"
    by auto
  then have "length mss = 2" by simp
  with r m(2) show ?thesis by blast
qed

end
