(* ===== verification/Client_Example.thy ===== *)
theory Client_Example
  imports Kafka_Client Dispatch
begin

text \<open>
  A run of the constructor of a consumer against a broker that always sends the same metadata
  answer (with a correlation id that the partitions ignore): the hypotheses of the theorems on
  clients can hold, and the constructor returns.
\<close>

definition answer_broker :: Broker where
  "answer_broker = \<lparr>node_id = 1, host = str ''kafka'', port = 9092\<rparr>"

definition answer_topic :: "(MetadataPartitionProps, MetadataTopicProps) TopicPartitionBlock" where
  "answer_topic = \<lparr>topic_props = \<lparr>mt_error_code = 0\<rparr>, topic_name = str ''logs'',
     partitions = [\<lparr>partition_props = \<lparr>mp_error_code = 0, leader = 1, replicas = [1, 2], isr = [1]\<rparr>,
       partition_id = 7\<rparr>]\<rparr>"

definition answer_body :: "Byte list" where
  "answer_body = be_bytes 4 (99 :: Int32) @ wire_array wire_broker [answer_broker] @
     wire_array wire_metadata_topic [answer_topic]"

definition broker_env :: env where
  "broker_env = sample_env\<lparr>sys_read := \<lambda>t n. if n = 4 then Read (be_bytes 4 (69 :: Int32)) else Read answer_body\<rparr>"

lemma answer_length: "length answer_body = 69"
  by (simp add: answer_body_def wire_array_def wire_broker_def wire_metadata_topic_def wire_topic_def
      wire_metadata_partition_def answer_topic_def answer_broker_def str_def wire_string_def)

lemma broker_env_simps:
  "sys_socket broker_env t = 5" "sys_connect broker_env t = 0" "sys_write broker_env t = Written 1000"
  "sys_read broker_env t 4 = Read (be_bytes 4 (69 :: Int32))" "sys_read broker_env t 69 = Read answer_body"
  "sys_timerfd_create broker_env t = 10 + int t" "sys_timerfd_settime broker_env t = 0"
  "gethostbyname broker_env t h = Some [h]" "boost_crc32 broker_env = (\<lambda>_. 7)"
  by (simp_all add: broker_env_def sample_env_def)

lemma readData_broker:
  "readData broker_env 5 4 w = ((4, None, be_bytes 4 (69 :: Int32)), next_call w)"
  "readData broker_env 5 69 w = ((69, None, answer_body), next_call w)"
  using readData_full [of 5 4 broker_env w] readData_full [of 5 69 broker_env w]
  by (simp_all add: broker_env_simps answer_length)

lemma read_answer:
  "\<exists>is'. ReadResponse ReadResponseMessage_Metadata (open_istream answer_body)
     \<lparr>response_correlation_id = 0, brokers = [], mr_topics = []\<rparr> no_error =
   Inr (\<lparr>response_correlation_id = 99, brokers = [answer_broker], mr_topics = [answer_topic]\<rparr>, no_error, is')"
  using ReadResponse_Metadata_written [OF _ _ answer_body_def, of "\<lparr>response_correlation_id = 0, brokers = [], mr_topics = []\<rparr>"]
  by (simp add: array_ok_def topic_ok_def short_string_def str_def metadata_partition_ok_def
      answer_topic_def answer_broker_def)

lemma example_fetchMetadata:
  "\<exists>w'. fetchMetadata broker_env c 5 w =
     ret (\<lparr>response_correlation_id = 99, brokers = [answer_broker], mr_topics = [answer_topic]\<rparr>, w')"
  using read_answer
  by (auto simp: fetchMetadata_def posix_write_def broker_env_simps read_or_exit_def readData_broker ntohl_be_bytes Let_def)

definition example_config :: KafkaClientConfig where
  "example_config = defaultInit\<lparr>cStartOffset := FROM_BEGINNING\<rparr>"

definition good :: "KafkaPartition \<Rightarrow> bool" where
  "good p \<longleftrightarrow> m_iSockFd p = 5 \<and> m_config p = example_config"

lemma returns_bndI: "returns P m \<Longrightarrow> (\<And>x. P x \<Longrightarrow> returns Q (k x)) \<Longrightarrow> returns Q (bnd m k)"
  by (auto simp: returns_iff)

text \<open>The event base is null here, so the reactor registers nothing.\<close>

lemma example_register: "register broker_env fd fl md (p, LibeventReactor_new, w) = ret (p, LibeventReactor_new, w)"
  by (simp add: register_def registerFdCallback_def LibeventReactor_new_def)

lemma example_connectLeader:
  "m_config p = example_config \<Longrightarrow> returns (\<lambda>(c, p', r', w'). c \<and> good p' \<and> r' = LibeventReactor_new)
     (connectLeader broker_env (p, LibeventReactor_new, w))"
  by (simp add: connectLeader_def connectServer_def broker_env_simps posix_connect_def example_register good_def)

lemma example_requests:
  assumes "good p"
  shows "returns (\<lambda>(p', r', w'). good p' \<and> r' = LibeventReactor_new \<and> m_dqWriteBuffers p' \<noteq> [])
      (createMetadataRequest broker_env (p, LibeventReactor_new, w))"
    and "returns (\<lambda>(p', r', w'). good p' \<and> r' = LibeventReactor_new \<and> m_dqWriteBuffers p' \<noteq> [])
      (createOffsetRequest broker_env (p, LibeventReactor_new, w))"
  using assms by (simp_all add: createMetadataRequest_def createOffsetRequest_def Let_def example_register good_def)

lemma example_onWriteReady:
  assumes "good p" and "m_dqWriteBuffers p \<noteq> []"
  shows "returns (\<lambda>(p', r', w'). good p' \<and> r' = LibeventReactor_new) (onWriteReady broker_env (p, LibeventReactor_new, w))"
proof -
  obtain b bs where "m_dqWriteBuffers p = b # bs" using assms(2) by (meson neq_Nil_conv)
  with assms(1) show ?thesis
    by (subst onWriteReady.simps)
      (simp add: writeOnce_def posix_write_def broker_env_simps ret_def returns_def good_def Let_def)
qed

lemma example_onReadReady:
  assumes "good p"
  shows "returns (\<lambda>(p', r', w'). good p' \<and> r' = LibeventReactor_new) (onReadReady broker_env (p, LibeventReactor_new, w))"
proof -
  have b: "answer_body = be_bytes 4 (99 :: Int32) @ (wire_array wire_broker [answer_broker] @
      wire_array wire_metadata_topic [answer_topic])" by (simp add: answer_body_def)
  have "onReadReady broker_env (p, LibeventReactor_new, w) =
      ret (p, LibeventReactor_new, next_call (next_call (sleep_ms 1 w)))"
    using assms by (subst onReadReady_frame [OF b])
      (simp_all add: good_def readData_broker answer_length del: One_nat_def)
  with assms show ?thesis by simp
qed

lemma example_timer:
  "returns (\<lambda>(src, w'). True) (PeriodicEventSource_init broker_env (ms_to_seconds (mRefreshIntervalMs example_config)) src w)"
proof -
  have "ms_to_seconds 300000 = 300" by (simp add: ms_to_seconds_def)
  moreover have "timer_spec 300 = ret (300, 0)" by (simp add: timer_spec_def)
  ultimately show ?thesis
    by (simp add: PeriodicEventSource_init_def example_config_def defaultInit_def broker_env_simps posix_settime_def Let_def)
qed

lemma example_init:
  assumes "m_config p = example_config"
  shows "returns (\<lambda>(p', r', w'). r' = LibeventReactor_new) (init broker_env (p, LibeventReactor_new, w))"
proof -
  have t: "returns (\<lambda>(p', r', w'). r' = LibeventReactor_new)
      (bnd (PeriodicEventSource_init broker_env (ms_to_seconds (mRefreshIntervalMs (m_config p))) (m_mdTimerEvent p) w)
         (\<lambda>(src, w). register broker_env (m_iTimerFd src) (pe_event_flags src) False
           (p\<lparr>m_mdTimerEvent := src\<rparr>, LibeventReactor_new, w)))" if "good p" for p w
    using that unfolding good_def by (auto simp: example_register intro!: returns_bndI [OF example_timer])
  show ?thesis
    unfolding init_def
    by (rule returns_bndI [OF example_connectLeader [OF assms]])
      (auto intro!: returns_bndI [OF example_requests(1)] returns_bndI [OF example_requests(2)]
        returns_bndI [OF example_onWriteReady] returns_bndI [OF example_onReadReady] t)
qed

lemma example_partition:
  "returns (\<lambda>(p', r', w'). r' = LibeventReactor_new)
     (KafkaPartition_new broker_env CONSUMER_P topic part bs ldr example_config LibeventReactor_new w)"
proof -
  let ?p = "KafkaPartition_fields CONSUMER_P topic part bs ldr example_config"
  have "returns (\<lambda>(p', w'). m_config p' = example_config) (getKafkaOffset broker_env ?p w)"
    by (simp add: getKafkaOffset_def KafkaPartition_fields_def example_config_def Let_def split: option.splits)
  then have "returns (\<lambda>(p', w'). m_config p' = example_config)
      (if m_partitionType ?p = CONSUMER_P then getKafkaOffset broker_env ?p w else ret (?p, w))"
    by (simp add: KafkaPartition_fields_def)
  then show ?thesis
    unfolding KafkaPartition_new_def Let_def by (rule returns_bndI) (auto intro: example_init)
qed

definition example_consumer :: "cstate outcome" where
  "example_consumer = KafkaConsumer_new broker_env 0 False (str ''logs'') KAFKA_ALL_PARTITIONS (str ''kafka'') 9092
     example_config sample_world"

lemma example_round:
  assumes "client_iPartition c = KAFKA_ALL_PARTITIONS" and "client_strTopic c = str ''logs''"
    and "client_partitionType c = CONSUMER_P" and "client_config c = example_config" and "m_brokers c = []"
    and "m_numPartitions c = 0"
  shows "returns (\<lambda>(again, c', r', w'). \<not> again \<and> r' = LibeventReactor_new)
    (init_round broker_env 5 (c, LibeventReactor_new, w))"
proof -
  obtain w' where f: "fetchMetadata broker_env c 5 w =
      ret (\<lparr>response_correlation_id = 99, brokers = [answer_broker], mr_topics = [answer_topic]\<rparr>, w')"
    using example_fetchMetadata by blast
  show ?thesis
    using assms f
    by (simp add: init_round_def createPartitions_def FindTopicByName_const_def IsTopicWithName_def answer_topic_def
        addTopicPartition_def addPartition_def find_leader_def answer_broker_def hostnameToIp_def broker_env_simps Let_def
        bnd_assoc case_prod_beta)
      (rule returns_bndI [OF example_partition], auto)
qed

lemma example_returns: "returns (\<lambda>_. True) example_consumer"
proof -
  let ?c = "KafkaClient_fields 0 CONSUMER_P (str ''logs'') KAFKA_ALL_PARTITIONS (str ''kafka'') 9092 example_config"
  obtain w1 where c: "connectServer broker_env (str ''kafka'') 9092 sample_world = (5, w1)"
    by (simp add: connectServer_def broker_env_simps posix_connect_def)
  obtain c' w' where "init_round broker_env 5 (?c, LibeventReactor_new, w1) = ret (False, c', LibeventReactor_new, w')"
    using example_round [of ?c w1] by (auto simp: KafkaClient_fields_def returns_iff)
  then have "init_loop broker_env 5 (?c, LibeventReactor_new, w1) = ret (c', LibeventReactor_new, w')"
    by (subst init_loop.simps) (simp add: ret_def)
  with c show ?thesis
    by (simp add: example_consumer_def KafkaConsumer_new_def KafkaClient_new_def LibeventReactor_init_def
        KafkaClient_init_def KafkaClient_fields_def)
qed

theorem KafkaClient_partitions_witness:
  "returns (\<lambda>(c, r, w). list_all (\<lambda>p. m_strTopic p = str ''logs'' \<and> m_partitionType p = CONSUMER_P \<and>
      onReceivedData p \<and> onProduceResponse p \<and> onMsgQueued p) (m_partitions c)) example_consumer"
proof -
  obtain c r w where e: "example_consumer = ret (c, r, w)" using example_returns by (auto simp: returns_iff)
  with KafkaClient_partitions [of broker_env 0 CONSUMER_P False "str ''logs''" KAFKA_ALL_PARTITIONS "str ''kafka''" 9092
      example_config sample_world c r w]
  show ?thesis by (auto simp: example_consumer_def KafkaConsumer_new_def)
qed

theorem client_run_safe_witness:
  "\<exists>c r w. client_run broker_env id (0, c, r, w) \<and> events_ok (trace w) \<and>
     set (handles (m_events r)) \<subseteq> set (live_events (trace w))"
proof -
  obtain c r w where e: "example_consumer = ret (c, r, w)" using example_returns by (auto simp: returns_iff)
  have "client_run broker_env id (0, c, r, w)"
    using e unfolding example_consumer_def by (intro client_run.consumer) (simp_all add: sample_world_def)
  moreover have "fresh_events broker_env"
    using sample_env_fresh by (simp add: fresh_events_def broker_env_def)
  ultimately show ?thesis using client_run_safe by blast
qed

end
