(* ===== verification/Client_Config.thy ===== *)
theory Client_Config
  imports Topic_Blocks Constants_Errors Offset_Store
begin

text \<open>
  \<^verbatim>\<open>client_configuration.h\<close> and \<^verbatim>\<open>impl/client_configuration.h\<close> of the protocol library: the settings
  of its asio client and the ways to add a broker to them.
\<close>

section \<open>The configuration\<close>

record BrokerAddress =
  hostname :: String
  service :: String

record ClientConfiguration =
  message_max_bytes :: Int32
  socket_timeout :: "32 word"
  client_id :: String
  broker_list :: "BrokerAddress list"
  auto_connect :: bool

definition ClientConfiguration_new :: ClientConfiguration where
  "ClientConfiguration_new =
     \<lparr>message_max_bytes = kDefaultMessageMaxBytes, socket_timeout = kDefaultSocketTimeout,
      client_id = DefaultClientId, broker_list = [], auto_connect = DefaultClientAutoConnect\<rparr>"

section \<open>Adding brokers\<close>

definition AddBroker_address :: "BrokerAddress \<Rightarrow> ClientConfiguration \<Rightarrow> ClientConfiguration" where
  "AddBroker_address broker_address c = c\<lparr>broker_list := broker_list c @ [broker_address]\<rparr>"

text \<open>
  The templates, for a string and an integer: \<^verbatim>\<open>lexical_cast\<close> leaves a string as it is and prints
  an integer in decimal.
\<close>

definition AddBroker :: "String \<Rightarrow> Int32 \<Rightarrow> ClientConfiguration \<Rightarrow> ClientConfiguration" where
  "AddBroker host_name number c = AddBroker_address \<lparr>hostname = host_name, service = dec_int (sint number)\<rparr> c"

definition AddBroker_of :: "Broker \<Rightarrow> ClientConfiguration \<Rightarrow> ClientConfiguration" where
  "AddBroker_of broker c = AddBroker (host broker) (port broker) c"

text \<open>
  \<^verbatim>\<open>str.find(':')\<close> is the index of the first colon or \<^verbatim>\<open>npos\<close>, which is above every length, and
  \<^verbatim>\<open>str.substr(0, npos)\<close> is the whole string.
\<close>

definition colon :: Byte where
  "colon = 58"

definition find_colon :: "String \<Rightarrow> nat option" where
  "find_colon s = (let i = find_if (\<lambda>b. b = colon) s in if i = length s then None else Some i)"

definition substr_to :: "nat option \<Rightarrow> String \<Rightarrow> String" where
  "substr_to i s = (case i of None \<Rightarrow> s | Some n \<Rightarrow> take n s)"

definition AddBrokerFromString :: "String \<Rightarrow> ClientConfiguration \<Rightarrow> ClientConfiguration" where
  "AddBrokerFromString s c =
     (if s = [] then c
      else let delimiter_position = find_colon s;
             broker =
               (case delimiter_position of
                  Some i \<Rightarrow>
                    if 0 < i \<and> i < length s - 1
                    then \<lparr>hostname = take i s, service = drop (i + 1) s\<rparr>
                    else \<lparr>hostname = substr_to delimiter_position s, service = DefaultKafkaService\<rparr>
                | None \<Rightarrow> \<lparr>hostname = substr_to delimiter_position s, service = DefaultKafkaService\<rparr>)
        in if hostname broker = [] \<or> service broker = [] then c
           else c\<lparr>broker_list := broker_list c @ [broker]\<rparr>)"

section \<open>What is added\<close>

lemma find_if_takeWhile: "find_if P xs = length (takeWhile (\<lambda>x. \<not> P x) xs)"
  by (induction xs) auto

lemma length_takeWhile_eq: "length (takeWhile P xs) = length xs \<longleftrightarrow> takeWhile P xs = xs"
  by (metis takeWhile_eq_take take_all_iff order_refl)

lemma DefaultKafkaService_nonempty [simp]: "DefaultKafkaService \<noteq> []"
  by (simp add: DefaultKafkaService_def str_def)

lemma AddBrokerFromString_split:
  "AddBrokerFromString s c =
     (let h = takeWhile (\<lambda>b. b \<noteq> colon) s; rest = drop (length h + 1) s
      in if h = [] then c
         else AddBroker_address \<lparr>hostname = h, service = if rest = [] then DefaultKafkaService else rest\<rparr> c)"
proof -
  let ?h = "takeWhile (\<lambda>b. b \<noteq> colon) s"
  have l: "find_if (\<lambda>b. b = colon) s = length ?h" by (simp add: find_if_takeWhile)
  have t: "take (length ?h) s = ?h" by (metis takeWhile_eq_take)
  consider "s = []" | "s \<noteq> []" "length ?h = length s" | "s \<noteq> []" "length ?h < length s"
    using length_takeWhile_le [of "\<lambda>b. b \<noteq> colon" s] by linarith
  then show ?thesis
  proof cases
    case 1 then show ?thesis by (simp add: AddBrokerFromString_def)
  next
    case 2
    have e: "?h = s" using 2(2) by (simp only: length_takeWhile_eq)
    show ?thesis
      using 2(1) by (simp add: AddBrokerFromString_def find_colon_def l e substr_to_def AddBroker_address_def Let_def)
  next
    case 3
    then show ?thesis
      by (auto simp: AddBrokerFromString_def find_colon_def l t substr_to_def AddBroker_address_def Let_def)
  qed
qed

text \<open>C40: a broker given as a string. The part before the first colon is the host and the rest the
  service; without a colon, or with nothing behind it, the service is the default one; a string
  without a host adds nothing. So a host without colons and a service that are printed with a colon
  between them are read back, and a broker of a metadata answer and its printed form add the same
  address.\<close>

theorem AddBrokerFromString_reads:
  assumes "h \<noteq> []" and "colon \<notin> set h"
  shows "AddBrokerFromString (h @ [colon] @ t) c =
      AddBroker_address \<lparr>hostname = h, service = if t = [] then DefaultKafkaService else t\<rparr> c \<and>
    AddBrokerFromString h c = AddBroker_address \<lparr>hostname = h, service = DefaultKafkaService\<rparr> c \<and>
    AddBrokerFromString (h @ [colon] @ dec_int (sint n)) c = AddBroker_of \<lparr>node_id = i, host = h, port = n\<rparr> c \<and>
    AddBrokerFromString [] c = c \<and> AddBrokerFromString (colon # t) c = c"
proof -
  have w: "takeWhile (\<lambda>b. b \<noteq> colon) (h @ ys) = h @ takeWhile (\<lambda>b. b \<noteq> colon) ys" for ys
    using assms(2) by (intro takeWhile_append2) auto
  have w0: "takeWhile (\<lambda>b. b \<noteq> colon) h = h" using w [of "[]"] by (simp only: append_Nil2 takeWhile.simps)
  have "dec_nat m \<noteq> []" for m by (subst dec_nat.simps) simp
  then have "dec_int k \<noteq> []" for k by (simp add: dec_int_def)
  then show ?thesis
    using assms(1) by (simp add: AddBrokerFromString_split w w0 AddBroker_of_def AddBroker_def Let_def)
qed

theorem AddBrokerFromString_reads_witness:
  "broker_list (AddBrokerFromString (str ''kafka:9093'') ClientConfiguration_new) =
     [\<lparr>hostname = str ''kafka'', service = str ''9093''\<rparr>]"
  using AddBrokerFromString_reads [of "str ''kafka''" "str ''9093''" ClientConfiguration_new]
  by (simp add: str_def colon_def AddBroker_address_def ClientConfiguration_new_def)

end
