(* ===== verification/Asio_Client.thy ===== *)
theory Asio_Client
  imports Request_Write Response_Read Client_Config
begin

text \<open>
  \<^verbatim>\<open>client.h\<close> and \<^verbatim>\<open>impl/client.h\<close> of the protocol library: the asynchronous client over boost::asio.
  A function object the client hands to asio is a value: the handler of a user is a number, the bound
  members \<^verbatim>\<open>SendAsyncRequest\<close> and \<^verbatim>\<open>HandleAsyncAutoConnect\<close> are constructors with what is bound. The
  \<^verbatim>\<open>io_service\<close> is what asio has been asked for: the operations under way, the waits on the timer,
  the function objects posted and the cancellations, in the order of the calls. What an operation
  ends with is not modelled: it is an argument of the handlers. The template argument \<^verbatim>\<open>TRequest\<close>
  is a value of \<open>api\<close>; the checksum of a message is a parameter, as in the writer.
\<close>

section \<open>Requests and responses of all classes\<close>

datatype api = Api_produce | Api_fetch | Api_offset | Api_metadata | Api_consumer_metadata
  | Api_offset_commit | Api_offset_fetch

datatype any_request =
    Any_ProduceRequest ProduceRequest
  | Any_FetchRequest FetchRequest
  | Any_OffsetRequest OffsetRequest
  | Any_MetadataRequest MetadataRequest
  | Any_ConsumerMetadataRequest ConsumerMetadataRequest
  | Any_OffsetCommitRequest OffsetCommitRequest
  | Any_OffsetFetchRequest OffsetFetchRequest

datatype any_response =
    Any_ProduceResponse ProduceResponse
  | Any_FetchResponse FetchResponse
  | Any_OffsetResponse OffsetResponse
  | Any_MetadataResponse MetadataResponse
  | Any_ConsumerMetadataResponse ConsumerMetadataResponse
  | Any_OffsetCommitResponse OffsetCommitResponse
  | Any_OffsetFetchResponse OffsetFetchResponse

fun api_of :: "any_request \<Rightarrow> api" where
  "api_of (Any_ProduceRequest r) = Api_produce"
| "api_of (Any_FetchRequest r) = Api_fetch"
| "api_of (Any_OffsetRequest r) = Api_offset"
| "api_of (Any_MetadataRequest r) = Api_metadata"
| "api_of (Any_ConsumerMetadataRequest r) = Api_consumer_metadata"
| "api_of (Any_OffsetCommitRequest r) = Api_offset_commit"
| "api_of (Any_OffsetFetchRequest r) = Api_offset_fetch"

fun ResponseExpected :: "any_request \<Rightarrow> bool" where
  "ResponseExpected (Any_ProduceRequest r) = ProduceRequest_ResponseExpected r"
| "ResponseExpected (Any_FetchRequest r) = Request_ResponseExpected r"
| "ResponseExpected (Any_OffsetRequest r) = Request_ResponseExpected r"
| "ResponseExpected (Any_MetadataRequest r) = Request_ResponseExpected r"
| "ResponseExpected (Any_ConsumerMetadataRequest r) = Request_ResponseExpected r"
| "ResponseExpected (Any_OffsetCommitRequest r) = Request_ResponseExpected r"
| "ResponseExpected (Any_OffsetFetchRequest r) = Request_ResponseExpected r"

fun write_any :: "(Byte list \<Rightarrow> Int32) \<Rightarrow> any_request \<Rightarrow> String \<Rightarrow> Byte list \<Rightarrow> Byte list" where
  "write_any crc32 (Any_ProduceRequest r) =
     WriteRequest ProduceRequest_ApiKey RequestMessageWireSize_Produce (WriteRequestMessage_Produce crc32) r"
| "write_any crc32 (Any_FetchRequest r) =
     WriteRequest FetchRequest_ApiKey RequestMessageWireSize_Fetch WriteRequestMessage_Fetch r"
| "write_any crc32 (Any_OffsetRequest r) =
     WriteRequest OffsetRequest_ApiKey RequestMessageWireSize_Offset WriteRequestMessage_Offset r"
| "write_any crc32 (Any_MetadataRequest r) =
     WriteRequest MetadataRequest_ApiKey RequestMessageWireSize_Metadata WriteRequestMessage_Metadata r"
| "write_any crc32 (Any_ConsumerMetadataRequest r) =
     WriteRequest ConsumerMetadataRequest_ApiKey RequestMessageWireSize_ConsumerMetadata
       WriteRequestMessage_ConsumerMetadata r"
| "write_any crc32 (Any_OffsetCommitRequest r) =
     WriteRequest OffsetCommitRequest_ApiKey RequestMessageWireSize_OffsetCommit
       WriteRequestMessage_OffsetCommit r"
| "write_any crc32 (Any_OffsetFetchRequest r) =
     WriteRequest OffsetFetchRequest_ApiKey RequestMessageWireSize_OffsetFetch
       WriteRequestMessage_OffsetFetch r"

text \<open>The members a new response leaves uninitialised are all set by its reader.\<close>

definition with_response ::
  "('r \<Rightarrow> any_response) \<Rightarrow> cpp_exn + ('r \<times> error_code \<times> istream) \<Rightarrow> cpp_exn + (any_response \<times> error_code)" where
  "with_response f res = (case res of Inl e \<Rightarrow> Inl e | Inr (r, ec, _) \<Rightarrow> Inr (f r, ec))"

fun read_any :: "api \<Rightarrow> istream \<Rightarrow> cpp_exn + (any_response \<times> error_code)" where
  "read_any Api_produce is = with_response Any_ProduceResponse
     (ReadResponse ReadResponseMessage_Produce is \<lparr>response_correlation_id = 0, pr_topics = []\<rparr> no_error)"
| "read_any Api_fetch is = with_response Any_FetchResponse
     (ReadResponse ReadResponseMessage_Fetch is \<lparr>response_correlation_id = 0, fr_topics = []\<rparr> no_error)"
| "read_any Api_offset is = with_response Any_OffsetResponse
     (ReadResponse ReadResponseMessage_Offset is \<lparr>response_correlation_id = 0, or_topics = []\<rparr> no_error)"
| "read_any Api_metadata is = with_response Any_MetadataResponse
     (ReadResponse ReadResponseMessage_Metadata is
       \<lparr>response_correlation_id = 0, brokers = [], mr_topics = []\<rparr> no_error)"
| "read_any Api_consumer_metadata is = with_response Any_ConsumerMetadataResponse
     (ReadResponse ReadResponseMessage_ConsumerMetadata is
       \<lparr>response_correlation_id = 0, cm_error_code = 0, coordinator_id = 0, coordinator_host = [],
        coordinator_port = 0\<rparr> no_error)"
| "read_any Api_offset_commit is = with_response Any_OffsetCommitResponse
     (ReadResponse ReadResponseMessage_OffsetCommit is \<lparr>response_correlation_id = 0, ocr_topics = []\<rparr> no_error)"
| "read_any Api_offset_fetch is = with_response Any_OffsetFetchResponse
     (ReadResponse ReadResponseMessage_OffsetFetch is \<lparr>response_correlation_id = 0, ofr_topics = []\<rparr> no_error)"

section \<open>The client and its io service\<close>

datatype ClientState = kStateClosed | kStateConnecting | kStateConnected | kStateWriting | kStateReading
  | kStateDestroyed

datatype conn_handler =
    User_handler nat
  | Bound_SendAsyncRequest any_request nat
  | Bound_HandleAsyncAutoConnect conn_handler nat

datatype operation =
    Async_resolve String String conn_handler
  | Async_connect conn_handler
  | Async_write "Byte list" api nat bool
  | Async_read_size nat "Byte list" api nat
  | Async_read_response nat "Byte list" api nat

datatype posted_call =
    Call_connection conn_handler error_code
  | Call_request nat error_code "any_response option"

datatype io_call = Resolver_cancel | Socket_shutdown | Socket_close | Deadline_cancel

record io_service =
  clock :: nat
  operations :: "operation list"
  waits :: nat
  armed :: bool
  posted :: "posted_call list"
  io_calls :: "io_call list"

text \<open>
  Setting the expiry of a timer and cancelling it cancel the waits under way: their handlers still run.
  \<open>waits\<close> counts the handlers to run and \<open>armed\<close> says whether one of them waits for the expiry.
  The expiry of the timer is \<open>None\<close> for the infinite future, and for a timer never set, whose expiry
  is not looked at.
\<close>

record Client =
  configuration :: ClientConfiguration
  client_state :: ClientState
  expires_at :: "nat option"

type_synonym astate = "Client \<times> io_service"

definition io_post :: "posted_call \<Rightarrow> astate \<Rightarrow> astate" where
  "io_post f s = (case s of (c, io) \<Rightarrow> (c, io\<lparr>posted := posted io @ [f]\<rparr>))"

definition io_start :: "operation \<Rightarrow> astate \<Rightarrow> astate" where
  "io_start x s = (case s of (c, io) \<Rightarrow> (c, io\<lparr>operations := operations io @ [x]\<rparr>))"

definition io_cancel :: "io_call list \<Rightarrow> astate \<Rightarrow> astate" where
  "io_cancel xs s = (case s of (c, io) \<Rightarrow>
     (c, io\<lparr>io_calls := io_calls io @ xs, armed := armed io \<and> Deadline_cancel \<notin> set xs\<rparr>))"

definition set_state :: "ClientState \<Rightarrow> astate \<Rightarrow> astate" where
  "set_state x s = (case s of (c, io) \<Rightarrow> (c\<lparr>client_state := x\<rparr>, io))"

section \<open>Members\<close>

definition Client_new :: "ClientConfiguration \<Rightarrow> Client" where
  "Client_new config = \<lparr>configuration = config, client_state = kStateClosed, expires_at = None\<rparr>"

definition Client_Close :: "astate \<Rightarrow> astate" where
  "Client_Close s =
     io_cancel [Resolver_cancel, Socket_shutdown, Socket_close, Deadline_cancel] (set_state kStateClosed s)"

definition Client_delete :: "astate \<Rightarrow> astate" where
  "Client_delete s = set_state kStateDestroyed (Client_Close s)"

definition SetDeadline :: "astate \<Rightarrow> astate" where
  "SetDeadline s =
     (case s of (c, io) \<Rightarrow>
        (c\<lparr>expires_at := Some (clock io + unat (socket_timeout (configuration c)))\<rparr>, io\<lparr>waits := waits io + 1, armed := True\<rparr>))"

definition AsyncConnect_host :: "String \<Rightarrow> String \<Rightarrow> conn_handler \<Rightarrow> astate \<Rightarrow> astate" where
  "AsyncConnect_host h svc handler s =
     (if client_state (fst s) \<noteq> kStateClosed
      then io_post (Call_connection handler (make_error_code_client kErrorAlreadyConnected)) s
      else SetDeadline (set_state kStateConnecting (io_start (Async_resolve h svc handler) s)))"

text \<open>The template for other types of host and service; \<^verbatim>\<open>boost::lexical_cast\<close> to a string is an argument.\<close>

definition AsyncConnect_cast ::
  "('x \<Rightarrow> String) \<Rightarrow> ('y \<Rightarrow> String) \<Rightarrow> 'x \<Rightarrow> 'y \<Rightarrow> conn_handler \<Rightarrow> astate \<Rightarrow> astate" where
  "AsyncConnect_cast lexical_cast_x lexical_cast_y h svc handler s =
     AsyncConnect_host (lexical_cast_x h) (lexical_cast_y svc) handler s"

text \<open>The iterator into the list of brokers is an index; reading the end of the list is undefined.\<close>

definition AutoConnect :: "conn_handler \<Rightarrow> nat \<Rightarrow> astate \<Rightarrow> astate outcome" where
  "AutoConnect handler broker_iter s =
     (let bs = broker_list (configuration (fst s)) in
      if broker_iter < length bs
      then let b = bs ! broker_iter;
             wrapped_handler = Bound_HandleAsyncAutoConnect handler broker_iter
        in ret (SetDeadline (set_state kStateConnecting
             (io_start (Async_resolve (hostname b) (service b) wrapped_handler) s)))
      else stop Undefined)"

definition AsyncConnect :: "conn_handler \<Rightarrow> astate \<Rightarrow> astate outcome" where
  "AsyncConnect handler s =
     (if client_state (fst s) \<noteq> kStateClosed
      then ret (io_post (Call_connection handler (make_error_code_client kErrorAlreadyConnected)) s)
      else if broker_list (configuration (fst s)) = []
      then ret (io_post (Call_connection handler (make_error_code_client kErrorNoBroker)) s)
      else AutoConnect handler 0 s)"

text \<open>The error passed to \<^verbatim>\<open>SendAsyncRequest\<close> is not looked at.\<close>

definition SendAsyncRequest ::
  "(Byte list \<Rightarrow> Int32) \<Rightarrow> error_code \<Rightarrow> any_request \<Rightarrow> nat \<Rightarrow> astate \<Rightarrow> astate" where
  "SendAsyncRequest crc32 error request handler s =
     (let buffer = write_any crc32 request (client_id (configuration (fst s))) [];
          response_expected = ResponseExpected request
      in SetDeadline (set_state kStateWriting
           (io_start (Async_write buffer (api_of request) handler response_expected) s)))"

definition AsyncRequest :: "(Byte list \<Rightarrow> Int32) \<Rightarrow> any_request \<Rightarrow> nat \<Rightarrow> astate \<Rightarrow> astate outcome" where
  "AsyncRequest crc32 request handler s =
     (if client_state (fst s) = kStateClosed
      then if auto_connect (configuration (fst s))
        then AsyncConnect (Bound_SendAsyncRequest request handler) s
        else ret (io_post (Call_request handler (make_error_code_client kErrorNotConnected) None) s)
      else if client_state (fst s) \<noteq> kStateConnected
      then ret (io_post (Call_request handler (make_error_code_client kErrorInProgress) None) s)
      else ret (SendAsyncRequest crc32 (make_error_code_client kErrorSuccess) request handler s))"

section \<open>Handlers\<close>

definition HandleAsyncResolve :: "error_code \<Rightarrow> conn_handler \<Rightarrow> astate \<Rightarrow> astate" where
  "HandleAsyncResolve error handler s =
     (if client_state (fst s) = kStateDestroyed then s
      else if is_error error then Client_Close (io_post (Call_connection handler error) s)
      else SetDeadline (io_start (Async_connect handler) s))"

definition HandleAsyncConnect :: "error_code \<Rightarrow> conn_handler \<Rightarrow> astate \<Rightarrow> astate" where
  "HandleAsyncConnect error handler s =
     (if client_state (fst s) = kStateDestroyed then s
      else let s = (if is_error error then Client_Close s
                    else io_cancel [Deadline_cancel] (set_state kStateConnected s))
        in io_post (Call_connection handler error) s)"

definition HandleAsyncAutoConnect :: "error_code \<Rightarrow> conn_handler \<Rightarrow> nat \<Rightarrow> astate \<Rightarrow> astate outcome" where
  "HandleAsyncAutoConnect error handler broker_iter s =
     (if is_error error \<and> broker_iter + 1 \<noteq> length (broker_list (configuration (fst s)))
      then AutoConnect handler (broker_iter + 1) s
      else ret (io_post (Call_connection handler error) s))"

definition HandleAsyncRequestWrite :: "error_code \<Rightarrow> api \<Rightarrow> nat \<Rightarrow> bool \<Rightarrow> astate \<Rightarrow> astate" where
  "HandleAsyncRequestWrite error t handler response_expected s =
     (if client_state (fst s) = kStateDestroyed then s
      else if is_error error then Client_Close (io_post (Call_request handler error None) s)
      else if client_state (fst s) = kStateClosed
      then io_post (Call_request handler (make_error_code_client kErrorNotConnected) None) s
      else if \<not> response_expected
      then io_cancel [Deadline_cancel] (set_state kStateConnected (io_post (Call_request handler error None) s))
      else SetDeadline (set_state kStateReading (io_start (Async_read_size 4 [] t handler) s)))"

text \<open>
  \<open>buffer\<close> is what the stream buffer holds with the bytes read committed. \<^verbatim>\<open>prepare\<close> takes a
  \<^verbatim>\<open>size_t\<close>: a negative size is more than any buffer can hold, so it throws.
\<close>

definition HandleAsyncResponseSizeRead ::
  "error_code \<Rightarrow> Byte list \<Rightarrow> api \<Rightarrow> nat \<Rightarrow> astate \<Rightarrow> astate outcome" where
  "HandleAsyncResponseSizeRead error buffer t handler s =
     (if client_state (fst s) = kStateDestroyed then ret s
      else if is_error error then ret (Client_Close (io_post (Call_request handler error None) s))
      else if client_state (fst s) = kStateClosed
      then ret (io_post (Call_request handler (make_error_code_client kErrorNotConnected) None) s)
      else let (sz, is) = ReadInt32 (open_istream buffer) in
        if sint (message_max_bytes (configuration (fst s))) \<le> sint sz
        then ret (Client_Close
          (io_post (Call_request handler (make_error_code_kafka kErrorMessageSizeTooLarge) None) s))
        else if sint sz < 0 then stop (Throws Length_error)
        else ret (SetDeadline (io_start (Async_read_response (nat (sint sz)) (remaining is) t handler) s)))"

definition HandleAsyncResponseRead ::
  "error_code \<Rightarrow> Byte list \<Rightarrow> api \<Rightarrow> nat \<Rightarrow> astate \<Rightarrow> astate outcome" where
  "HandleAsyncResponseRead error buffer t handler s =
     (if client_state (fst s) = kStateDestroyed then ret s
      else if is_error error then ret (Client_Close (io_post (Call_request handler error None) s))
      else (case read_any t (open_istream buffer) of
          Inl e \<Rightarrow> stop (Throws e)
        | Inr (response, ec) \<Rightarrow>
            if is_error ec then ret (Client_Close (io_post (Call_request handler ec None) s))
            else ret (io_cancel [Deadline_cancel] (set_state kStateConnected
                   (io_post (Call_request handler ec (Some response)) s)))))"

definition HandleDeadline :: "astate \<Rightarrow> astate" where
  "HandleDeadline s =
     (case s of (c, io) \<Rightarrow>
        if client_state c = kStateDestroyed \<or> client_state c = kStateClosed \<or> client_state c = kStateConnected then s
        else (case expires_at c of
            None \<Rightarrow> s
          | Some t \<Rightarrow> if t \<le> clock io then Client_Close (c\<lparr>expires_at := None\<rparr>, io\<lparr>armed := False\<rparr>) else s))"

end
