(* ===== verification/Asio_Session.thy ===== *)
theory Asio_Session
  imports Asio_Client "HOL-Library.Multiset"
begin

text \<open>
  The asio client in its \<^verbatim>\<open>io_service\<close>. A session is the client, what asio has been asked for, the
  number of handlers users have passed in and the calls of handlers so far. A step of the io service
  ends an operation, runs a function object posted or ends a wait, in any order and with any result;
  all asio promises is that each is done once and that a read without an error has all the bytes
  asked for. The steps of the outside are the calls of the public members and the passing of time. An
  abstract service of handlers says what a user may rely on; the client refines it.
\<close>

section \<open>Running the io service\<close>

type_synonym answer = "nat \<times> error_code \<times> any_response option"

type_synonym session = "nat \<times> answer list \<times> astate"

fun complete :: "operation \<Rightarrow> error_code \<Rightarrow> Byte list \<Rightarrow> astate \<Rightarrow> astate outcome" where
  "complete (Async_resolve h svc k) ec data s = ret (HandleAsyncResolve ec k s)"
| "complete (Async_connect k) ec data s = ret (HandleAsyncConnect ec k s)"
| "complete (Async_write bs t i expected) ec data s = ret (HandleAsyncRequestWrite ec t i expected s)"
| "complete (Async_read_size n buf t i) ec data s = HandleAsyncResponseSizeRead ec (buf @ data) t i s"
| "complete (Async_read_response n buf t i) ec data s = HandleAsyncResponseRead ec (buf @ data) t i s"

fun may_complete :: "operation \<Rightarrow> error_code \<Rightarrow> Byte list \<Rightarrow> bool" where
  "may_complete (Async_read_size n buf t i) ec data = (length data = n \<or> is_error ec \<and> length data < n)"
| "may_complete (Async_read_response n buf t i) ec data = (length data = n \<or> is_error ec \<and> length data < n)"
| "may_complete _ ec data = (data = [])"

text \<open>The bound members call through a pointer to the client, which is undefined once it is destroyed.\<close>

fun run_call :: "(Byte list \<Rightarrow> Int32) \<Rightarrow> posted_call \<Rightarrow> astate \<Rightarrow> (answer list \<times> astate) outcome" where
  "run_call crc32 (Call_request i ec rsp) s = ret ([(i, ec, rsp)], s)"
| "run_call crc32 (Call_connection (User_handler i) ec) s = ret ([(i, ec, None)], s)"
| "run_call crc32 (Call_connection (Bound_SendAsyncRequest r i) ec) s =
     (if client_state (fst s) = kStateDestroyed then stop Undefined else ret ([], SendAsyncRequest crc32 ec r i s))"
| "run_call crc32 (Call_connection (Bound_HandleAsyncAutoConnect k i) ec) s =
     (if client_state (fst s) = kStateDestroyed then stop Undefined
      else bnd (HandleAsyncAutoConnect ec k i s) (\<lambda>s. ret ([], s)))"

definition without :: "nat \<Rightarrow> 'a list \<Rightarrow> 'a list" where
  "without i xs = take i xs @ drop (Suc i) xs"

definition end_operation :: "nat \<Rightarrow> error_code \<Rightarrow> Byte list \<Rightarrow> astate \<Rightarrow> astate outcome" where
  "end_operation i ec data s =
     (case s of (c, io) \<Rightarrow>
        complete (operations io ! i) ec data (c, io\<lparr>operations := without i (operations io)\<rparr>))"

definition run_posted :: "(Byte list \<Rightarrow> Int32) \<Rightarrow> nat \<Rightarrow> astate \<Rightarrow> (answer list \<times> astate) outcome" where
  "run_posted crc32 i s =
     (case s of (c, io) \<Rightarrow> run_call crc32 (posted io ! i) (c, io\<lparr>posted := without i (posted io)\<rparr>))"

text \<open>A wait ends because it was cancelled or because the timer has expired.\<close>

definition end_wait :: "bool \<Rightarrow> astate \<Rightarrow> astate" where
  "end_wait expired s =
     (case s of (c, io) \<Rightarrow> HandleDeadline (c, io\<lparr>waits := waits io - 1, armed := armed io \<and> \<not> expired\<rparr>))"

definition may_end :: "bool \<Rightarrow> astate \<Rightarrow> bool" where
  "may_end expired s =
     (case s of (c, io) \<Rightarrow>
        if expired then armed io \<and> 0 < waits io \<and> (case expires_at c of None \<Rightarrow> False | Some t \<Rightarrow> t \<le> clock io)
        else (if armed io then 1 else 0) < waits io)"

inductive io_step :: "(Byte list \<Rightarrow> Int32) \<Rightarrow> session \<Rightarrow> session \<Rightarrow> bool" for crc32 where
  operation: "i < length (operations (snd s)) \<Longrightarrow> may_complete (operations (snd s) ! i) ec data \<Longrightarrow>
    end_operation i ec data s = ret s' \<Longrightarrow> io_step crc32 (n, as, s) (n, as, s')"
| posted: "i < length (posted (snd s)) \<Longrightarrow> run_posted crc32 i s = ret (a, s') \<Longrightarrow>
    io_step crc32 (n, as, s) (n, as @ a, s')"
| wait: "may_end expired s \<Longrightarrow> io_step crc32 (n, as, s) (n, as, end_wait expired s)"

inductive outside_step :: "(Byte list \<Rightarrow> Int32) \<Rightarrow> session \<Rightarrow> session \<Rightarrow> bool" for crc32 where
  connect_host: "client_state (fst s) \<noteq> kStateDestroyed \<Longrightarrow>
    outside_step crc32 (n, as, s) (Suc n, as, AsyncConnect_host h svc (User_handler n) s)"
| connect: "client_state (fst s) \<noteq> kStateDestroyed \<Longrightarrow> AsyncConnect (User_handler n) s = ret s' \<Longrightarrow>
    outside_step crc32 (n, as, s) (Suc n, as, s')"
| request: "client_state (fst s) \<noteq> kStateDestroyed \<Longrightarrow> AsyncRequest crc32 r n s = ret s' \<Longrightarrow>
    outside_step crc32 (n, as, s) (Suc n, as, s')"
| close: "client_state (fst s) \<noteq> kStateDestroyed \<Longrightarrow> outside_step crc32 (n, as, s) (n, as, Client_Close s)"
| destroy: "client_state (fst s) \<noteq> kStateDestroyed \<Longrightarrow> outside_step crc32 (n, as, s) (n, as, Client_delete s)"
| time: "outside_step crc32 (n, as, c, io) (n, as, c, io\<lparr>clock := clock io + d\<rparr>)"

definition new_session :: "ClientConfiguration \<Rightarrow> session" where
  "new_session config =
     (0, [], Client_new config, \<lparr>clock = 0, operations = [], waits = 0, armed = False, posted = [], io_calls = []\<rparr>)"

inductive session_run :: "(Byte list \<Rightarrow> Int32) \<Rightarrow> ClientConfiguration \<Rightarrow> session \<Rightarrow> bool" for crc32 config where
  start: "session_run crc32 config (new_session config)"
| io: "session_run crc32 config s \<Longrightarrow> io_step crc32 s t \<Longrightarrow> session_run crc32 config t"
| outside: "session_run crc32 config s \<Longrightarrow> outside_step crc32 s t \<Longrightarrow> session_run crc32 config t"

section \<open>Handlers outstanding and work left\<close>

fun handler_id :: "conn_handler \<Rightarrow> nat" where
  "handler_id (User_handler i) = i"
| "handler_id (Bound_SendAsyncRequest r i) = i"
| "handler_id (Bound_HandleAsyncAutoConnect k i) = handler_id k"

fun operation_id :: "operation \<Rightarrow> nat" where
  "operation_id (Async_resolve h svc k) = handler_id k"
| "operation_id (Async_connect k) = handler_id k"
| "operation_id (Async_write bs t i expected) = i"
| "operation_id (Async_read_size n buf t i) = i"
| "operation_id (Async_read_response n buf t i) = i"

fun call_id :: "posted_call \<Rightarrow> nat" where
  "call_id (Call_connection k ec) = handler_id k"
| "call_id (Call_request i ec rsp) = i"

definition open_ids :: "astate \<Rightarrow> nat multiset" where
  "open_ids s = mset (map operation_id (operations (snd s))) + mset (map call_id (posted (snd s)))"

definition alive :: "astate \<Rightarrow> bool" where
  "alive s \<longleftrightarrow> client_state (fst s) \<noteq> kStateDestroyed"

text \<open>
  The steps a function object or an operation can still cause, counted along its longest way: a
  failed attempt on a broker is a resolution, a connection and a call, three steps.
\<close>

fun handler_steps :: "nat \<Rightarrow> conn_handler \<Rightarrow> nat" where
  "handler_steps n (User_handler i) = 1"
| "handler_steps n (Bound_SendAsyncRequest r i) = 5"
| "handler_steps n (Bound_HandleAsyncAutoConnect k i) = handler_steps n k + 1 + 3 * (n - 1 - i)"

fun operation_steps :: "nat \<Rightarrow> operation \<Rightarrow> nat" where
  "operation_steps n (Async_resolve h svc k) = 2 + handler_steps n k"
| "operation_steps n (Async_connect k) = 1 + handler_steps n k"
| "operation_steps n (Async_write bs t i expected) = 4"
| "operation_steps n (Async_read_size sz buf t i) = 3"
| "operation_steps n (Async_read_response sz buf t i) = 2"

fun call_steps :: "nat \<Rightarrow> posted_call \<Rightarrow> nat" where
  "call_steps n (Call_connection k ec) = handler_steps n k"
| "call_steps n (Call_request i ec rsp) = 1"

definition broker_count :: "astate \<Rightarrow> nat" where
  "broker_count s = length (broker_list (configuration (fst s)))"

definition work :: "astate \<Rightarrow> nat" where
  "work s = 2 * ((\<Sum>x \<leftarrow> operations (snd s). operation_steps (broker_count s) x) +
     (\<Sum>f \<leftarrow> posted (snd s). call_steps (broker_count s) f)) + waits (snd s)"

text \<open>Every bound iterator points to a broker, and no read of a response is larger than allowed.\<close>

fun handler_ok :: "nat \<Rightarrow> conn_handler \<Rightarrow> bool" where
  "handler_ok n (Bound_HandleAsyncAutoConnect k i) = (i < n \<and> handler_ok n k)"
| "handler_ok n _ = True"

fun operation_ok :: "nat \<Rightarrow> int \<Rightarrow> operation \<Rightarrow> bool" where
  "operation_ok n m (Async_resolve h svc k) = handler_ok n k"
| "operation_ok n m (Async_connect k) = handler_ok n k"
| "operation_ok n m (Async_read_response sz buf t i) = (int sz < m)"
| "operation_ok n m _ = True"

fun call_ok :: "nat \<Rightarrow> posted_call \<Rightarrow> bool" where
  "call_ok n (Call_connection k ec) = handler_ok n k"
| "call_ok n _ = True"

definition max_bytes :: "astate \<Rightarrow> int" where
  "max_bytes s = sint (message_max_bytes (configuration (fst s)))"

definition session_ok :: "astate \<Rightarrow> bool" where
  "session_ok s \<longleftrightarrow> list_all (operation_ok (broker_count s) (max_bytes s)) (operations (snd s)) \<and>
     list_all (call_ok (broker_count s)) (posted (snd s))"

section \<open>What the members do to them\<close>

named_theorems asio_simps

lemma client_state_simps [asio_simps]:
  "client_state (fst (io_post f s)) = client_state (fst s)" "client_state (fst (io_start x s)) = client_state (fst s)"
  "client_state (fst (io_cancel xs s)) = client_state (fst s)" "client_state (fst (set_state y s)) = y"
  "client_state (fst (SetDeadline s)) = client_state (fst s)" "client_state (fst (Client_Close s)) = kStateClosed"
  by (cases s; simp add: io_post_def io_start_def io_cancel_def set_state_def SetDeadline_def Client_Close_def)+

lemma configuration_simps [asio_simps]:
  "configuration (fst (io_post f s)) = configuration (fst s)" "configuration (fst (io_start x s)) = configuration (fst s)"
  "configuration (fst (io_cancel xs s)) = configuration (fst s)" "configuration (fst (set_state y s)) = configuration (fst s)"
  "configuration (fst (SetDeadline s)) = configuration (fst s)" "configuration (fst (Client_Close s)) = configuration (fst s)"
  by (cases s; simp add: io_post_def io_start_def io_cancel_def set_state_def SetDeadline_def Client_Close_def)+

lemma io_service_simps [asio_simps]:
  "operations (snd (io_post f s)) = operations (snd s)" "operations (snd (io_start x s)) = operations (snd s) @ [x]"
  "operations (snd (io_cancel xs s)) = operations (snd s)" "operations (snd (set_state y s)) = operations (snd s)"
  "operations (snd (SetDeadline s)) = operations (snd s)" "operations (snd (Client_Close s)) = operations (snd s)"
  "posted (snd (io_post f s)) = posted (snd s) @ [f]" "posted (snd (io_start x s)) = posted (snd s)"
  "posted (snd (io_cancel xs s)) = posted (snd s)" "posted (snd (set_state y s)) = posted (snd s)"
  "posted (snd (SetDeadline s)) = posted (snd s)" "posted (snd (Client_Close s)) = posted (snd s)"
  "waits (snd (io_post f s)) = waits (snd s)" "waits (snd (io_start x s)) = waits (snd s)"
  "waits (snd (io_cancel xs s)) = waits (snd s)" "waits (snd (set_state y s)) = waits (snd s)"
  "waits (snd (SetDeadline s)) = waits (snd s) + 1" "waits (snd (Client_Close s)) = waits (snd s)"
  by (cases s; simp add: io_post_def io_start_def io_cancel_def set_state_def SetDeadline_def Client_Close_def)+

lemma open_ids_simps [asio_simps]:
  "open_ids (io_post f s) = add_mset (call_id f) (open_ids s)"
  "open_ids (io_start x s) = add_mset (operation_id x) (open_ids s)"
  "open_ids (io_cancel xs s) = open_ids s" "open_ids (set_state y s) = open_ids s"
  "open_ids (SetDeadline s) = open_ids s" "open_ids (Client_Close s) = open_ids s"
  by (simp_all add: open_ids_def asio_simps)

lemma alive_simps [asio_simps]:
  "alive (io_post f s) = alive s" "alive (io_start x s) = alive s" "alive (io_cancel xs s) = alive s"
  "alive (set_state y s) \<longleftrightarrow> y \<noteq> kStateDestroyed" "alive (SetDeadline s) = alive s" "alive (Client_Close s)"
  by (simp_all add: alive_def asio_simps)

lemma destroyed_iff: "client_state (fst s) = kStateDestroyed \<longleftrightarrow> \<not> alive s"
  by (simp add: alive_def)

lemma limits_simps [asio_simps]:
  "broker_count (io_post f s) = broker_count s" "broker_count (io_start x s) = broker_count s"
  "broker_count (io_cancel xs s) = broker_count s" "broker_count (set_state y s) = broker_count s"
  "broker_count (SetDeadline s) = broker_count s" "broker_count (Client_Close s) = broker_count s"
  "max_bytes (io_post f s) = max_bytes s" "max_bytes (io_start x s) = max_bytes s"
  "max_bytes (io_cancel xs s) = max_bytes s" "max_bytes (set_state y s) = max_bytes s"
  "max_bytes (SetDeadline s) = max_bytes s" "max_bytes (Client_Close s) = max_bytes s"
  by (simp_all add: broker_count_def max_bytes_def asio_simps)

lemma session_ok_simps [asio_simps]:
  "session_ok (io_post f s) \<longleftrightarrow> session_ok s \<and> call_ok (broker_count s) f"
  "session_ok (io_start x s) \<longleftrightarrow> session_ok s \<and> operation_ok (broker_count s) (max_bytes s) x"
  "session_ok (io_cancel xs s) = session_ok s" "session_ok (set_state y s) = session_ok s"
  "session_ok (SetDeadline s) = session_ok s" "session_ok (Client_Close s) = session_ok s"
  by (auto simp: session_ok_def asio_simps)

lemma work_simps [asio_simps]:
  "work (io_post f s) = work s + 2 * call_steps (broker_count s) f"
  "work (io_start x s) = work s + 2 * operation_steps (broker_count s) x"
  "work (io_cancel xs s) = work s" "work (set_state y s) = work s"
  "work (SetDeadline s) = work s + 1" "work (Client_Close s) = work s"
  by (simp_all add: work_def asio_simps)

text \<open>
  \<open>passes i k s s'\<close>: a step made on behalf of handler \<open>i\<close>, which was taken out of \<open>s\<close> before, has handed
  the handler on with less than \<open>k\<close> steps left, or has forgotten it because the client is destroyed.
\<close>

definition passes :: "nat \<Rightarrow> nat \<Rightarrow> astate \<Rightarrow> astate \<Rightarrow> bool" where
  "passes i k s s' \<longleftrightarrow> configuration (fst s') = configuration (fst s) \<and> (alive s' \<longleftrightarrow> alive s) \<and>
     open_ids s' = (if alive s then add_mset i (open_ids s) else open_ids s) \<and>
     (session_ok s \<longrightarrow> session_ok s') \<and> work s' < work s + 2 * k"

lemmas passes_simps = passes_def asio_simps

lemma passes_HandleAsyncResolve:
  "handler_ok (broker_count s) k \<Longrightarrow> passes (handler_id k) (2 + handler_steps (broker_count s) k) s (HandleAsyncResolve ec k s)"
  by (simp add: HandleAsyncResolve_def passes_simps destroyed_iff)

lemma passes_HandleAsyncConnect:
  "handler_ok (broker_count s) k \<Longrightarrow> passes (handler_id k) (1 + handler_steps (broker_count s) k) s (HandleAsyncConnect ec k s)"
  by (simp add: HandleAsyncConnect_def passes_simps Let_def destroyed_iff)

lemma passes_HandleAsyncRequestWrite: "passes i 4 s (HandleAsyncRequestWrite ec t i expected s)"
  by (simp add: HandleAsyncRequestWrite_def passes_simps destroyed_iff)

lemma passes_HandleAsyncResponseSizeRead: "post (passes i 3 s) (HandleAsyncResponseSizeRead ec buf t i s)"
  by (simp add: HandleAsyncResponseSizeRead_def passes_simps max_bytes_def destroyed_iff split: prod.splits)

lemma passes_HandleAsyncResponseRead: "post (passes i 2 s) (HandleAsyncResponseRead ec buf t i s)"
  by (simp add: HandleAsyncResponseRead_def passes_simps destroyed_iff split: sum.splits prod.splits)

lemma passes_complete:
  "operation_ok (broker_count s) (max_bytes s) x \<Longrightarrow>
   post (passes (operation_id x) (operation_steps (broker_count s) x) s) (complete x ec data s)"
  by (cases x) (simp_all add: passes_HandleAsyncResolve [simplified] passes_HandleAsyncConnect [simplified]
      passes_HandleAsyncRequestWrite passes_HandleAsyncResponseSizeRead passes_HandleAsyncResponseRead)

lemma passes_AutoConnect:
  "alive s \<Longrightarrow> handler_ok (broker_count s) k \<Longrightarrow> 2 + handler_steps (broker_count s) (Bound_HandleAsyncAutoConnect k i) < m \<Longrightarrow>
   post (passes (handler_id k) m s) (AutoConnect k i s)"
  by (simp add: AutoConnect_def Let_def passes_simps broker_count_def)

lemma passes_SendAsyncRequest: "alive s \<Longrightarrow> passes i 5 s (SendAsyncRequest crc32 ec r i s)"
  by (simp add: SendAsyncRequest_def Let_def passes_simps)

lemma passes_HandleAsyncAutoConnect:
  assumes "alive s" "handler_ok (broker_count s) (Bound_HandleAsyncAutoConnect k i)"
  shows "post (passes (handler_id k) (handler_steps (broker_count s) (Bound_HandleAsyncAutoConnect k i)) s)
    (HandleAsyncAutoConnect ec k i s)"
proof -
  have "post (passes (handler_id k) (handler_steps (broker_count s) (Bound_HandleAsyncAutoConnect k i)) s)
      (AutoConnect k (i + 1) s)" if "i + 1 \<noteq> broker_count s"
    using assms that by (intro passes_AutoConnect) auto
  moreover have "passes (handler_id k) (handler_steps (broker_count s) (Bound_HandleAsyncAutoConnect k i)) s
      (io_post (Call_connection k ec) s)"
    using assms by (simp add: passes_simps)
  ultimately show ?thesis by (simp add: HandleAsyncAutoConnect_def broker_count_def)
qed

section \<open>The abstract service\<close>

text \<open>
  An abstract service of handlers: it is alive or not, has accepted handlers, has some outstanding and
  has called others. It accepts a handler, calls one that is outstanding and, only when it is no longer
  alive, may forget one.
\<close>

type_synonym service_state = "bool \<times> nat \<times> nat multiset \<times> nat list"

inductive spec_step :: "service_state \<Rightarrow> service_state \<Rightarrow> bool" where
  idle: "spec_step x x"
| accept: "spec_step (True, n, P, A) (True, Suc n, add_mset n P, A)"
| answer: "i \<in># P \<Longrightarrow> spec_step (b, n, P, A) (b, n, P - {#i#}, A @ [i])"
| finish: "spec_step (True, n, P, A) (False, n, P, A)"
| forget: "i \<in># P \<Longrightarrow> spec_step (False, n, P, A) (False, n, P - {#i#}, A)"

fun spec_inv :: "service_state \<Rightarrow> bool" where
  "spec_inv (b, n, P, A) \<longleftrightarrow>
     mset A + P \<subseteq># mset [0..<n] \<and> (b \<longrightarrow> mset A + P = mset [0..<n])"

lemma spec_step_inv: "spec_step x y \<Longrightarrow> spec_inv x \<Longrightarrow> spec_inv y"
proof (induction rule: spec_step.induct)
  case (answer i P b n A)
  then have "mset (A @ [i]) + (P - {#i#}) = mset A + P" by simp
  with answer.prems show ?case by (simp only: spec_inv.simps) blast
next
  case (forget i P n A)
  have "mset A + (P - {#i#}) \<subseteq># mset A + P" by simp
  with forget.prems show ?case by (simp only: spec_inv.simps) (blast intro: subset_mset.order_trans)
qed auto

locale handler_service =
  fixes step :: "'s \<Rightarrow> 's \<Rightarrow> bool" and view :: "'s \<Rightarrow> service_state"
  assumes refines: "step s t \<Longrightarrow> spec_step (view s) (view t)"
begin

lemma run_inv:
  assumes "step\<^sup>*\<^sup>* s t" and "view s = (True, 0, {#}, [])"
  shows "spec_inv (view t)"
  using assms(1)
proof (induction rule: rtranclp_induct)
  case base show ?case using assms(2) by simp
next
  case (step y z) then show ?case using spec_step_inv refines by blast
qed

lemma called_once:
  assumes "step\<^sup>*\<^sup>* s t" and "view s = (True, 0, {#}, [])" and "view t = (b, n, P, A)"
  shows "distinct A" "set A \<subseteq> {0..<n}" "b \<Longrightarrow> mset A + P = mset [0..<n]" "b \<Longrightarrow> P = {#} \<Longrightarrow> set A = {0..<n}"
proof -
  have i: "spec_inv (b, n, P, A)" using run_inv [OF assms(1,2)] assms(3) by simp
  then have "mset A + P \<subseteq># mset [0..<n]" by (simp only: spec_inv.simps)
  then obtain C where "mset [0..<n] = mset A + P + C" by (metis subset_mset.le_iff_add)
  moreover obtain cs where "C = mset cs" by (metis ex_mset)
  moreover obtain ps where "P = mset ps" by (metis ex_mset)
  ultimately have p: "mset (A @ ps @ cs) = mset [0..<n]" by (simp add: ac_simps)
  from mset_eq_imp_distinct_iff [OF this] show "distinct A" by simp
  from mset_eq_setD [OF p] show "set A \<subseteq> {0..<n}" by auto
  show m: "b \<Longrightarrow> mset A + P = mset [0..<n]" using i by (simp only: spec_inv.simps)
  show "b \<Longrightarrow> P = {#} \<Longrightarrow> set A = {0..<n}" using m mset_eq_setD [of A "[0..<n]"] by simp
qed

end

section \<open>The client refines it\<close>

definition service_view :: "session \<Rightarrow> service_state" where
  "service_view x = (case x of (n, as, s) \<Rightarrow> (alive s, n, open_ids s, map fst as))"

lemma without_facts:
  assumes "i < length xs"
  shows "mset (map f xs) = add_mset (f (xs ! i)) (mset (map f (without i xs)))"
    "(\<Sum>x \<leftarrow> xs. g x) = (g (xs ! i) + (\<Sum>x \<leftarrow> without i xs. g x) :: nat)"
    "list_all P xs \<longleftrightarrow> P (xs ! i) \<and> list_all P (without i xs)"
proof -
  have e: "xs = take i xs @ xs ! i # drop (Suc i) xs" using assms by (rule id_take_nth_drop)
  show "mset (map f xs) = add_mset (f (xs ! i)) (mset (map f (without i xs)))"
    by (subst e) (simp add: without_def)
  show "(\<Sum>x \<leftarrow> xs. g x) = (g (xs ! i) + (\<Sum>x \<leftarrow> without i xs. g x) :: nat)"
    by (subst e) (simp add: without_def)
  show "list_all P xs \<longleftrightarrow> P (xs ! i) \<and> list_all P (without i xs)"
    by (subst e) (auto simp: without_def)
qed

lemma take_operation:
  fixes c :: Client
  assumes "i < length (operations io)"
  defines "s0 \<equiv> (c, io\<lparr>operations := without i (operations io)\<rparr>)" and "x \<equiv> operations io ! i"
  shows "open_ids (c, io) = add_mset (operation_id x) (open_ids s0)" "alive (c, io) = alive s0"
    "work (c, io) = work s0 + 2 * operation_steps (broker_count s0) x"
    "session_ok (c, io) \<longleftrightarrow> session_ok s0 \<and> operation_ok (broker_count s0) (max_bytes s0) x"
  using without_facts(1) [OF assms(1), of operation_id] without_facts(2,3) [OF assms(1)]
  by (auto simp: s0_def x_def open_ids_def alive_def work_def session_ok_def broker_count_def max_bytes_def)

lemma take_posted:
  fixes c :: Client
  assumes "i < length (posted io)"
  defines "s0 \<equiv> (c, io\<lparr>posted := without i (posted io)\<rparr>)" and "f \<equiv> posted io ! i"
  shows "open_ids (c, io) = add_mset (call_id f) (open_ids s0)" "alive (c, io) = alive s0"
    "work (c, io) = work s0 + 2 * call_steps (broker_count s0) f"
    "session_ok (c, io) \<longleftrightarrow> session_ok s0 \<and> call_ok (broker_count s0) f"
  using without_facts(1) [OF assms(1), of call_id] without_facts(2,3) [OF assms(1)]
  by (auto simp: s0_def f_def open_ids_def alive_def work_def session_ok_def broker_count_def max_bytes_def)

text \<open>What a step of the io service does, given that the session is well formed.\<close>

definition progress :: "session \<Rightarrow> session \<Rightarrow> bool" where
  "progress x y \<longleftrightarrow> spec_step (service_view x) (service_view y) \<and> session_ok (snd (snd y)) \<and>
     configuration (fst (snd (snd y))) = configuration (fst (snd (snd x))) \<and> work (snd (snd y)) < work (snd (snd x))"

lemma handed_on:
  assumes "passes i k s0 s'" "open_ids s = add_mset i (open_ids s0)" "alive s = alive s0"
    "session_ok s0" "work s = work s0 + 2 * k" "configuration (fst s) = configuration (fst s0)"
  shows "progress (n, as, s) (n, as, s')"
proof (cases "alive s0")
  case True
  with assms show ?thesis by (auto simp: progress_def passes_def service_view_def intro: spec_step.idle)
next
  case False
  have "spec_step (False, n, add_mset i (open_ids s0), map fst as) (False, n, open_ids s0, map fst as)"
    using spec_step.forget [of i "add_mset i (open_ids s0)"] by simp
  with False assms show ?thesis by (auto simp: progress_def passes_def service_view_def)
qed

lemma progress_operation:
  assumes "i < length (operations (snd s))" "end_operation i ec data s = ret s'" "session_ok s"
  shows "progress (n, as, s) (n, as, s')"
proof -
  obtain c io where s: "s = (c, io)" by (cases s)
  let ?s0 = "(c, io\<lparr>operations := without i (operations io)\<rparr>)" and ?x = "operations io ! i"
  have i: "i < length (operations io)" using assms(1) by (simp add: s)
  note facts = take_operation [OF i, of c]
  have "operation_ok (broker_count ?s0) (max_bytes ?s0) ?x" using facts(4) assms(3) by (simp add: s)
  from passes_complete [OF this, of ec data] assms(2)
  have "passes (operation_id ?x) (operation_steps (broker_count ?s0) ?x) ?s0 s'"
    by (simp add: s end_operation_def)
  then show ?thesis
    by (rule handed_on) (use facts assms(3) in \<open>simp_all add: s\<close>)
qed

lemma run_call_cases:
  assumes "run_call crc32 f s0 = ret (a, s')" "call_ok (broker_count s0) f"
  obtains ans where "a = [ans]" "fst ans = call_id f" "s' = s0" "0 < call_steps (broker_count s0) f"
    | "a = []" "alive s0" "passes (call_id f) (call_steps (broker_count s0) f) s0 s'"
proof -
  consider i ec rsp where "f = Call_request i ec rsp" | i ec where "f = Call_connection (User_handler i) ec"
    | r i ec where "f = Call_connection (Bound_SendAsyncRequest r i) ec"
    | k i ec where "f = Call_connection (Bound_HandleAsyncAutoConnect k i) ec"
    by (metis conn_handler.exhaust posted_call.exhaust)
  then show thesis
  proof cases
    case 3
    then show thesis using assms(1) that(2) passes_SendAsyncRequest [of s0]
      by (auto simp: alive_def split: if_splits)
  next
    case 4
    then have "alive s0" using assms(1) by (auto simp: alive_def split: if_splits)
    then show thesis
      using 4 assms that(2) passes_HandleAsyncAutoConnect [of s0 k i ec]
      by (auto simp: destroyed_iff bnd_eq_ret)
  qed (use assms(1) that(1) in auto)
qed

lemma progress_posted:
  assumes "i < length (posted (snd s))" "run_posted crc32 i s = ret (a, s')" "session_ok s"
  shows "progress (n, as, s) (n, as @ a, s')"
proof -
  obtain c io where s: "s = (c, io)" by (cases s)
  let ?s0 = "(c, io\<lparr>posted := without i (posted io)\<rparr>)" and ?f = "posted io ! i"
  have i: "i < length (posted io)" using assms(1) by (simp add: s)
  note facts = take_posted [OF i, of c]
  have ok: "session_ok ?s0" "call_ok (broker_count ?s0) ?f" using facts(4) assms(3) by (simp_all add: s)
  have "run_call crc32 ?f ?s0 = ret (a, s')" using assms(2) by (simp add: s run_posted_def)
  then show ?thesis
  proof (rule run_call_cases [OF _ ok(2)])
    fix ans assume a: "a = [ans]" "fst ans = call_id ?f" "s' = ?s0" "0 < call_steps (broker_count ?s0) ?f"
    have "spec_step (b, n, add_mset (fst ans) P, A) (b, n, P, A @ [fst ans])" for b P A
      using spec_step.answer [of "fst ans" "add_mset (fst ans) P" b n A] by simp
    with a facts ok show ?thesis by (simp add: s progress_def service_view_def)
  next
    assume a: "a = []" and p: "passes (call_id ?f) (call_steps (broker_count ?s0) ?f) ?s0 s'"
    from p have "progress (n, as, s) (n, as, s')"
      by (rule handed_on) (use facts ok in \<open>simp_all add: s\<close>)
    then show ?thesis by (simp add: a)
  qed
qed

lemma end_wait_same:
  "open_ids (end_wait x s) = open_ids s" "alive (end_wait x s) = alive s" "session_ok (end_wait x s) = session_ok s"
  "configuration (fst (end_wait x s)) = configuration (fst s)"
  "work (end_wait x s) = work s - (if 0 < waits (snd s) then 1 else 0)"
  by (cases s; auto simp: end_wait_def HandleDeadline_def asio_simps alive_def open_ids_def session_ok_def work_def
      broker_count_def max_bytes_def split: option.splits)+

lemma io_step_progress: "io_step crc32 x y \<Longrightarrow> session_ok (snd (snd x)) \<Longrightarrow> progress x y"
proof (induction rule: io_step.induct)
  case (wait expired s n as)
  have "0 < waits (snd s)" using wait.hyps by (auto simp: may_end_def split: prod.splits if_splits)
  moreover from this have "0 < work s" by (simp add: work_def)
  ultimately show ?case using wait
    by (simp add: progress_def service_view_def end_wait_same spec_step.idle)
qed (simp_all add: progress_operation progress_posted)

definition accepts :: "nat \<Rightarrow> astate \<Rightarrow> astate \<Rightarrow> bool" where
  "accepts i s s' \<longleftrightarrow> configuration (fst s') = configuration (fst s) \<and> alive s' \<and>
     open_ids s' = add_mset i (open_ids s) \<and> (session_ok s \<longrightarrow> session_ok s')"

lemmas accepts_simps = accepts_def asio_simps

lemma accepts_AsyncConnect_host: "alive s \<Longrightarrow> accepts i s (AsyncConnect_host h svc (User_handler i) s)"
  by (simp add: AsyncConnect_host_def accepts_simps)

lemma accepts_AsyncConnect:
  "alive s \<Longrightarrow> handler_ok (broker_count s) k \<Longrightarrow> post (accepts (handler_id k) s) (AsyncConnect k s)"
  by (auto simp: AsyncConnect_def AutoConnect_def Let_def accepts_simps broker_count_def)

lemma accepts_AsyncRequest: "alive s \<Longrightarrow> post (accepts i s) (AsyncRequest crc32 r i s)"
  using accepts_AsyncConnect [of s "Bound_SendAsyncRequest r i"]
  by (simp add: AsyncRequest_def SendAsyncRequest_def Let_def accepts_simps)

definition kept :: "session \<Rightarrow> session \<Rightarrow> bool" where
  "kept x y \<longleftrightarrow> spec_step (service_view x) (service_view y) \<and> session_ok (snd (snd y)) \<and>
     configuration (fst (snd (snd y))) = configuration (fst (snd (snd x)))"

lemma accepted: "accepts n s s' \<Longrightarrow> alive s \<Longrightarrow> session_ok s \<Longrightarrow> kept (n, as, s) (Suc n, as, s')"
  by (simp add: kept_def accepts_def service_view_def spec_step.accept)

lemma outside_step_kept: "outside_step crc32 x y \<Longrightarrow> session_ok (snd (snd x)) \<Longrightarrow> kept x y"
proof (induction rule: outside_step.induct)
  case (connect_host s n as h svc)
  then show ?case by (intro accepted accepts_AsyncConnect_host) (simp_all add: alive_def)
next
  case (connect s n s' as)
  then show ?case
    using accepts_AsyncConnect [of s "User_handler n"] by (intro accepted) (simp_all add: alive_def)
next
  case (request s r n s' as)
  then show ?case
    using accepts_AsyncRequest [of s n crc32 r] by (intro accepted) (simp_all add: alive_def)
next
  case (destroy s n as)
  then show ?case
    by (simp add: kept_def service_view_def Client_delete_def asio_simps destroyed_iff spec_step.finish)
next
  case (close s n as)
  then show ?case by (simp add: kept_def service_view_def asio_simps destroyed_iff spec_step.idle)
next
  case (time n as c io d)
  then show ?case
    by (simp add: kept_def service_view_def alive_def open_ids_def session_ok_def broker_count_def max_bytes_def spec_step.idle)
qed

lemma session_run_ok:
  "session_run crc32 config x \<Longrightarrow> session_ok (snd (snd x)) \<and> configuration (fst (snd (snd x))) = config"
proof (induction rule: session_run.induct)
  case start
  show ?case by (simp add: new_session_def Client_new_def session_ok_def)
next
  case (io s t)
  then show ?case using io_step_progress [of crc32 s t] by (auto simp: progress_def)
next
  case (outside s t)
  then show ?case using outside_step_kept [of crc32 s t] by (auto simp: kept_def)
qed

definition session_step :: "(Byte list \<Rightarrow> Int32) \<Rightarrow> ClientConfiguration \<Rightarrow> session \<Rightarrow> session \<Rightarrow> bool" where
  "session_step crc32 config x y \<longleftrightarrow> session_run crc32 config x \<and> (io_step crc32 x y \<or> outside_step crc32 x y)"

interpretation asio: handler_service "session_step crc32 config" service_view for crc32 config
proof
  fix s t
  assume "session_step crc32 config s t"
  then show "spec_step (service_view s) (service_view t)"
    using session_run_ok [of crc32 config s] io_step_progress [of crc32 s t] outside_step_kept [of crc32 s t]
    by (auto simp: session_step_def progress_def kept_def)
qed

lemma session_run_steps: "session_run crc32 config x \<Longrightarrow> (session_step crc32 config)\<^sup>*\<^sup>* (new_session config) x"
  by (induction rule: session_run.induct) (auto simp: session_step_def intro: rtranclp.rtrancl_into_rtrancl)

lemma service_view_new: "service_view (new_session config) = (True, 0, {#}, [])"
  by (simp add: new_session_def service_view_def alive_def open_ids_def Client_new_def)

lemma steps_bounded:
  "(io_step crc32 ^^ m) x y \<Longrightarrow> session_run crc32 config x \<Longrightarrow>
   session_run crc32 config y \<and> m + work (snd (snd y)) \<le> work (snd (snd x))"
proof (induction m arbitrary: y)
  case (Suc m)
  then obtain z where "(io_step crc32 ^^ m) x z" and z: "io_step crc32 z y" by auto
  with Suc have IH: "session_run crc32 config z" "m + work (snd (snd z)) \<le> work (snd (snd x))" by auto
  have "work (snd (snd y)) < work (snd (snd z))"
    using io_step_progress [OF z] session_run_ok [OF IH(1)] by (simp add: progress_def)
  with IH z show ?case by (auto intro: session_run.io)
qed simp

lemma end_operation_error: "is_error ec \<Longrightarrow> \<exists>s'. end_operation i ec data s = ret s'"
  by (cases s, cases "operations (snd s) ! i")
    (auto simp: end_operation_def HandleAsyncResponseSizeRead_def HandleAsyncResponseRead_def)

lemma run_call_returns:
  "alive s \<Longrightarrow> call_ok (broker_count s) f \<Longrightarrow> \<exists>a s'. run_call crc32 f s = ret (a, s')"
  by (cases "(crc32, f, s)" rule: run_call.cases)
    (auto simp: destroyed_iff HandleAsyncAutoConnect_def AutoConnect_def broker_count_def Let_def)

lemma io_step_possible:
  assumes "session_ok s" "alive s" "operations (snd s) \<noteq> [] \<or> posted (snd s) \<noteq> []"
  shows "\<exists>y. io_step crc32 (n, as, s) y"
proof (cases "posted (snd s)")
  case Nil
  then have i: "0 < length (operations (snd s))" using assms(3) by auto
  let ?e = "make_error_code_client kErrorNotConnected"
  have "may_complete (operations (snd s) ! 0) ?e [] \<or> (\<exists>n buf t i. operations (snd s) ! 0 = Async_read_size n buf t i \<or>
      operations (snd s) ! 0 = Async_read_response n buf t i)"
    by (cases "operations (snd s) ! 0") auto
  then have m: "may_complete (operations (snd s) ! 0) ?e []" by auto
  obtain s' where "end_operation 0 ?e [] s = ret s'" using end_operation_error [of ?e 0 "[]" s] by auto
  from io_step.operation [OF i m this] show ?thesis by blast
next
  case (Cons f fs)
  obtain c io where s: "s = (c, io)" by (cases s)
  have i: "0 < length (posted io)" using Cons by (simp add: s)
  from take_posted [OF i, of c] assms(1,2) run_call_returns [of "(c, io\<lparr>posted := without 0 (posted io)\<rparr>)" "posted io ! 0" crc32]
  obtain a s' where "run_posted crc32 0 s = ret (a, s')" by (auto simp: s run_posted_def)
  with Cons have "io_step crc32 (n, as, s) (n, as @ a, s')" by (intro io_step.posted) simp_all
  then show ?thesis by blast
qed

section \<open>Properties\<close>

lemma destroyed_drops:
  "\<not> alive (c, io) \<Longrightarrow> end_operation i ec data (c, io) = ret (c, io\<lparr>operations := without i (operations io)\<rparr>)"
  by (cases "operations io ! i")
    (simp_all add: alive_def end_operation_def HandleAsyncResolve_def HandleAsyncConnect_def HandleAsyncRequestWrite_def
      HandleAsyncResponseSizeRead_def HandleAsyncResponseRead_def)

text \<open>C9: refinement. Every step of a session, of the io service and of the outside, is a step of the
  abstract service of handlers or leaves it as it is: a handler is accepted when it is passed in, is
  called at most once and only while it is outstanding, and is forgotten only after the client has
  been destroyed. Whatever the results and the order of the operations, of the calls posted and of the
  timer, and of the calls of the users in between. After the destruction a handler that an operation
  holds is always forgotten: however the operation ends, nothing is posted and nothing else
  happens. (The documentation of the destructor says that such handlers are called with
  \<^verbatim>\<open>operation_aborted\<close>.)\<close>

theorem client_refines_service:
  assumes "session_run crc32 config (n, as, c, io)"
    and "io_step crc32 (n, as, c, io) t \<or> outside_step crc32 (n, as, c, io) t"
  shows "spec_step (service_view (n, as, c, io)) (service_view t) \<and>
    (client_state c = kStateDestroyed \<longrightarrow>
      (\<forall>i ec data. end_operation i ec data (c, io) = ret (c, io\<lparr>operations := without i (operations io)\<rparr>)))"
  using assms destroyed_drops [of c io] asio.refines [of crc32 config "(n, as, c, io)" t]
  by (simp add: session_step_def alive_def)

text \<open>C14: every handler is called exactly once. In every state a session reaches no handler has been
  called twice; as long as the client exists, each handler passed in is either among those called
  or is held by exactly one operation or posted call; and when none is left, all have been called.\<close>

theorem handlers_called_once:
  assumes "session_run crc32 config (n, as, s)"
  shows "distinct (map fst as) \<and> set (map fst as) \<subseteq> {0..<n} \<and>
    (alive s \<longrightarrow> mset (map fst as) + open_ids s = mset [0..<n] \<and>
       (operations (snd s) = [] \<and> posted (snd s) = [] \<longrightarrow> set (map fst as) = {0..<n}))"
proof -
  have v: "service_view (n, as, s) = (alive s, n, open_ids s, map fst as)" by (simp add: service_view_def)
  note once = asio.called_once [OF session_run_steps [OF assms] service_view_new v]
  have "open_ids s = {#}" if "operations (snd s) = []" "posted (snd s) = []"
    using that by (simp add: open_ids_def)
  with once show ?thesis by (auto simp only:)
qed

text \<open>C15: the io service runs out of work. However its operations end, and in whatever order, only
  finitely many steps are possible before the next call of a user: their number is bounded by the
  work left, which counts the brokers still to be tried, so a client does not retry for ever. And as
  long as the client exists and an operation or a posted call is left, a step is possible. So, unless
  an exception leaves it, the io service stops only when every handler has been called.\<close>

theorem io_service_runs_dry:
  assumes "session_run crc32 config x"
  shows "(\<forall>m y. (io_step crc32 ^^ m) x y \<longrightarrow> m \<le> work (snd (snd x))) \<and>
    \<not> (\<exists>f. f 0 = x \<and> (\<forall>i. io_step crc32 (f i) (f (Suc i)))) \<and>
    (case x of (n, as, s) \<Rightarrow>
       alive s \<and> (operations (snd s) \<noteq> [] \<or> posted (snd s) \<noteq> []) \<longrightarrow> (\<exists>y. io_step crc32 x y))"
proof -
  have b: "m \<le> work (snd (snd x))" if "(io_step crc32 ^^ m) x y" for m y
    using steps_bounded [OF that assms] by simp
  have "(io_step crc32 ^^ m) (f 0) (f m)" if "\<forall>i. io_step crc32 (f i) (f (Suc i))" for f m
    using that by (induction m) auto
  then have "\<not> (f 0 = x \<and> (\<forall>i. io_step crc32 (f i) (f (Suc i))))" for f
    using b [of "Suc (work (snd (snd x)))" "f (Suc (work (snd (snd x))))"] by fastforce
  moreover have "case x of (n, as, s) \<Rightarrow> alive s \<and> (operations (snd s) \<noteq> [] \<or> posted (snd s) \<noteq> []) \<longrightarrow>
      (\<exists>y. io_step crc32 x y)"
    using session_run_ok [OF assms] io_step_possible [of _ crc32] by (cases x) auto
  ultimately show ?thesis using b by blast
qed

text \<open>C28: memory for responses is bounded. No session ever asks asio to read a response of
  \<^verbatim>\<open>message_max_bytes\<close> bytes or more, whatever size the other side announces.\<close>

theorem response_reads_bounded:
  assumes "session_run crc32 config (n, as, s)" and "Async_read_response sz buf t i \<in> set (operations (snd s))"
  shows "int sz < sint (message_max_bytes config)"
  using session_run_ok [OF assms(1)] assms(2) by (fastforce simp: session_ok_def max_bytes_def list_all_iff)

end
