(* ===== verification/Asio_Exchange.thy ===== *)
theory Asio_Exchange
  imports Asio_Session
begin

text \<open>
  What the asio client does when asio ends its operations one after the other: a request and its
  response, and the brokers it tries. \<open>deliver\<close> ends the operation started last, \<open>run_last\<close> runs the
  function object posted last.
\<close>

section \<open>Ending the last operation\<close>

definition deliver :: "error_code \<Rightarrow> Byte list \<Rightarrow> astate \<Rightarrow> astate outcome" where
  "deliver ec data s = end_operation (length (operations (snd s)) - 1) ec data s"

definition run_last :: "(Byte list \<Rightarrow> Int32) \<Rightarrow> astate \<Rightarrow> astate outcome" where
  "run_last crc32 s = bnd (run_posted crc32 (length (posted (snd s)) - 1) s) (\<lambda>(_, s). ret s)"

lemma without_last [simp]: "without (length xs) (xs @ [x]) = xs"
  by (simp add: without_def)

lemma deliver_last:
  "operations io = xs @ [x] \<Longrightarrow> deliver ec data (c, io) = complete x ec data (c, io\<lparr>operations := xs\<rparr>)"
  by (simp add: deliver_def end_operation_def)

lemma run_last_posted:
  "posted io = xs @ [f] \<Longrightarrow>
   run_last crc32 (c, io) = bnd (run_call crc32 f (c, io\<lparr>posted := xs\<rparr>)) (\<lambda>(_, s). ret s)"
  by (simp add: run_last_def run_posted_def)

lemmas primitive_defs = io_post_def io_start_def io_cancel_def set_state_def SetDeadline_def Client_Close_def

section \<open>A request and its response\<close>

lemma ReadInt32_size: "ReadInt32 (open_istream (be_bytes 4 (x :: Int32))) = (x, is_advance 4 (open_istream (be_bytes 4 x)))"
  by (rule ReadInt32_front [where rest = "[]"]) simp_all

lemma remaining_size: "remaining (is_advance 4 (open_istream (be_bytes 4 (x :: Int32)))) = []"
  by (simp add: remaining_def is_advance_def open_istream_def)

lemma size_of_body:
  assumes "int n < sint (m :: Int32)"
  shows "sint (of_nat n :: Int32) = int n"
proof -
  have "sint m < 2 ^ 31" using sint_lt [of m] by simp
  with assms have "int n < int (2 ^ 31)" by simp
  then have "n < 2 ^ 31" by (simp only: of_nat_less_iff)
  then show ?thesis by (intro sint_of_nat_less) simp
qed

text \<open>C19: a request is answered. On a connected client a request is written as the frame of its class;
  when asio has written it and has read the size and the body of the answer, the body is read by the
  reader of the response that belongs to the class of the request, the handler of the request is
  called without an error and with that response, nothing else is called or left under way, and the
  client is ready for the next request.\<close>

theorem client_exchange:
  assumes "client_state c = kStateConnected" and "ResponseExpected request"
    and "int (length body) < sint (message_max_bytes (configuration c))"
    and "read_any (api_of request) (open_istream body) = Inr (response, ec)" and "\<not> is_error ec"
  shows "\<exists>c1 io1 c' io'.
    AsyncRequest crc32 request i (c, io) = ret (c1, io1) \<and>
    operations io1 = operations io @
      [Async_write (write_any crc32 request (client_id (configuration c)) []) (api_of request) i True] \<and>
    bnd (deliver no_error [] (c1, io1)) (\<lambda>s.
    bnd (deliver no_error (be_bytes 4 (of_nat (length body) :: Int32)) s) (\<lambda>s.
      deliver no_error body s)) = ret (c', io') \<and>
    client_state c' = kStateConnected \<and> configuration c' = configuration c \<and>
    operations io' = operations io \<and> posted io' = posted io @ [Call_request i ec (Some response)]"
proof -
  note sz = size_of_body [OF assms(3)]
  have n: "AsyncRequest crc32 request i (c, io) =
      ret (SendAsyncRequest crc32 (make_error_code_client kErrorSuccess) request i (c, io))"
    using assms(1) by (simp add: AsyncRequest_def)
  show ?thesis
    using assms unfolding n
    by (simp add: SendAsyncRequest_def Let_def primitive_defs deliver_last HandleAsyncRequestWrite_def
        HandleAsyncResponseSizeRead_def ReadInt32_size sz remaining_size HandleAsyncResponseRead_def)
qed

section \<open>Trying the brokers\<close>

text \<open>
  One attempt on a broker: its name is resolved and, if that succeeds, it is connected to; then the
  bound \<^verbatim>\<open>HandleAsyncAutoConnect\<close> runs.
\<close>

definition attempt :: "(Byte list \<Rightarrow> Int32) \<Rightarrow> error_code \<times> error_code \<Rightarrow> astate \<Rightarrow> astate outcome" where
  "attempt crc32 r s =
     bnd (deliver (fst r) [] s) (\<lambda>s.
     bnd (if is_error (fst r) then ret s else deliver (snd r) [] s) (run_last crc32))"

definition connect_with :: "(Byte list \<Rightarrow> Int32) \<Rightarrow> conn_handler \<Rightarrow> (error_code \<times> error_code) list \<Rightarrow> astate \<Rightarrow> astate outcome" where
  "connect_with crc32 handler rs s = bnd (AsyncConnect handler s) (fold_outcome (attempt crc32) rs)"

definition attempt_error :: "error_code \<times> error_code \<Rightarrow> error_code" where
  "attempt_error r = (if is_error (fst r) then fst r else snd r)"

definition trying ::
  "conn_handler \<Rightarrow> ClientConfiguration \<Rightarrow> operation list \<Rightarrow> posted_call list \<Rightarrow> nat \<Rightarrow> astate \<Rightarrow> bool" where
  "trying handler config ops calls k s \<longleftrightarrow> alive s \<and> configuration (fst s) = config \<and> posted (snd s) = calls \<and>
     k < length (broker_list config) \<and>
     operations (snd s) = ops @ [Async_resolve (hostname (broker_list config ! k)) (service (broker_list config ! k))
       (Bound_HandleAsyncAutoConnect handler k)]"

definition settled ::
  "conn_handler \<Rightarrow> ClientConfiguration \<Rightarrow> operation list \<Rightarrow> posted_call list \<Rightarrow> error_code \<Rightarrow> astate \<Rightarrow> bool" where
  "settled handler config ops calls ec s \<longleftrightarrow> configuration (fst s) = config \<and> operations (snd s) = ops \<and>
     posted (snd s) = calls @ [Call_connection handler ec] \<and>
     client_state (fst s) = (if is_error ec then kStateClosed else kStateConnected)"

lemma attempt_outcome:
  assumes "trying handler config ops calls k s"
  shows "returns (if is_error (attempt_error r) \<and> Suc k < length (broker_list config)
      then trying handler config ops calls (Suc k) else settled handler config ops calls (attempt_error r))
    (attempt crc32 r s)"
proof -
  obtain c io where s: "s = (c, io)" by (cases s)
  have a: "client_state c \<noteq> kStateDestroyed" "configuration c = config" "posted io = calls" "k < length (broker_list config)"
    and ops: "operations io = ops @ [Async_resolve (hostname (broker_list config ! k)) (service (broker_list config ! k))
       (Bound_HandleAsyncAutoConnect handler k)]"
    using assms by (simp_all add: s trying_def alive_def)
  show ?thesis
    using a by (auto simp: attempt_def attempt_error_def s deliver_last [OF ops] HandleAsyncResolve_def
        HandleAsyncConnect_def deliver_last run_last_posted HandleAsyncAutoConnect_def AutoConnect_def primitive_defs
        trying_def settled_def alive_def Let_def)
qed

lemma attempts_fail:
  "trying handler config ops calls k s \<Longrightarrow> \<forall>r \<in> set rs. is_error (attempt_error r) \<Longrightarrow>
   k + length rs < length (broker_list config) \<Longrightarrow>
   returns (trying handler config ops calls (k + length rs)) (fold_outcome (attempt crc32) rs s)"
proof (induction rs arbitrary: k s)
  case (Cons r rs)
  have "returns (trying handler config ops calls (Suc k)) (attempt crc32 r s)"
    using attempt_outcome [OF Cons.prems(1), of r crc32] Cons.prems(2,3) by simp
  then show ?case
    using Cons.IH [of "Suc k"] Cons.prems(2,3) by (auto simp: returns_iff)
qed simp

lemma AsyncConnect_trying:
  assumes "client_state c = kStateClosed" "broker_list (configuration c) \<noteq> []"
  shows "returns (trying handler (configuration c) (operations io) (posted io) 0) (AsyncConnect handler (c, io))"
  using assms by (simp add: AsyncConnect_def AutoConnect_def Let_def primitive_defs trying_def alive_def)

text \<open>C29: the brokers are tried in order. A closed client that is to connect to any of its brokers tries
  them in the order of its configuration, each once and only after the one before has failed: after
  some failed attempts the next broker of the list is being resolved and nothing has been called;
  with the first attempt that succeeds the handler is called without an error and the client is
  connected; when the last broker has failed, the handler is called with the error of that attempt
  and the client is closed.\<close>

theorem brokers_tried_in_order:
  assumes "client_state c = kStateClosed" and "config = configuration c"
    and "\<forall>r \<in> set rs. is_error (attempt_error r)" and "length rs < length (broker_list config)"
  shows "returns (trying handler config (operations io) (posted io) (length rs)) (connect_with crc32 handler rs (c, io)) \<and>
    (\<forall>r. \<not> is_error (attempt_error r) \<longrightarrow>
       returns (settled handler config (operations io) (posted io) (attempt_error r))
         (connect_with crc32 handler (rs @ [r]) (c, io))) \<and>
    (\<forall>r. is_error (attempt_error r) \<and> Suc (length rs) = length (broker_list config) \<longrightarrow>
       returns (settled handler config (operations io) (posted io) (attempt_error r))
         (connect_with crc32 handler (rs @ [r]) (c, io)))"
proof -
  have "broker_list (configuration c) \<noteq> []" using assms(2,4) by auto
  from AsyncConnect_trying [OF assms(1) this, of handler io] obtain s0
    where s0: "AsyncConnect handler (c, io) = ret s0" "trying handler config (operations io) (posted io) 0 s0"
    by (auto simp: returns_iff assms(2))
  from attempts_fail [OF s0(2) assms(3), of crc32] assms(4) obtain s
    where s: "fold_outcome (attempt crc32) rs s0 = ret s" "trying handler config (operations io) (posted io) (length rs) s"
    by (auto simp: returns_iff)
  have l: "connect_with crc32 handler (rs @ [r]) (c, io) = attempt crc32 r s" for r
    by (simp add: connect_with_def s0(1) fold_outcome_append fold_outcome_Nil s(1))
  have 1: "returns (settled handler config (operations io) (posted io) (attempt_error r)) (connect_with crc32 handler (rs @ [r]) (c, io))"
    if "\<not> (is_error (attempt_error r) \<and> Suc (length rs) < length (broker_list config))" for r
    unfolding l using attempt_outcome [OF s(2), of r crc32] that by simp
  have 2: "returns (trying handler config (operations io) (posted io) (length rs)) (connect_with crc32 handler rs (c, io))"
    using s by (simp add: connect_with_def s0(1))
  from 1 2 show ?thesis by simp
qed

section \<open>Examples\<close>

theorem client_exchange_witness:
  "let c = (Client_new ClientConfiguration_new)\<lparr>client_state := kStateConnected\<rparr>;
       io = \<lparr>clock = 0, operations = [], waits = 0, armed = False, posted = [], io_calls = []\<rparr>;
       b = \<lparr>node_id = 1, host = str ''kafka'', port = 9092\<rparr>;
       body = be_bytes 4 (3 :: Int32) @ wire_array wire_broker [b] @ wire_array wire_metadata_topic []
   in \<exists>c1 io1 c' io'. AsyncRequest (\<lambda>_. 7) (Any_MetadataRequest MetadataRequest_new) 5 (c, io) = ret (c1, io1) \<and>
        bnd (deliver no_error [] (c1, io1)) (\<lambda>s.
        bnd (deliver no_error (be_bytes 4 (of_nat (length body) :: Int32)) s) (deliver no_error body)) = ret (c', io') \<and>
        posted io' = [Call_request 5 no_error (Some (Any_MetadataResponse
          \<lparr>response_correlation_id = 3, brokers = [b], mr_topics = []\<rparr>))]"
proof -
  define b :: Broker where "b = \<lparr>node_id = 1, host = str ''kafka'', port = 9092\<rparr>"
  define body where "body = be_bytes 4 (3 :: Int32) @ wire_array wire_broker [b] @ wire_array wire_metadata_topic []"
  define c where "c = (Client_new ClientConfiguration_new)\<lparr>client_state := kStateConnected\<rparr>"
  define io where "io = \<lparr>clock = 0, operations = [], waits = 0, armed = False, posted = [], io_calls = []\<rparr>"
  have "array_ok (\<lambda>b. short_string (host b)) [b]" "array_ok (topic_ok metadata_partition_ok) []"
    by (simp_all add: array_ok_def short_string_def b_def str_def)
  from ReadResponse_Metadata_written [OF this body_def [unfolded atomize_eq], of "\<lparr>response_correlation_id = 0, brokers = [], mr_topics = []\<rparr>"]
  have r: "read_any (api_of (Any_MetadataRequest MetadataRequest_new)) (open_istream body) =
      Inr (Any_MetadataResponse \<lparr>response_correlation_id = 3, brokers = [b], mr_topics = []\<rparr>, no_error)"
    by (simp add: with_response_def)
  have "length body = 4 + (4 + (4 + (2 + 5) + 4)) + 4"
    by (simp add: body_def b_def wire_array_def wire_broker_def wire_string_def str_def be_bytes_def)
  then have l: "int (length body) < sint (message_max_bytes (configuration c))"
    by (simp add: c_def Client_new_def ClientConfiguration_new_def kDefaultMessageMaxBytes_def)
  have s: "client_state c = kStateConnected" "ResponseExpected (Any_MetadataRequest MetadataRequest_new)"
    by (simp_all add: c_def Request_ResponseExpected_def)
  have p: "posted io = []" by (simp add: io_def)
  have "\<exists>c1 io1 c' io'. AsyncRequest (\<lambda>_. 7) (Any_MetadataRequest MetadataRequest_new) 5 (c, io) = ret (c1, io1) \<and>
        bnd (deliver no_error [] (c1, io1)) (\<lambda>s.
        bnd (deliver no_error (be_bytes 4 (of_nat (length body) :: Int32)) s) (deliver no_error body)) = ret (c', io') \<and>
        posted io' = [Call_request 5 no_error (Some (Any_MetadataResponse
          \<lparr>response_correlation_id = 3, brokers = [b], mr_topics = []\<rparr>))]"
    using client_exchange [OF s l r is_error_no_error, of "\<lambda>_. 7" 5 io] unfolding p append_Nil by blast
  then show ?thesis unfolding Let_def c_def io_def body_def b_def .
qed

theorem brokers_tried_in_order_witness:
  "let config = AddBrokerFromString (str ''b'') (AddBrokerFromString (str ''a'') ClientConfiguration_new);
       refused = \<lparr>ec_value = 111, ec_category = SystemCategory\<rparr>;
       io = \<lparr>clock = 0, operations = [], waits = 0, armed = False, posted = [], io_calls = []\<rparr>
   in returns (settled (User_handler 0) config [] [] no_error)
        (connect_with (\<lambda>_. 7) (User_handler 0) [(no_error, refused), (no_error, no_error)] (Client_new config, io))"
proof -
  define config where "config = AddBrokerFromString (str ''b'') (AddBrokerFromString (str ''a'') ClientConfiguration_new)"
  define refused where "refused = \<lparr>ec_value = 111, ec_category = SystemCategory\<rparr>"
  have "length (broker_list config) = 2"
    by (simp add: config_def AddBrokerFromString_split AddBroker_address_def ClientConfiguration_new_def str_def colon_def)
  moreover have "is_error refused" by (simp add: is_error_def refused_def)
  ultimately have "returns (settled (User_handler 0) config [] [] no_error)
      (connect_with (\<lambda>_. 7) (User_handler 0) ([(no_error, refused)] @ [(no_error, no_error)])
        (Client_new config, \<lparr>clock = 0, operations = [], waits = 0, armed = False, posted = [], io_calls = []\<rparr>))"
    using brokers_tried_in_order [of "Client_new config" config "[(no_error, refused)]" "User_handler 0"
        "\<lparr>clock = 0, operations = [], waits = 0, armed = False, posted = [], io_calls = []\<rparr>" "\<lambda>_. 7",
        THEN conjunct2, THEN conjunct1, rule_format, of "(no_error, no_error)"]
    by (simp add: attempt_error_def) (simp add: Client_new_def)
  then show ?thesis by (simp add: Let_def config_def refused_def)
qed

end
