(* ===== verification/Asio_Example.thy ===== *)
theory Asio_Example
  imports Asio_Exchange
begin

text \<open>
  A session of the asio client: it connects to a broker, sends a metadata request and is about to read
  the body of the answer. The properties of all sessions are applied to it. The last lemma is about a
  client that is closed while its operations end.
\<close>

section \<open>A session\<close>

abbreviation crc_sample :: "Byte list \<Rightarrow> Int32" where
  "crc_sample \<equiv> \<lambda>_. 7"

text \<open>What the steps of the example look at.\<close>

definition looks ::
  "astate \<Rightarrow> ClientState \<Rightarrow> operation list \<Rightarrow> posted_call list \<Rightarrow> bool" where
  "looks s st ops calls \<longleftrightarrow> configuration (fst s) = ClientConfiguration_new \<and> client_state (fst s) = st \<and>
     operations (snd s) = ops \<and> posted (snd s) = calls"

lemma end_only_operation:
  assumes "session_run crc32 config (n, as, s)" "looks s st [x] calls" "may_complete x ec data"
    and "\<And>s. looks s st [] calls \<Longrightarrow> returns (\<lambda>s'. looks s' st' ops' calls') (complete x ec data s)"
  shows "\<exists>s'. session_run crc32 config (n, as, s') \<and> looks s' st' ops' calls'"
proof -
  obtain c io where s: "s = (c, io)" by (cases s)
  have "looks (c, io\<lparr>operations := []\<rparr>) st [] calls" using assms(2) by (simp add: looks_def s)
  from assms(4) [OF this] obtain s' where s': "complete x ec data (c, io\<lparr>operations := []\<rparr>) = ret s'" "looks s' st' ops' calls'"
    by (auto simp: returns_iff)
  moreover have "io_step crc32 (n, as, s) (n, as, s')"
    by (rule io_step.operation [of 0 _ ec data])
      (use assms(2,3) s'(1) in \<open>simp_all add: looks_def s end_operation_def without_def\<close>)
  ultimately show ?thesis using session_run.io [OF assms(1)] by blast
qed

lemma example_connecting:
  "\<exists>s. session_run crc_sample ClientConfiguration_new (1, [], s) \<and>
     looks s kStateConnecting [Async_resolve (str ''kafka'') (str ''9092'') (User_handler 0)] []"
proof -
  let ?c = "Client_new ClientConfiguration_new" and ?io = "\<lparr>clock = 0, operations = [], waits = 0, armed = False, posted = [], io_calls = []\<rparr>"
  let ?s = "AsyncConnect_host (str ''kafka'') (str ''9092'') (User_handler 0) (?c, ?io)"
  have "outside_step crc_sample (0, [], ?c, ?io) (Suc 0, [], ?s)"
    by (rule outside_step.connect_host) (simp add: Client_new_def)
  with session_run.start [of crc_sample ClientConfiguration_new] have "session_run crc_sample ClientConfiguration_new (1, [], ?s)"
    using session_run.outside by (fastforce simp: new_session_def)
  moreover have "looks ?s kStateConnecting [Async_resolve (str ''kafka'') (str ''9092'') (User_handler 0)] []"
    by (simp add: looks_def AsyncConnect_host_def Client_new_def asio_simps)
  ultimately show ?thesis by blast
qed

lemma example_connected:
  "\<exists>s. session_run crc_sample ClientConfiguration_new (1, [(0, no_error, None)], s) \<and> looks s kStateConnected [] []"
proof -
  obtain s1 where s1: "session_run crc_sample ClientConfiguration_new (1, [], s1)"
    "looks s1 kStateConnecting [Async_resolve (str ''kafka'') (str ''9092'') (User_handler 0)] []"
    using example_connecting by blast
  have "\<exists>s. session_run crc_sample ClientConfiguration_new (1, [], s) \<and>
      looks s kStateConnecting [Async_connect (User_handler 0)] []"
    by (rule end_only_operation [OF s1, of no_error "[]"]) (simp_all add: looks_def HandleAsyncResolve_def asio_simps)
  then obtain s2 where s2: "session_run crc_sample ClientConfiguration_new (1, [], s2)"
    "looks s2 kStateConnecting [Async_connect (User_handler 0)] []" by blast
  have "\<exists>s. session_run crc_sample ClientConfiguration_new (1, [], s) \<and>
      looks s kStateConnected [] [Call_connection (User_handler 0) no_error]"
    by (rule end_only_operation [OF s2, of no_error "[]"]) (simp_all add: looks_def HandleAsyncConnect_def asio_simps Let_def)
  then obtain c io where s3: "session_run crc_sample ClientConfiguration_new (1, [], c, io)"
    "looks (c, io) kStateConnected [] [Call_connection (User_handler 0) no_error]" by auto
  have "io_step crc_sample (1, [], c, io) (1, [] @ [(0, no_error, None)], c, io\<lparr>posted := []\<rparr>)"
    by (rule io_step.posted [of 0]) (use s3(2) in \<open>simp_all add: looks_def run_posted_def without_def\<close>)
  from session_run.io [OF s3(1) this] s3(2) show ?thesis
    by (intro exI [of _ "(c, io\<lparr>posted := []\<rparr>)"]) (simp add: looks_def)
qed

lemma example_reading:
  "\<exists>s. session_run crc_sample ClientConfiguration_new (2, [(0, no_error, None)], s) \<and>
     looks s kStateReading [Async_read_response 5 [] Api_metadata 1] []"
proof -
  let ?r = "Any_MetadataRequest MetadataRequest_new" and ?as = "[(0, no_error, None :: any_response option)]"
  obtain s1 where s1: "session_run crc_sample ClientConfiguration_new (1, ?as, s1)" "looks s1 kStateConnected [] []"
    using example_connected by blast
  let ?w = "Async_write (write_any crc_sample ?r DefaultClientId []) Api_metadata 1 True"
  have a: "AsyncRequest crc_sample ?r 1 s1 = ret (SendAsyncRequest crc_sample (make_error_code_client kErrorSuccess) ?r 1 s1)"
    using s1(2) by (simp add: AsyncRequest_def looks_def)
  have "outside_step crc_sample (1, ?as, s1) (Suc 1, ?as, SendAsyncRequest crc_sample (make_error_code_client kErrorSuccess) ?r 1 s1)"
    by (rule outside_step.request [OF _ a]) (use s1(2) in \<open>simp add: looks_def\<close>)
  from session_run.outside [OF s1(1) this] s1(2)
  have "\<exists>s. session_run crc_sample ClientConfiguration_new (2, ?as, s) \<and> looks s kStateWriting [?w] []"
    by (intro exI conjI) (auto simp: looks_def SendAsyncRequest_def asio_simps Let_def ClientConfiguration_new_def
        Request_ResponseExpected_def numeral_2_eq_2)
  then obtain s2 where s2: "session_run crc_sample ClientConfiguration_new (2, ?as, s2)" "looks s2 kStateWriting [?w] []" by blast
  have "\<exists>s. session_run crc_sample ClientConfiguration_new (2, ?as, s) \<and> looks s kStateReading [Async_read_size 4 [] Api_metadata 1] []"
    by (rule end_only_operation [OF s2, of no_error "[]"]) (simp_all add: looks_def HandleAsyncRequestWrite_def asio_simps)
  then obtain s3 where s3: "session_run crc_sample ClientConfiguration_new (2, ?as, s3)"
    "looks s3 kStateReading [Async_read_size 4 [] Api_metadata 1] []" by blast
  show ?thesis
    by (rule end_only_operation [OF s3, of no_error "be_bytes 4 (5 :: Int32)"])
      (simp_all add: looks_def HandleAsyncResponseSizeRead_def asio_simps ReadInt32_size ClientConfiguration_new_def
        kDefaultMessageMaxBytes_def remaining_size)
qed

section \<open>The properties on it\<close>

theorem client_refines_service_witness:
  "\<exists>s t. service_view s = (True, 2, {#1#}, [0]) \<and> service_view t = (False, 2, {#1#}, [0]) \<and>
     spec_step (service_view s) (service_view t)"
proof -
  obtain c io where s: "session_run crc_sample ClientConfiguration_new (2, [(0, no_error, None)], c, io)"
    "looks (c, io) kStateReading [Async_read_response 5 [] Api_metadata 1] []"
    using example_reading by auto
  have "outside_step crc_sample (2, [(0, no_error, None)], c, io) (2, [(0, no_error, None)], Client_delete (c, io))"
    by (rule outside_step.destroy) (use s(2) in \<open>simp add: looks_def\<close>)
  from client_refines_service [OF s(1) disjI2, OF this] s(2) show ?thesis
    by (intro exI [of _ "(2, [(0, no_error, None)], c, io)"] exI [of _ "(2, [(0, no_error, None)], Client_delete (c, io))"])
      (simp add: looks_def service_view_def alive_def open_ids_def Client_delete_def asio_simps)
qed

theorem handlers_called_once_witness:
  "\<exists>s. session_run crc_sample ClientConfiguration_new (1, [(0, no_error, None)], s) \<and> alive s \<and>
     set (map fst [(0 :: nat, no_error, None :: any_response option)]) = {0..<1}"
proof -
  obtain s where s: "session_run crc_sample ClientConfiguration_new (1, [(0, no_error, None)], s)" "looks s kStateConnected [] []"
    using example_connected by blast
  moreover have "alive s" "operations (snd s) = []" "posted (snd s) = []" using s(2) by (simp_all add: looks_def alive_def)
  ultimately show ?thesis using handlers_called_once [OF s(1)] by blast
qed

theorem io_service_runs_dry_witness:
  "\<exists>x. session_run crc_sample ClientConfiguration_new x \<and> (\<exists>y. io_step crc_sample x y) \<and>
     (\<forall>m y. (io_step crc_sample ^^ m) x y \<longrightarrow> m \<le> work (snd (snd x)))"
proof -
  obtain s where s: "session_run crc_sample ClientConfiguration_new (2, [(0, no_error, None)], s)"
    "looks s kStateReading [Async_read_response 5 [] Api_metadata 1] []"
    using example_reading by blast
  moreover have "alive s" "operations (snd s) \<noteq> []" using s(2) by (simp_all add: looks_def alive_def)
  ultimately show ?thesis using io_service_runs_dry [OF s(1)] by blast
qed

theorem response_reads_bounded_witness:
  "\<exists>s. session_run crc_sample ClientConfiguration_new (2, [(0, no_error, None)], s) \<and>
     Async_read_response 5 [] Api_metadata 1 \<in> set (operations (snd s)) \<and>
     int 5 < sint (message_max_bytes ClientConfiguration_new)"
proof -
  obtain s where s: "session_run crc_sample ClientConfiguration_new (2, [(0, no_error, None)], s)"
    "looks s kStateReading [Async_read_response 5 [] Api_metadata 1] []"
    using example_reading by blast
  then have "Async_read_response 5 [] Api_metadata 1 \<in> set (operations (snd s))" by (simp add: looks_def)
  with response_reads_bounded [OF s(1) this] s(1) show ?thesis by blast
qed

section \<open>Closing the client\<close>

text \<open>
  The handlers of the write and of the size see that the client has been closed in the meantime; the
  handler of the body does not: it declares a closed client connected.
\<close>

lemma after_Close:
  assumes "\<not> is_error ec" "read_any t (open_istream body) = Inr (response, ec')" "\<not> is_error ec'"
  shows "client_state (fst (HandleAsyncRequestWrite ec t i expected (Client_Close s))) = kStateClosed"
    "returns (\<lambda>s'. client_state (fst s') = kStateClosed) (HandleAsyncResponseSizeRead ec buf t i (Client_Close s))"
    "returns (\<lambda>s'. client_state (fst s') = kStateConnected) (HandleAsyncResponseRead ec body t i (Client_Close s))"
  using assms
  by (simp_all add: HandleAsyncRequestWrite_def HandleAsyncResponseSizeRead_def HandleAsyncResponseRead_def asio_simps)

end
