(* ===== verification/Asio_Deadline.thy ===== *)
theory Asio_Deadline
  imports Asio_Example
begin

text \<open>
  The timeout of the asio client. \<open>guarded\<close> says that a client in the middle of an operation has a wait
  on its timer that is not cancelled and that ends within the configured timeout. Every step keeps it.
\<close>

section \<open>The invariant\<close>

definition busy :: "Client \<Rightarrow> bool" where
  "busy c \<longleftrightarrow> client_state c \<in> {kStateConnecting, kStateWriting, kStateReading}"

definition timeout_ms :: "Client \<Rightarrow> nat" where
  "timeout_ms c = unat (socket_timeout (configuration c))"

definition guarded :: "astate \<Rightarrow> bool" where
  "guarded s \<longleftrightarrow>
     (case s of (c, io) \<Rightarrow> busy c \<longrightarrow> armed io \<and> 0 < waits io \<and>
        (\<exists>t. expires_at c = Some t \<and> t \<le> clock io + timeout_ms c))"

lemma guarded_idle: "\<not> busy (fst s) \<Longrightarrow> guarded s"
  by (cases s) (simp add: guarded_def)

lemma guarded_simps [simp]:
  "guarded (SetDeadline s)" "guarded (Client_Close s)" "guarded (io_post f s) = guarded s"
  "guarded (io_start x s) = guarded s" "guarded (io_cancel xs (set_state kStateConnected s))"
  by (cases s; simp add: guarded_def SetDeadline_def Client_Close_def io_post_def io_start_def io_cancel_def
      set_state_def busy_def timeout_ms_def)+

lemma guarded_complete: "guarded s \<Longrightarrow> post guarded (complete x ec data s)"
  by (cases x) (auto simp: HandleAsyncResolve_def HandleAsyncConnect_def HandleAsyncRequestWrite_def
      HandleAsyncResponseSizeRead_def HandleAsyncResponseRead_def Let_def split: prod.splits sum.splits)

lemma guarded_AutoConnect: "post guarded (AutoConnect k i s)"
  by (simp add: AutoConnect_def Let_def)

lemma guarded_run_call: "guarded s \<Longrightarrow> post (\<lambda>(a, s'). guarded s') (run_call crc32 f s)"
  by (cases "(crc32, f, s)" rule: run_call.cases)
    (auto simp: SendAsyncRequest_def HandleAsyncAutoConnect_def Let_def intro!: post_bnd post_mono [OF guarded_AutoConnect])

lemma guarded_AsyncConnect: "guarded s \<Longrightarrow> post guarded (AsyncConnect k s)"
  by (simp add: AsyncConnect_def guarded_AutoConnect)

lemma guarded_end_wait: "guarded s \<Longrightarrow> may_end expired s \<Longrightarrow> guarded (end_wait expired s)"
proof -
  assume g: "guarded s" and m: "may_end expired s"
  obtain c io where s: "s = (c, io)" by (cases s)
  show ?thesis
  proof (cases "busy c")
    case False
    then show ?thesis
      by (auto simp: s end_wait_def HandleDeadline_def guarded_idle split: option.splits)
  next
    case True
    with g m show ?thesis
      by (cases expired) (auto simp: s end_wait_def HandleDeadline_def may_end_def guarded_def timeout_ms_def busy_def
          Client_Close_def io_cancel_def set_state_def split: option.splits)
  qed
qed

lemma guarded_io_step: "io_step crc32 x y \<Longrightarrow> guarded (snd (snd x)) \<Longrightarrow> guarded (snd (snd y))"
proof (induction rule: io_step.induct)
  case (operation i s ec data s' n as)
  obtain c io where s: "s = (c, io)" by (cases s)
  have "guarded (c, io\<lparr>operations := without i (operations io)\<rparr>)"
    using operation.prems by (simp add: s guarded_def)
  from guarded_complete [OF this, of "operations io ! i" ec data] operation.hyps show ?case
    by (simp add: s end_operation_def)
next
  case (posted i s a s' n as)
  obtain c io where s: "s = (c, io)" by (cases s)
  have "guarded (c, io\<lparr>posted := without i (posted io)\<rparr>)"
    using posted.prems by (simp add: s guarded_def)
  from guarded_run_call [OF this, of crc32 "posted io ! i"] posted.hyps show ?case
    by (simp add: s run_posted_def)
qed (simp add: guarded_end_wait)

lemma guarded_outside_step: "outside_step crc32 x y \<Longrightarrow> guarded (snd (snd x)) \<Longrightarrow> guarded (snd (snd y))"
proof (induction rule: outside_step.induct)
  case (connect s n s' as)
  then show ?case using guarded_AsyncConnect [of s "User_handler n"] by simp
next
  case (request s r n s' as)
  then show ?case
    using guarded_AsyncConnect [of s "Bound_SendAsyncRequest r n"]
    by (auto simp: AsyncRequest_def SendAsyncRequest_def Let_def split: if_splits)
next
  case (destroy s n as)
  then show ?case by (intro guarded_idle) (simp add: Client_delete_def busy_def asio_simps)
next
  case (time n as c io d)
  then show ?case by (auto simp: guarded_def)
qed (simp_all add: AsyncConnect_host_def)

lemma session_run_guarded: "session_run crc32 config x \<Longrightarrow> guarded (snd (snd x))"
proof (induction rule: session_run.induct)
  case start
  show ?case by (simp add: new_session_def Client_new_def guarded_def busy_def)
qed (simp_all add: guarded_io_step guarded_outside_step)

section \<open>The timeout\<close>

lemma time_passes:
  assumes "session_run crc32 config (n, as, c, io)" and "clock io \<le> now"
  shows "session_run crc32 config (n, as, c, io\<lparr>clock := now\<rparr>)"
  using session_run.outside [OF assms(1) outside_step.time [of crc32 n as c io "now - clock io"]] assms(2) by simp

lemma expired_closes:
  assumes "busy c" and "armed io" and "0 < waits io" and "expires_at c = Some t" and "t \<le> now"
  shows "io_step crc32 (n, as, c, io\<lparr>clock := now\<rparr>) (n, as, end_wait True (c, io\<lparr>clock := now\<rparr>))"
    and "client_state (fst (end_wait True (c, io\<lparr>clock := now\<rparr>))) = kStateClosed"
    and "io_calls (snd (end_wait True (c, io\<lparr>clock := now\<rparr>))) =
      io_calls io @ [Resolver_cancel, Socket_shutdown, Socket_close, Deadline_cancel]"
proof -
  show "io_step crc32 (n, as, c, io\<lparr>clock := now\<rparr>) (n, as, end_wait True (c, io\<lparr>clock := now\<rparr>))"
    by (rule io_step.wait) (use assms in \<open>simp add: may_end_def\<close>)
qed (use assms in \<open>auto simp: end_wait_def HandleDeadline_def busy_def Client_Close_def io_cancel_def set_state_def\<close>)

text \<open>C12: no operation takes longer than the timeout. When a client is connecting, writing or reading, a
  wait on its timer is pending and its deadline is at most \<^verbatim>\<open>socket_timeout\<close> milliseconds from now. At any
  time from the deadline on, when nothing else has ended the operation until then, this wait can end, and
  \<^verbatim>\<open>HandleDeadline\<close> closes the client: the resolver is cancelled and the socket is
  shut down and closed, which makes asio end the operation under way with an error. Before the deadline
  the wait cannot end, and the end of a wait that was cancelled does not touch the client.
  A client that is not in the middle of an operation is left alone by its timer at any time.\<close>

theorem operations_time_out:
  assumes "session_run crc32 config (n, as, c, io)"
  shows "(busy c \<longrightarrow> (\<exists>t. expires_at c = Some t \<and> t \<le> clock io + unat (socket_timeout config) \<and>
      (\<forall>now. clock io \<le> now \<and> t \<le> now \<longrightarrow>
        (let s = (c, io\<lparr>clock := now\<rparr>); s' = end_wait True s
         in session_run crc32 config (n, as, s) \<and> io_step crc32 (n, as, s) (n, as, s') \<and>
           client_state (fst s') = kStateClosed \<and>
           io_calls (snd s') = io_calls io @ [Resolver_cancel, Socket_shutdown, Socket_close, Deadline_cancel])) \<and>
      (\<forall>now < t. \<not> may_end True (c, io\<lparr>clock := now\<rparr>) \<and> fst (end_wait False (c, io\<lparr>clock := now\<rparr>)) = c))) \<and>
    (\<not> busy c \<longrightarrow> (\<forall>expired now. fst (end_wait expired (c, io\<lparr>clock := now\<rparr>)) = c \<and>
      io_calls (snd (end_wait expired (c, io\<lparr>clock := now\<rparr>))) = io_calls io))"
proof (intro conjI impI)
  assume b: "busy c"
  with session_run_guarded [OF assms] obtain t where t: "armed io" "0 < waits io" "expires_at c = Some t" "t \<le> clock io + timeout_ms c"
    by (auto simp: guarded_def)
  have c: "configuration c = config" using session_run_ok [OF assms] by simp
  note closes = expired_closes [OF b t(1-3)]
  have "\<not> may_end True (c, io\<lparr>clock := now\<rparr>)" "fst (end_wait False (c, io\<lparr>clock := now\<rparr>)) = c" if "now < t" for now
    using t(3) that by (simp_all add: may_end_def end_wait_def HandleDeadline_def)
  with closes show "\<exists>t. expires_at c = Some t \<and> t \<le> clock io + unat (socket_timeout config) \<and>
      (\<forall>now. clock io \<le> now \<and> t \<le> now \<longrightarrow>
        (let s = (c, io\<lparr>clock := now\<rparr>); s' = end_wait True s
         in session_run crc32 config (n, as, s) \<and> io_step crc32 (n, as, s) (n, as, s') \<and>
           client_state (fst s') = kStateClosed \<and>
           io_calls (snd s') = io_calls io @ [Resolver_cancel, Socket_shutdown, Socket_close, Deadline_cancel])) \<and>
      (\<forall>now < t. \<not> may_end True (c, io\<lparr>clock := now\<rparr>) \<and> fst (end_wait False (c, io\<lparr>clock := now\<rparr>)) = c)"
    using t(3,4) time_passes [OF assms] unfolding timeout_ms_def c Let_def by blast
next
  assume "\<not> busy c"
  then show "\<forall>expired now. fst (end_wait expired (c, io\<lparr>clock := now\<rparr>)) = c \<and>
      io_calls (snd (end_wait expired (c, io\<lparr>clock := now\<rparr>))) = io_calls io"
    by (cases "client_state c") (simp_all add: end_wait_def HandleDeadline_def busy_def)
qed

theorem operations_time_out_witness:
  "\<exists>c io t. session_run crc_sample ClientConfiguration_new (2, [(0, no_error, None)], c, io) \<and>
     client_state c = kStateReading \<and> t \<le> clock io + unat (socket_timeout ClientConfiguration_new) \<and>
     client_state (fst (end_wait True (c, io\<lparr>clock := max (clock io) t\<rparr>))) = kStateClosed"
proof -
  obtain c io where s: "session_run crc_sample ClientConfiguration_new (2, [(0, no_error, None)], c, io)"
    "looks (c, io) kStateReading [Async_read_response 5 [] Api_metadata 1] []"
    using example_reading by auto
  then have b: "busy c" "client_state c = kStateReading" by (simp_all add: looks_def busy_def)
  from operations_time_out [OF s(1)] b(1) obtain t where t: "t \<le> clock io + unat (socket_timeout ClientConfiguration_new)"
      "\<forall>now. clock io \<le> now \<and> t \<le> now \<longrightarrow> client_state (fst (end_wait True (c, io\<lparr>clock := now\<rparr>))) = kStateClosed"
    unfolding Let_def by blast
  from t(2) have "client_state (fst (end_wait True (c, io\<lparr>clock := max (clock io) t\<rparr>))) = kStateClosed" by simp
  with t(1) s(1) b(2) show ?thesis by blast
qed

end
