(* ===== verification/Spec2Isabelle.thy ===== *)
theory Spec2Isabelle
  imports Client_Delivery Client_Fifo Client_Example Asio_Deadline
begin

text \<open>
  Verification of libasynckafka, an asynchronous client library for Apache Kafka in C++11, and of the
  protocol library \<^verbatim>\<open>libkafka_asio\<close> in its tree. Paths are relative to \<^verbatim>\<open>src/\<close>;
  \<^verbatim>\<open>lib/\<close> is short for \<^verbatim>\<open>libkafka-asio/lib/libkafka_asio/\<close>.

  \<^bold>\<open>The program.\<close> An application creates a \<^verbatim>\<open>KafkaConsumer\<close> or a \<^verbatim>\<open>KafkaProducer\<close>
  (\<^verbatim>\<open>src/KafkaClient.cpp\<close>). The constructor asks a broker for the metadata of a topic over a blocking
  socket and creates one \<^verbatim>\<open>KafkaPartition\<close> (\<^verbatim>\<open>src/KafkaEndpointMP.cpp\<close>) for each partition of the topic. A
  partition has a socket to the leader of its partition, queues of messages and of frames, two or
  three event sources (\<^verbatim>\<open>src/WakeupEventSource.cpp\<close> over eventfd, \<^verbatim>\<open>src/PeriodicEventSource.cpp\<close> over timerfd)
  and handlers that a reactor (\<^verbatim>\<open>src/LibeventReactor.cpp\<close> over libevent) calls. It writes requests and reads
  responses with the protocol library, which also has an asynchronous client of its own over
  boost::asio (\<^verbatim>\<open>lib/impl/client.h\<close>).

  \<^bold>\<open>Modelling.\<close> Classes are records, one function per member; integers are words of their width;
  strings and streams are lists of bytes. A vector iterator is an index. What boost, libevent and the
  operating system return is a parameter: in \<^verbatim>\<open>src/\<close> a record of answers (\<open>env\<close> of System, indexed by
  the number of calls answered before), in the protocol library the checksum function. What the
  process does to the outside is a list of actions in the order of the calls (\<open>world\<close>). A handler
  returns an \<open>outcome\<close>: \<open>None\<close> when it does not return, \<open>Inl\<close> when the process ends, an exception leaves
  it or the behaviour is undefined (also when the offset behind the largest one or the count of partitions
  leaves its signed type), \<open>Inr\<close> with the new state otherwise. Opening the offset file may fail, like
  every other call of the system.

  \<^bold>\<open>Theories.\<close>
  \<^item> Kafka_Prelude: types, strings, words in memory. Endian: \<^verbatim>\<open>lib/detail/endian.h\<close>.
  \<^item> Wire_Stream, Wire_Primitives, Messages: the streams, the integers, strings and bytes on the wire,
    messages and message sets (\<^verbatim>\<open>lib/detail/impl/request_write.h\<close>, \<^verbatim>\<open>response_read.h\<close>,
    \<^verbatim>\<open>lib/impl/message.h\<close>). Locales state what a writer, a writer with an announced size and a pair of a
    writer and a reader promise; each wire type interprets them.
  \<^item> Topic_Blocks, Constants_Errors, Requests, Request_Write, Responses, Response_Read: the nested
    topic-partition blocks, the constants and error codes, the seven request classes with the sizes and
    bytes they are written as, the seven response classes with their lookups, iterator and readers.
  \<^item> Client_Config, Asio_Client: \<^verbatim>\<open>lib/impl/client_configuration.h\<close> and \<^verbatim>\<open>lib/impl/client.h\<close>.
    Asio_Session has its runs in an io service, Asio_Exchange what it does step by step, Asio_Example
    a session and the properties on it, Asio_Deadline its timeouts.
  \<^item> System, Socket_Utils, Offset_Store: outcomes, the environment, \<^verbatim>\<open>readData\<close>, \<^verbatim>\<open>connectServer\<close> and
    \<^verbatim>\<open>hostnameToIp\<close> of \<^verbatim>\<open>src/KafkaEndpointMP.h\<close>, decimal numbers in files.
  \<^item> Reactor, Event_Sources: the reactor and the two event sources.
  \<^item> Endpoint: configuration, brokers and every member of \<^verbatim>\<open>KafkaPartition\<close>, with the events it gets.
    Handler_Laws: the small steps all handlers are made of, as the laws of the locale \<open>handlers\<close> (and of
    \<open>moving_handlers\<close>, which extends it), with one lemma per handler for any property that satisfies them.
    Connection, Producer_Run and Consumer_Run interpret it, for the invariant of a partition over the
    interface \<open>event_registry\<close> of the reactor, for the way of the messages of a producer and for the
    position of a consumer. Consumer, Producer, Dispatch: single answers, requests and frames.
  \<^item> Kafka_Client: \<^verbatim>\<open>KafkaClient\<close>, \<^verbatim>\<open>KafkaConsumer\<close>, \<^verbatim>\<open>KafkaProducer\<close> and their runs. Client_Example: a
    consumer against a small broker. Round_Robin: the distribution of messages. Client_Views: interleavings,
    and the locale \<open>client_views\<close>, which lifts a history of each partition to one of the client. Its two
    interpretations are in Client_Delivery (what the partitions of a consumer have delivered, from
    Consumer_Run) and Client_Fifo (what those of a producer were passed and wrote, from Producer_Run).

  \<^bold>\<open>What is shown.\<close>
  \<^item> Wire format: announced sizes agree with the bytes that follow, responses are read back, which error
    codes end a response and what is left then, what happens to a message cut off at the end of a set.
  \<^item> Request classes: members change the entry they are called for and no other, and every member keeps
    topics and partitions distinct.
  \<^item> Reactor and event sources: no event is used outside its life, and which ones leak; one callback per
    wakeup.
  \<^item> Consumer: an answer on the socket reaches the application with exactly the messages at or above the
    next offset, in order; over any sequence of events every message of the log is delivered once and in
    order, and what the application gets from all partitions is an interleaving of their logs; the offset
    file is read back; where a partition starts.
  \<^item> Producer: the queue is cut into requests without loss, duplication or reordering; over any sequence
    of events every message is in one place of the queue, the buffer, the requests in transit and the
    answered ones, in order, and every request is written at most once, for one partition and for all
    partitions of a client side by side; destruction flushes; acknowledgements and refusals; round robin.
  \<^item> Connection: which handler a frame reaches, what a lost connection and a changed leader do, and an
    invariant of all events of a partition and of all runs of a client.
  \<^item> Asio client: it refines an abstract service that calls every handler exactly once as long as the
    client exists, and drops the handlers of operations that outlive it; its io service
    runs out of work, its reads are bounded, an operation that takes too long is ended by its timer, a request
    gets its response, brokers are tried in order.

  \<^bold>\<open>Bounds and fuel.\<close> Loops over vectors are structural. The loop over a fetch response (\<open>iterate\<close>) is
  bounded by the number of messages of the response, which is the number of increments until the end
  iterator (Responses). Loops that may not end, retries of interrupted reads, the repeated metadata
  request and the flush of the destructor, are \<open>partial_function\<close>s with \<open>None\<close> for not returning; where a
  property says that they return, it is proved. Waiting is an action: it changes nothing else.

  \<^bold>\<open>Not modelled.\<close> Logging (\<^verbatim>\<open>src/Logger.h\<close>) and the interface \<^verbatim>\<open>src/ReactorBase.h\<close>, which has no code of its
  own; the inside of boost, libevent and the system calls; the contents of uninitialised memory, which
  is an argument or undefined behaviour where it is used; threads, since handlers run in one event
  loop; the example programs, the tests and the documentation.
\<close>

section \<open>From the socket to the application\<close>

lemma forward_quiet:
  "concat (map (forward_action c) ((if vals = [] then [] else [On_received_data vals]) @ [Write fd bs])) =
   (if onFetchedData c \<and> vals \<noteq> [] then [App_fetched_data vals] else [])"
  by (simp add: handleFetchedData_def)

text \<open>C6: delivery to the application. When the socket of a partition of a consumer is readable and the
  bytes of a fetch answer arrive on it, in whatever pieces, the event reaches the application as one
  call with the values of exactly those messages whose offset is not below the next offset of the
  partition, in order, or as no call when there are none; that partition goes on behind the last of
  them and asks for its next fetch by one wakeup, and nothing else of the client changes.\<close>

theorem fetched_data_reaches_application:
  assumes wire: "array_ok (topic_ok (fetch_partition_ok (boost_crc32 E))) (ts :: FetchResponseTopic list)"
      "\<forall>t \<in> set ts. \<forall>q \<in> set (partitions t). fr_error_code (partition_props q) = 0"
      "body = be_bytes 4 (1 :: Int32) @ wire_array (wire_topic (wire_fetch_partition (boost_crc32 E))) ts"
    and messages: "ms = concat (map (\<lambda>t. concat (map (\<lambda>q. messages (partition_props q)) (partitions t))) ts)"
      "in_order ms"
    and partition: "i < length (m_partitions c)" "p = m_partitions c ! i"
      "m_partitionType p = CONSUMER_P" "onReceivedData p" "0 \<le> m_iWakeupFd (m_fetchEvent p)"
    and socket: "event AND ucast AEVENTIN \<noteq> 0" "length body < 2 ^ 31"
      "readData E (m_iSockFd p) 4 (sleep_ms 1 w) = ((4, None, be_bytes 4 (of_nat (length body) :: Int32)), w1)"
      "readData E (m_iSockFd p) (length body) w1 = ((int (length body), None, body), w2)"
      "sys_write E (tick w2) = Written n" "8 \<le> n"
  shows "let new = filter (\<lambda>m. sint (m_iNextFetchOffset p) \<le> offset_of m) ms;
             vals = List.map_filter (\<lambda>m. read_back (msg_value m)) new
    in \<exists>w' acts. client_handle E postinc (Partition_event i (Socket_event (m_iSockFd p) event)) (cur, c, r, w) =
        ret (cur, c\<lparr>m_partitions := (m_partitions c)[i := p\<lparr>m_iNextFetchOffset :=
          if new = [] then m_iNextFetchOffset p else msg_offset (last new) + 1\<rparr>]\<rparr>, r, w') \<and>
      trace w' = trace w2 @ acts \<and>
      acts = (if vals = [] then [] else [On_received_data vals]) @
        [Write (m_iWakeupFd (m_fetchEvent p)) [1, 0, 0, 0, 0, 0, 0, 0]] \<and>
      concat (map (forward_action c) acts) = (if onFetchedData c \<and> vals \<noteq> [] then [App_fetched_data vals] else [])"
proof -
  define new where "new = filter (\<lambda>m. sint (m_iNextFetchOffset p) \<le> offset_of m) ms"
  define vals where "vals = List.map_filter (\<lambda>m. read_back (msg_value m)) new"
  let ?p' = "p\<lparr>m_iNextFetchOffset := if new = [] then m_iNextFetchOffset p else msg_offset (last new) + 1\<rparr>"
  obtain w' where h: "handleFetchResponse E (open_istream body) (p, r, w2) = ret (?p', r, w')"
      "trace w' = trace w2 @ (if vals = [] then [] else [On_received_data vals]) @
        [Write (m_iWakeupFd (m_fetchEvent p)) [1, 0, 0, 0, 0, 0, 0, 0]]"
    using handleFetchResponse_delivers [OF wire messages partition(3-5) socket(5,6), of r]
    unfolding Let_def new_def [symmetric] vals_def [symmetric] by blast
  have "onReadReady E (p, r, w) = ret (?p', r, w')"
    using onReadReady_frame [OF wire(3) socket(2-4), of r] h(1) by simp
  then have e: "partition_handle E (Socket_event (m_iSockFd p) event) (p, r, w) = ret (?p', r, w')"
    using socket(1) by (simp add: handleEvent_def selectFd_def)
  have "client_handle E postinc (Partition_event i (Socket_event (m_iSockFd p) event)) (cur, c, r, w) =
      ret (cur, c\<lparr>m_partitions := (m_partitions c)[i := ?p']\<rparr>, r, w')"
    using partition(1,2) e by (simp add: on_partition_def del: partition_handle.simps)
  then show ?thesis
    unfolding Let_def new_def [symmetric] vals_def [symmetric] using h(2) forward_quiet by blast
qed

theorem fetched_data_reaches_application_witness:
  "let c = (KafkaClient_fields 0 CONSUMER_P (str ''logs'') 3 (str ''kafka'') 9092 defaultInit)
         \<lparr>m_partitions := [arrival_consumer], onFetchedData := True\<rparr>
   in \<exists>w' acts. client_handle arrival_env (\<lambda>x. x) (Partition_event 0 (Socket_event 5 1)) (0, c, LibeventReactor_new, sample_world) =
        ret (0, c\<lparr>m_partitions := [arrival_consumer\<lparr>m_iNextFetchOffset := 42\<rparr>]\<rparr>, LibeventReactor_new, w') \<and>
      concat (map (forward_action c) acts) = [App_fetched_data [str ''hello, broker!'']] \<and>
      trace w' = trace (next_call (next_call (sleep_ms 1 sample_world))) @ acts"
proof -
  define p where "p = arrival_consumer"
  define c where "c = (KafkaClient_fields 0 CONSUMER_P (str ''logs'') 3 (str ''kafka'') 9092 defaultInit)
    \<lparr>m_partitions := [p], onFetchedData := True\<rparr>"
  have c: "m_partitions c = [p]" "onFetchedData c" by (simp_all add: c_def)
  have p: "m_partitionType p = CONSUMER_P" "onReceivedData p" "0 \<le> m_iWakeupFd (m_fetchEvent p)" "m_iSockFd p = 5"
      "m_iNextFetchOffset p = 0"
    by (simp_all add: p_def)
  have i: "0 < length (m_partitions c)" "p = m_partitions c ! 0" by (simp_all add: c)
  have s: "(1 :: 16 word) AND ucast AEVENTIN \<noteq> 0" "8 \<le> (1000 :: nat)" by (simp_all add: AEVENTIN_def)
  have f: "filter (\<lambda>m. sint (0 :: Int64) \<le> offset_of m) [sample_message] = [sample_message]"
    by (simp add: sample_answer_messages(4))
  have "\<exists>w' acts. client_handle arrival_env (\<lambda>x. x) (Partition_event 0 (Socket_event 5 1)) (0, c, LibeventReactor_new, sample_world) =
        ret (0, c\<lparr>m_partitions := [p\<lparr>m_iNextFetchOffset := 42\<rparr>]\<rparr>, LibeventReactor_new, w') \<and>
      concat (map (forward_action c) acts) = [App_fetched_data [str ''hello, broker!'']] \<and>
      trace w' = trace (next_call (next_call (sleep_ms 1 sample_world))) @ acts"
    using fetched_data_reaches_application [of arrival_env, unfolded arrival_env_simps(1), OF sample_answer_ok
        sample_answer_messages(2) sample_body_def sample_answer_messages(1,3) i p(1-3) s(1) sample_body_length(2)
        arrival_reads [folded p(4)] arrival_env_simps(2) s(2), of "\<lambda>x. x" 0 LibeventReactor_new]
    unfolding Let_def p(4,5) f sample_answer_messages(6) c by (auto simp: sample_answer_messages(5) c(2))
  then show ?thesis unfolding Let_def c_def p_def .
qed

end
